(* ===== verification/Prelude.thy ===== *)
theory Prelude
  imports Main "HOL-Library.Word"
begin

text \<open>
  Shared ground of the development: the machine types of the Go sources (\<open>byte\<close>, \<open>u16\<close>,
  \<open>u24\<close> values carried in \<open>u32\<close>, \<open>u32\<close>, \<open>u64\<close>), the big-endian conversions of
  \<open>encoding/binary\<close> and of \<open>diam/uintconv.go\<close>, the collections of simp rules the component
  theories extend, and the two interfaces (locales) every component proof goes through: a
  \<open>codec\<close> (decoding what was encoded gives the value back) and a \<open>step_machine\<close> (an invariant
  kept by one step is kept by every run).
\<close>

unbundle bit_operations_syntax

type_synonym byte = "8 word"
type_synonym u16 = "16 word"
type_synonym u32 = "32 word"
type_synonym u64 = "64 word"
type_synonym bytes = "byte list"

named_theorems wire_simps \<open>equations of the wire format used to evaluate encoders and decoders\<close>
named_theorems len_simps \<open>lengths of encoded values\<close>

section \<open>Big-endian integers\<close>

text \<open>
  \<open>binary.BigEndian.PutUint16/32/64\<close> and \<open>Uint16/32/64\<close>. The readers are only called on slices
  whose length the caller has checked; on a shorter slice Go panics, and the model's value there
  (\<open>0\<close>) is never used.
\<close>

definition PutUint16 :: "u16 \<Rightarrow> bytes" where
  "PutUint16 w = [ucast (drop_bit 8 w), ucast w]"

definition PutUint32 :: "u32 \<Rightarrow> bytes" where
  "PutUint32 w = [ucast (drop_bit 24 w), ucast (drop_bit 16 w), ucast (drop_bit 8 w), ucast w]"

definition PutUint64 :: "u64 \<Rightarrow> bytes" where
  "PutUint64 w = [ucast (drop_bit 56 w), ucast (drop_bit 48 w), ucast (drop_bit 40 w),
     ucast (drop_bit 32 w), ucast (drop_bit 24 w), ucast (drop_bit 16 w), ucast (drop_bit 8 w), ucast w]"

fun Uint16 :: "bytes \<Rightarrow> u16" where
  "Uint16 (a # b # _) = push_bit 8 (ucast a) OR ucast b"
| "Uint16 _ = 0"

fun Uint32 :: "bytes \<Rightarrow> u32" where
  "Uint32 (a # b # c # d # _) =
     push_bit 24 (ucast a) OR push_bit 16 (ucast b) OR push_bit 8 (ucast c) OR ucast d"
| "Uint32 _ = 0"

fun Uint64 :: "bytes \<Rightarrow> u64" where
  "Uint64 (a # b # c # d # e # f # g # h # _) =
     push_bit 56 (ucast a) OR push_bit 48 (ucast b) OR push_bit 40 (ucast c) OR push_bit 32 (ucast d) OR
     push_bit 24 (ucast e) OR push_bit 16 (ucast f) OR push_bit 8 (ucast g) OR ucast h"
| "Uint64 _ = 0"

text \<open>The 24-bit conversions of \<open>diam/uintconv.go\<close>; a 24-bit quantity is held in a \<open>uint32\<close>.\<close>

definition uint24to32 :: "bytes \<Rightarrow> u32" where
  "uint24to32 b = (if length b \<noteq> 3 then 0
     else push_bit 16 (ucast (b ! 0)) OR push_bit 8 (ucast (b ! 1)) OR ucast (b ! 2))"

definition uint32to24 :: "u32 \<Rightarrow> bytes" where
  "uint32to24 n = [ucast (drop_bit 16 n), ucast (drop_bit 8 n), ucast n]"

text \<open>\<open>putUint24\<close> writes into the first three bytes of a slice and leaves the rest alone.\<close>

definition putUint24 :: "bytes \<Rightarrow> u32 \<Rightarrow> bytes" where
  "putUint24 b n = [ucast (drop_bit 16 n), ucast (drop_bit 8 n), ucast n] @ drop 3 b"

lemma length_PutUint [simp, len_simps]:
  "length (PutUint16 a) = 2" "length (PutUint32 b) = 4" "length (PutUint64 c) = 8"
  "length (uint32to24 n) = 3"
  by (simp_all add: PutUint16_def PutUint32_def PutUint64_def uint32to24_def)

lemma bit_byte_part:
  fixes w :: "'a::len word"
  shows "bit (push_bit k (ucast (ucast (drop_bit k w) :: byte)) :: 'a word) n \<longleftrightarrow>
    k \<le> n \<and> n < k + 8 \<and> bit w n"
  using bit_imp_le_length [of w n] by (auto simp: bit_simps)

lemma bit_byte_low:
  fixes w :: "'a::len word"
  shows "bit (ucast (ucast w :: byte) :: 'a word) n \<longleftrightarrow> n < 8 \<and> bit w n"
  using bit_imp_le_length [of w n] by (auto simp: bit_simps)

lemma Uint16_Put [simp]: "Uint16 (PutUint16 w @ r) = w"
  by (rule bit_eqI) (use bit_imp_le_length [of w] in
    \<open>auto simp: PutUint16_def bit_or_iff bit_byte_part bit_byte_low\<close>)

lemma Uint32_Put [simp]: "Uint32 (PutUint32 w @ r) = w"
  by (rule bit_eqI) (use bit_imp_le_length [of w] in
    \<open>auto simp: PutUint32_def bit_or_iff bit_byte_part bit_byte_low\<close>)

lemma Uint64_Put [simp]: "Uint64 (PutUint64 w @ r) = w"
  by (rule bit_eqI) (use bit_imp_le_length [of w] in
    \<open>auto simp: PutUint64_def bit_or_iff bit_byte_part bit_byte_low\<close>)

lemma Uint_Put_exact [simp]:
  "Uint16 (PutUint16 a) = a" "Uint32 (PutUint32 b) = b" "Uint64 (PutUint64 c) = c"
  using Uint16_Put [of a "[]"] Uint32_Put [of b "[]"] Uint64_Put [of c "[]"] by simp_all

lemma uint24_roundtrip: "uint24to32 (uint32to24 n) = take_bit 24 n"
  by (rule bit_eqI) (auto simp: uint24to32_def uint32to24_def bit_or_iff bit_byte_part bit_byte_low
      bit_take_bit_iff)

text \<open>A value that fits in 24 bits survives the three-byte encoding.\<close>

lemma uint24_roundtrip_small:
  assumes "unat n < 2 ^ 24"
  shows "uint24to32 (uint32to24 n) = n"
proof -
  have "unat (take_bit 24 n) = unat n"
    using assms by (simp only: unsigned_take_bit_eq take_bit_nat_eq_self)
  then show ?thesis
    by (simp add: uint24_roundtrip unsigned_word_eqI)
qed

text \<open>Reading a slice of the exact size loses nothing.\<close>

lemma bit_push_byte:
  "bit (push_bit k (ucast (b :: byte)) :: 'a::len word) n \<longleftrightarrow> k \<le> n \<and> n < LENGTH('a) \<and> bit b (n - k)"
  by (auto simp: bit_simps)

lemma byte_bit_bound: "bit (b :: byte) n \<Longrightarrow> n < 8"
  using bit_imp_le_length [of b n] by simp

lemmas byte_bits = bit_push_byte bit_unsigned_iff bit_drop_bit_eq o_def bit_or_iff

lemma Put_Uint16:
  assumes "length b = 2"
  shows "PutUint16 (Uint16 b) = b"
proof -
  from assms obtain x y where b: "b = [x, y]"
    by (auto simp: length_Suc_conv numeral_2_eq_2)
  show ?thesis
    unfolding b PutUint16_def Uint16.simps list.inject
    by (safe; rule bit_word_eqI; simp only: byte_bits) (auto dest: byte_bit_bound)
qed

lemma Put_Uint32:
  assumes "length b = 4"
  shows "PutUint32 (Uint32 b) = b"
proof -
  from assms obtain x y z w where b: "b = [x, y, z, w]"
    by (auto simp: length_Suc_conv numeral_eq_Suc)
  show ?thesis
    unfolding b PutUint32_def Uint32.simps list.inject
    by (safe; rule bit_word_eqI; simp only: byte_bits) (auto dest: byte_bit_bound)
qed

lemma Put_Uint64:
  assumes "length b = 8"
  shows "PutUint64 (Uint64 b) = b"
proof -
  from assms obtain x y z w p q r s where b: "b = [x, y, z, w, p, q, r, s]"
    by (auto simp: length_Suc_conv numeral_eq_Suc)
  show ?thesis
    unfolding b PutUint64_def Uint64.simps list.inject
    by (safe; rule bit_word_eqI; simp only: byte_bits) (auto dest: byte_bit_bound)
qed

lemma uint24_bound: "unat (uint24to32 b) < 2 ^ 24"
proof -
  have "uint24to32 b = take_bit 24 (uint24to32 b)"
    by (rule bit_eqI) (auto simp: uint24to32_def byte_bits bit_take_bit_iff dest: byte_bit_bound split: list.splits)
  then show ?thesis
    by (metis take_bit_nat_less_exp unsigned_take_bit_eq)
qed

lemma Put_uint24:
  assumes "length b = 3"
  shows "uint32to24 (uint24to32 b) = b"
proof -
  from assms obtain x y z where b: "b = [x, y, z]"
    by (auto simp: length_Suc_conv numeral_eq_Suc)
  have "uint24to32 b = push_bit 16 (ucast x) OR push_bit 8 (ucast y) OR ucast z"
    by (simp only: uint24to32_def b) (simp add: numeral_2_eq_2)
  then show ?thesis
    unfolding uint32to24_def b list.inject
    by (simp only: b) (safe; rule bit_word_eqI; simp only: byte_bits; auto dest: byte_bit_bound)
qed

section \<open>Interfaces\<close>

text \<open>
  A codec: an encoder, a decoder and the values on which decoding inverts encoding. The client
  facts (two values with the same bytes are the same value) are proved once here and reach the
  components through their interpretations.
\<close>

locale codec =
  fixes enc :: "'a \<Rightarrow> bytes"
    and dec :: "bytes \<Rightarrow> 'e + 'a"
    and ok :: "'a \<Rightarrow> bool"
  assumes dec_enc: "ok x \<Longrightarrow> dec (enc x) = Inr x"
begin

lemma enc_inject: "ok x \<Longrightarrow> ok y \<Longrightarrow> enc x = enc y \<longleftrightarrow> x = y"
  by (metis dec_enc sum.inject(2))

lemma enc_inj_on: "inj_on enc {x. ok x}"
  by (auto simp: inj_on_def enc_inject)

end

text \<open>
  A framed codec decodes a value from the front of a longer buffer and says how many bytes it
  takes, so values can be laid out one after the other.
\<close>

locale framed_codec =
  fixes enc :: "'a \<Rightarrow> bytes"
    and dec :: "bytes \<Rightarrow> 'e + 'a"
    and ok :: "'a \<Rightarrow> bool"
    and size :: "'a \<Rightarrow> nat"
  assumes dec_enc_append: "ok x \<Longrightarrow> dec (enc x @ r) = Inr x"
    and length_enc: "ok x \<Longrightarrow> length (enc x) = size x"
    and size_pos: "0 < size x"

sublocale framed_codec \<subseteq> codec enc dec ok
proof
  fix x
  assume "ok x"
  then show "dec (enc x) = Inr x"
    using dec_enc_append [of x "[]"] by simp
qed

context framed_codec
begin

text \<open>No encoding is a proper prefix of another one.\<close>

lemma enc_append_inject:
  assumes "ok x" "ok y" "enc x @ r = enc y @ s"
  shows "x = y \<and> r = s"
proof -
  have "dec (enc x @ r) = dec (enc y @ s)"
    by (simp only: assms(3))
  then have "x = y"
    using assms(1,2) by (simp add: dec_enc_append)
  with assms(3) show ?thesis
    by simp
qed

lemma enc_nonempty: "ok x \<Longrightarrow> enc x \<noteq> []"
  using length_enc [of x] size_pos [of x] by auto

text \<open>A sequence of frames has one reading.\<close>

lemma concat_inject:
  "list_all ok xs \<Longrightarrow> list_all ok ys \<Longrightarrow> concat (map enc xs) = concat (map enc ys) \<Longrightarrow> xs = ys"
proof (induction xs arbitrary: ys)
  case Nil
  then show ?case
    by (cases ys) (auto simp: enc_nonempty)
next
  case (Cons x xs)
  show ?case
  proof (cases ys)
    case Nil
    with Cons.prems show ?thesis
      by (auto simp: enc_nonempty)
  next
    case (Cons y zs)
    with Cons.prems have "x = y \<and> concat (map enc xs) = concat (map enc zs)"
      by (intro enc_append_inject) simp_all
    with Cons Cons.IH [of zs] Cons.prems show ?thesis
      by simp
  qed
qed

lemma length_concat:
  "list_all ok xs \<Longrightarrow> length (concat (map enc xs)) = sum_list (map size xs)"
  by (induction xs) (auto simp: length_enc)

end

text \<open>
  A deterministic machine takes one input at a time and returns its next state and its outputs;
  \<open>run\<close> feeds it a list of inputs and collects the outputs in order.
\<close>

fun run :: "('s \<Rightarrow> 'i \<Rightarrow> 's \<times> 'o list) \<Rightarrow> 's \<Rightarrow> 'i list \<Rightarrow> 's \<times> 'o list" where
  "run step s [] = (s, [])"
| "run step s (i # is) =
     (let t = step s i; u = run step (fst t) is in (fst u, snd t @ snd u))"

locale step_machine =
  fixes step :: "'s \<Rightarrow> 'i \<Rightarrow> 's \<times> 'o list"
    and inv :: "'s \<Rightarrow> bool"
  assumes step_inv: "inv s \<Longrightarrow> inv (fst (step s i))"
begin

lemma run_inv: "inv s \<Longrightarrow> inv (fst (run step s is))"
proof (induction "is" arbitrary: s)
  case Nil
  then show ?case by simp
next
  case (Cons i "is")
  from Cons.prems have "inv (fst (step s i))"
    by (rule step_inv)
  then show ?case
    by (simp add: Let_def Cons.IH)
qed

end

lemma run_Cons:
  "fst (run step s (i # is)) = fst (run step (fst (step s i)) is)"
  "snd (run step s (i # is)) = snd (step s i) @ snd (run step (fst (step s i)) is)"
  by (simp_all add: Let_def)

lemma run_append:
  "run step s (is @ js) =
     (let t = run step s is; u = run step (fst t) js in (fst u, snd t @ snd u))"
  by (induction "is" arbitrary: s) (simp_all add: Let_def)

end
