(* ===== verification/Datatypes.thy ===== *)
theory Datatypes
  imports Prelude
begin

text \<open>
  The AVP data types of \<open>src/diam/datatype\<close>: one constructor of \<open>dtype\<close> per Go type that
  implements \<open>datatype.Type\<close>, the \<open>Decode...\<close> function and the \<open>Serialize\<close> method of each, the
  common \<open>Len\<close>, \<open>Padding\<close> and \<open>Type\<close> methods, and the dispatcher \<open>Decode\<close>. Floats are held as
  their IEEE bit patterns (\<open>math.Float32bits\<close>), a \<open>Time\<close> as its Unix seconds. The lemmas show
  that every type decodes what it serialised, that \<open>Len\<close> is the length of the serialised value,
  that \<open>Decode\<close> rejects or flags every payload of the wrong size, and what the validity checks of
  \<open>Address\<close>, \<open>DiameterIdentity\<close> and \<open>DiameterURI\<close> accept.
\<close>

section \<open>Types\<close>

datatype TypeID =
    UnknownType | AddressType | DiameterIdentityType | DiameterURIType | EnumeratedType
  | Float32Type | Float64Type | GroupedType | IPFilterRuleType | IPv4Type | Integer32Type
  | Integer64Type | OctetStringType | QoSFilterRuleType | TimeType | UTF8StringType
  | Unsigned32Type | Unsigned64Type | IPv6Type
  | OtherType nat \<comment> \<open>a TypeID outside the built-in range\<close>

record Address =
  Family :: u16
  Value :: bytes

datatype dtype =
    Unknown bytes | AddressV Address | DiameterIdentity bytes | DiameterURI bytes
  | Enumerated u32 | Float32 u32 | Float64 u64 | Grouped bytes | IPFilterRule bytes
  | IPv4 bytes | IPv6 bytes | Integer32 u32 | Integer64 u64 | OctetString bytes
  | QoSFilterRule bytes | Time int | UTF8String bytes | Unsigned32 u32 | Unsigned64 u64

datatype dt_error =
    NotEnoughData | InvalidFamily | InvalidIPv4Length | InvalidIPv6Length
  | InvalidTimeLength | UnknownDataType

section \<open>Padding\<close>

definition pad4 :: "nat \<Rightarrow> nat" where
  "pad4 n = nat (int n + ((4 - int n) AND 3))"

lemma and_3_int: "(k :: int) AND 3 = k mod 4"
  using take_bit_eq_mask [of 2 k] by (simp add: take_bit_eq_mod mask_eq_exp_minus_1)

lemma pad4_eq: "pad4 n = 4 * ((n + 3) div 4)"
proof -
  have "int n + (4 - int n) mod 4 = 4 * ((int n + 3) div 4)"
    by presburger
  also have "\<dots> = int (4 * ((n + 3) div 4))"
    by (simp add: zdiv_int)
  finally show ?thesis
    unfolding pad4_def and_3_int by (simp only: nat_int)
qed

lemma pad4_ge: "n \<le> pad4 n" and pad4_lt: "pad4 n < n + 4" and pad4_dvd: "4 dvd pad4 n"
  unfolding pad4_eq by presburger+

section \<open>Addresses\<close>

definition AddressFamilyIPv4 :: u16 where "AddressFamilyIPv4 = 1"
definition AddressFamilyIPv6 :: u16 where "AddressFamilyIPv6 = 2"
definition AddressFamilyE164 :: u16 where "AddressFamilyE164 = 8"

lemmas family_defs = AddressFamilyIPv4_def AddressFamilyIPv6_def AddressFamilyE164_def

definition Address_Valid :: "Address \<Rightarrow> dt_error option" where
  "Address_Valid addr =
     (if Family addr = 0 \<or> Family addr = 65535 then Some InvalidFamily
      else if Family addr = AddressFamilyIPv4 then
        (if length (Value addr) \<noteq> 4 then Some InvalidIPv4Length else None)
      else if Family addr = AddressFamilyIPv6 then
        (if length (Value addr) \<noteq> 16 then Some InvalidIPv6Length else None)
      else None)"

definition Address_Len :: "Address \<Rightarrow> nat" where
  "Address_Len addr = 2 + length (Value addr)"

definition Address_Serialize :: "Address \<Rightarrow> bytes" where
  "Address_Serialize addr = PutUint16 (Family addr) @ Value addr"

definition DecodeAddress :: "bytes \<Rightarrow> dt_error + dtype" where
  "DecodeAddress b =
     (if length b < 2 then Inl NotEnoughData
      else let addr = \<lparr>Family = Uint16 (take 2 b), Value = drop 2 b\<rparr>
           in case Address_Valid addr of Some e \<Rightarrow> Inl e | None \<Rightarrow> Inr (AddressV addr))"

definition e164Digits :: "bytes \<Rightarrow> bool" where
  "e164Digits digits \<longleftrightarrow> \<not> (length digits = 0 \<or> length digits > 15) \<and>
     list_all (\<lambda>d. \<not> (d < 48 \<or> d > 57)) digits"

definition E164Address :: "bytes \<Rightarrow> Address option" where
  "E164Address digits =
     (if \<not> e164Digits digits then None else Some \<lparr>Family = AddressFamilyE164, Value = digits\<rparr>)"

definition Address_E164 :: "Address \<Rightarrow> bytes option" where
  "Address_E164 addr =
     (if Family addr \<noteq> AddressFamilyE164 then None
      else if \<not> e164Digits (Value addr) then None
      else Some (Value addr))"

text \<open>\<open>netip.Addr\<close> values: the invalid address, an IPv4 or an IPv6 address (zones are dropped on
  the wire). \<open>Unmap\<close> turns an IPv4-mapped IPv6 address into the IPv4 address.\<close>

datatype netip = NoAddr | Addr4 bytes | Addr6 bytes

definition v4mapped :: "bytes \<Rightarrow> bool" where
  "v4mapped b \<longleftrightarrow> length b = 16 \<and> take 10 b = replicate 10 0 \<and> b ! 10 = 255 \<and> b ! 11 = 255"

fun Unmap :: "netip \<Rightarrow> netip" where
  "Unmap (Addr6 b) = (if v4mapped b then Addr4 (drop 12 b) else Addr6 b)"
| "Unmap ip = ip"

definition AddressFromIP :: "netip \<Rightarrow> Address" where
  "AddressFromIP ip =
     (case Unmap ip of
        NoAddr \<Rightarrow> \<lparr>Family = 0, Value = []\<rparr>
      | Addr4 b \<Rightarrow> \<lparr>Family = AddressFamilyIPv4, Value = b\<rparr>
      | Addr6 b \<Rightarrow> \<lparr>Family = AddressFamilyIPv6, Value = b\<rparr>)"

definition Address_IP :: "Address \<Rightarrow> netip option" where
  "Address_IP addr =
     (if Family addr = AddressFamilyIPv4 \<and> length (Value addr) = 4 then Some (Addr4 (Value addr))
      else if Family addr = AddressFamilyIPv6 \<and> length (Value addr) = 16 then Some (Addr6 (Value addr))
      else None)"

section \<open>Decoders\<close>

text \<open>The built-in decoders of the fixed-size types return a zero value, without an error, for a
  payload of another size; the AVP decoder compares \<open>Len\<close> with the payload size afterwards.\<close>

definition DecodeUnknown :: "bytes \<Rightarrow> dt_error + dtype" where
  "DecodeUnknown b = Inr (Unknown b)"

definition DecodeDiameterIdentity :: "bytes \<Rightarrow> dt_error + dtype" where
  "DecodeDiameterIdentity b = Inr (DiameterIdentity b)"

definition DecodeDiameterURI :: "bytes \<Rightarrow> dt_error + dtype" where
  "DecodeDiameterURI b = Inr (DiameterURI b)"

definition Integer32_of :: "bytes \<Rightarrow> u32" where
  "Integer32_of b = (if length b \<noteq> 4 then 0 else Uint32 b)"

definition DecodeInteger32 :: "bytes \<Rightarrow> dt_error + dtype" where
  "DecodeInteger32 b = Inr (Integer32 (Integer32_of b))"

definition DecodeEnumerated :: "bytes \<Rightarrow> dt_error + dtype" where
  "DecodeEnumerated b =
     (case DecodeInteger32 b of Inr (Integer32 v) \<Rightarrow> Inr (Enumerated v) | r \<Rightarrow> r)"

definition DecodeInteger64 :: "bytes \<Rightarrow> dt_error + dtype" where
  "DecodeInteger64 b = Inr (Integer64 (if length b \<noteq> 8 then 0 else Uint64 b))"

definition DecodeFloat32 :: "bytes \<Rightarrow> dt_error + dtype" where
  "DecodeFloat32 b = Inr (Float32 (if length b \<noteq> 4 then 0 else Uint32 b))"

definition DecodeFloat64 :: "bytes \<Rightarrow> dt_error + dtype" where
  "DecodeFloat64 b = Inr (Float64 (if length b \<noteq> 8 then 0 else Uint64 b))"

definition DecodeGrouped :: "bytes \<Rightarrow> dt_error + dtype" where
  "DecodeGrouped b = Inr (Grouped b)"

definition DecodeIPFilterRule :: "bytes \<Rightarrow> dt_error + dtype" where
  "DecodeIPFilterRule b = Inr (IPFilterRule b)"

definition DecodeIPv4 :: "bytes \<Rightarrow> dt_error + dtype" where
  "DecodeIPv4 b = Inr (IPv4 (if length b \<noteq> 4 then [0, 0, 0, 0] else b))"

definition DecodeIPv6 :: "bytes \<Rightarrow> dt_error + dtype" where
  "DecodeIPv6 b = Inr (IPv6 (if length b \<noteq> 16 then replicate 16 0 else b))"

definition DecodeOctetString :: "bytes \<Rightarrow> dt_error + dtype" where
  "DecodeOctetString b = Inr (OctetString b)"

definition DecodeQoSFilterRule :: "bytes \<Rightarrow> dt_error + dtype" where
  "DecodeQoSFilterRule b = Inr (QoSFilterRule b)"

definition DecodeUTF8String :: "bytes \<Rightarrow> dt_error + dtype" where
  "DecodeUTF8String b = Inr (UTF8String b)"

definition DecodeUnsigned32 :: "bytes \<Rightarrow> dt_error + dtype" where
  "DecodeUnsigned32 b = Inr (Unsigned32 (if length b \<noteq> 4 then 0 else Uint32 b))"

definition DecodeUnsigned64 :: "bytes \<Rightarrow> dt_error + dtype" where
  "DecodeUnsigned64 b = Inr (Unsigned64 (if length b \<noteq> 8 then 0 else Uint64 b))"

text \<open>Time counts seconds from 1900; the top bit selects the era (before or after the 2036
  rollover).\<close>

definition rfc868offset :: int where "rfc868offset = 2208988800"
definition postRolloverUnixOffset :: int where "postRolloverUnixOffset = 2085978496"

definition DecodeTime :: "bytes \<Rightarrow> dt_error + dtype" where
  "DecodeTime b =
     (if length b \<noteq> 4 then Inl InvalidTimeLength
      else if drop_bit 7 (b ! 0) = 0 then Inr (Time (uint (Uint32 b) + postRolloverUnixOffset))
      else Inr (Time (uint (Uint32 b) - rfc868offset)))"

definition Time_Serialize :: "int \<Rightarrow> bytes" where
  "Time_Serialize t = PutUint32 (word_of_int t + word_of_int rfc868offset)"

fun Decode :: "TypeID \<Rightarrow> bytes \<Rightarrow> dt_error + dtype" where
  "Decode UnknownType b = DecodeUnknown b"
| "Decode AddressType b = DecodeAddress b"
| "Decode DiameterIdentityType b = DecodeDiameterIdentity b"
| "Decode DiameterURIType b = DecodeDiameterURI b"
| "Decode EnumeratedType b = DecodeEnumerated b"
| "Decode Float32Type b = DecodeFloat32 b"
| "Decode Float64Type b = DecodeFloat64 b"
| "Decode GroupedType b = DecodeGrouped b"
| "Decode IPFilterRuleType b = DecodeIPFilterRule b"
| "Decode IPv4Type b = DecodeIPv4 b"
| "Decode IPv6Type b = DecodeIPv6 b"
| "Decode Integer32Type b = DecodeInteger32 b"
| "Decode Integer64Type b = DecodeInteger64 b"
| "Decode OctetStringType b = DecodeOctetString b"
| "Decode QoSFilterRuleType b = DecodeQoSFilterRule b"
| "Decode TimeType b = DecodeTime b"
| "Decode UTF8StringType b = DecodeUTF8String b"
| "Decode Unsigned32Type b = DecodeUnsigned32 b"
| "Decode Unsigned64Type b = DecodeUnsigned64 b"
| "Decode (OtherType n) b = Inl UnknownDataType"

lemmas decoder_defs [wire_simps] =
  DecodeUnknown_def DecodeAddress_def DecodeDiameterIdentity_def DecodeDiameterURI_def
  DecodeEnumerated_def DecodeFloat32_def DecodeFloat64_def DecodeGrouped_def DecodeIPFilterRule_def
  DecodeIPv4_def DecodeIPv6_def DecodeInteger32_def Integer32_of_def DecodeInteger64_def
  DecodeOctetString_def DecodeQoSFilterRule_def DecodeTime_def DecodeUTF8String_def
  DecodeUnsigned32_def DecodeUnsigned64_def

section \<open>The Type interface\<close>

text \<open>\<open>net.IP.To4\<close> and \<open>To16\<close>; \<open>None\<close> is a nil IP.\<close>

definition To4 :: "bytes \<Rightarrow> bytes option" where
  "To4 ip = (if length ip = 4 then Some ip else if v4mapped ip then Some (drop 12 ip) else None)"

definition To16 :: "bytes \<Rightarrow> bytes option" where
  "To16 ip = (if length ip = 4 then Some (replicate 10 0 @ [255, 255] @ ip)
     else if length ip = 16 then Some ip else None)"

definition IPv4_Serialize :: "bytes \<Rightarrow> bytes" where
  "IPv4_Serialize ip = (case To4 ip of Some ip4 \<Rightarrow> ip4 | None \<Rightarrow> ip)"

definition IPv6_Serialize :: "bytes \<Rightarrow> bytes" where
  "IPv6_Serialize ip = (case To16 ip of Some ip6 \<Rightarrow> ip6 | None \<Rightarrow> ip)"

fun dt_Serialize :: "dtype \<Rightarrow> bytes" where
  "dt_Serialize (Unknown b) = b"
| "dt_Serialize (AddressV a) = Address_Serialize a"
| "dt_Serialize (DiameterIdentity b) = b"
| "dt_Serialize (DiameterURI b) = b"
| "dt_Serialize (Enumerated n) = PutUint32 n"
| "dt_Serialize (Float32 n) = PutUint32 n"
| "dt_Serialize (Float64 n) = PutUint64 n"
| "dt_Serialize (Grouped b) = b"
| "dt_Serialize (IPFilterRule b) = b"
| "dt_Serialize (IPv4 b) = IPv4_Serialize b"
| "dt_Serialize (IPv6 b) = IPv6_Serialize b"
| "dt_Serialize (Integer32 n) = PutUint32 n"
| "dt_Serialize (Integer64 n) = PutUint64 n"
| "dt_Serialize (OctetString b) = b"
| "dt_Serialize (QoSFilterRule b) = b"
| "dt_Serialize (Time t) = Time_Serialize t"
| "dt_Serialize (UTF8String b) = b"
| "dt_Serialize (Unsigned32 n) = PutUint32 n"
| "dt_Serialize (Unsigned64 n) = PutUint64 n"

fun dt_Len :: "dtype \<Rightarrow> nat" where
  "dt_Len (Unknown b) = length b"
| "dt_Len (AddressV a) = Address_Len a"
| "dt_Len (DiameterIdentity b) = length b"
| "dt_Len (DiameterURI b) = length b"
| "dt_Len (Enumerated n) = 4"
| "dt_Len (Float32 n) = 4"
| "dt_Len (Float64 n) = 8"
| "dt_Len (Grouped b) = length b"
| "dt_Len (IPFilterRule b) = length b"
| "dt_Len (IPv4 b) = 4"
| "dt_Len (IPv6 b) = 16"
| "dt_Len (Integer32 n) = 4"
| "dt_Len (Integer64 n) = 8"
| "dt_Len (OctetString b) = length b"
| "dt_Len (QoSFilterRule b) = length b"
| "dt_Len (Time t) = 4"
| "dt_Len (UTF8String b) = length b"
| "dt_Len (Unsigned32 n) = 4"
| "dt_Len (Unsigned64 n) = 8"

fun dt_Padding :: "dtype \<Rightarrow> nat" where
  "dt_Padding (Unknown b) = pad4 (length b) - length b"
| "dt_Padding (AddressV a) = pad4 (Address_Len a) - Address_Len a"
| "dt_Padding (DiameterIdentity b) = pad4 (length b) - length b"
| "dt_Padding (DiameterURI b) = pad4 (length b) - length b"
| "dt_Padding (IPFilterRule b) = pad4 (length b) - length b"
| "dt_Padding (OctetString b) = pad4 (length b) - length b"
| "dt_Padding (QoSFilterRule b) = pad4 (length b) - length b"
| "dt_Padding (UTF8String b) = pad4 (length b) - length b"
| "dt_Padding _ = 0"

fun dt_Type :: "dtype \<Rightarrow> TypeID" where
  "dt_Type (Unknown b) = UnknownType"
| "dt_Type (AddressV a) = AddressType"
| "dt_Type (DiameterIdentity b) = DiameterIdentityType"
| "dt_Type (DiameterURI b) = DiameterURIType"
| "dt_Type (Enumerated n) = EnumeratedType"
| "dt_Type (Float32 n) = Float32Type"
| "dt_Type (Float64 n) = Float64Type"
| "dt_Type (Grouped b) = GroupedType"
| "dt_Type (IPFilterRule b) = IPFilterRuleType"
| "dt_Type (IPv4 b) = IPv4Type"
| "dt_Type (IPv6 b) = IPv6Type"
| "dt_Type (Integer32 n) = Integer32Type"
| "dt_Type (Integer64 n) = Integer64Type"
| "dt_Type (OctetString b) = OctetStringType"
| "dt_Type (QoSFilterRule b) = QoSFilterRuleType"
| "dt_Type (Time t) = TimeType"
| "dt_Type (UTF8String b) = UTF8StringType"
| "dt_Type (Unsigned32 n) = Unsigned32Type"
| "dt_Type (Unsigned64 n) = Unsigned64Type"

text \<open>The values the decoders can return: addresses are valid, IPs have their exact size and a
  time lies in the range the 32-bit field with its era bit can name.\<close>

fun dt_wf :: "dtype \<Rightarrow> bool" where
  "dt_wf (AddressV a) = (Address_Valid a = None)"
| "dt_wf (IPv4 b) = (length b = 4)"
| "dt_wf (IPv6 b) = (length b = 16)"
| "dt_wf (Time t) = (-61505152 \<le> t \<and> t < 4233462144)"
| "dt_wf _ = True"

section \<open>Properties of the data types\<close>

lemma length_IP_Serialize:
  "length b = 4 \<Longrightarrow> IPv4_Serialize b = b" "length b = 16 \<Longrightarrow> IPv6_Serialize b = b"
  by (simp_all add: IPv4_Serialize_def IPv6_Serialize_def To4_def To16_def)

lemma length_dt_Serialize [len_simps]: "dt_wf d \<Longrightarrow> length (dt_Serialize d) = dt_Len d"
  by (cases d) (simp_all add: Address_Serialize_def Address_Len_def Time_Serialize_def length_IP_Serialize)

lemma top_bit_32: "drop_bit 7 (ucast (drop_bit 24 w) :: byte) = 0 \<longleftrightarrow> uint (w :: u32) < 2 ^ 31"
proof -
  have "uint (ucast (drop_bit 24 w) :: byte) = uint w div 2 ^ 24"
  proof -
    have "uint w div 2 ^ 24 < 2 ^ 8"
      using uint_lt2p [of w] by (simp add: div_less_iff_less_mult)
    moreover have "0 \<le> uint w div 2 ^ 24"
      by (simp add: pos_imp_zdiv_nonneg_iff)
    ultimately show ?thesis
      by (simp add: unsigned_ucast_eq unsigned_drop_bit_eq drop_bit_eq_div take_bit_eq_mod uint_div_distrib)
  qed
  moreover have "uint (drop_bit 7 b) = uint b div 2 ^ 7" for b :: byte
    by (simp add: drop_bit_eq_div uint_div_distrib)
  ultimately have "uint (drop_bit 7 (ucast (drop_bit 24 w) :: byte)) = uint w div 2 ^ 24 div 2 ^ 7"
    by (simp only:)
  moreover have "uint w div 2 ^ 24 div 2 ^ 7 = 0 \<longleftrightarrow> uint w < 2 ^ 31"
    using uint_ge_0 [of w] by (auto simp add: zdiv_zmult2_eq [symmetric] zdiv_eq_0_iff)
  ultimately show ?thesis
    by (simp only: uint_0_iff [symmetric])
qed

lemma uint_Time_word:
  "uint (word_of_int t + word_of_int rfc868offset :: u32) = (t + 2208988800) mod 4294967296"
proof -
  have "uint (word_of_int (t + 2208988800) :: u32) = (t + 2208988800) mod 2 ^ 32"
    by (simp only: uint_word_of_int take_bit_eq_mod) simp
  then show ?thesis
    by (simp add: rfc868offset_def)
qed

lemma Time_window:
  assumes "- 61505152 \<le> (t :: int)" "t < 4233462144"
  shows "(if (t + 2208988800) mod 4294967296 < 2147483648
    then (t + 2208988800) mod 4294967296 + 2085978496 else (t + 2208988800) mod 4294967296 - 2208988800) = t"
proof (cases "t + 2208988800 < 4294967296")
  case True
  then have "(t + 2208988800) mod 4294967296 = t + 2208988800"
    using assms by (simp add: mod_pos_pos_trivial)
  then show ?thesis
    using assms by simp
next
  case False
  then have "(t + 2208988800) mod 4294967296 = t + 2208988800 - 4294967296"
    using assms minus_mod_self2 [of "t + 2208988800" 4294967296] by (simp add: mod_pos_pos_trivial)
  then show ?thesis
    using assms by simp
qed

lemma DecodeTime_Serialize:
  assumes "- 61505152 \<le> (t :: int)" "t < 4233462144"
  shows "DecodeTime (Time_Serialize t) = Inr (Time t)"
proof -
  let ?w = "word_of_int t + word_of_int rfc868offset :: u32"
  have top: "drop_bit 7 (Time_Serialize t ! 0) = 0 \<longleftrightarrow> uint ?w < 2 ^ 31"
    unfolding top_bit_32 [symmetric] by (simp add: Time_Serialize_def PutUint32_def)
  have len: "length (Time_Serialize t) = 4" and val: "Uint32 (Time_Serialize t) = ?w"
    by (simp_all add: Time_Serialize_def)
  have dec: "DecodeTime (Time_Serialize t) =
      Inr (Time (if uint ?w < 2 ^ 31 then uint ?w + postRolloverUnixOffset else uint ?w - rfc868offset))"
    unfolding DecodeTime_def len val top by simp
  have "(if uint ?w < 2 ^ 31 then uint ?w + postRolloverUnixOffset else uint ?w - rfc868offset) = t"
    unfolding uint_Time_word unfolding postRolloverUnixOffset_def rfc868offset_def
    using Time_window [OF assms] by simp
  with dec show ?thesis
    by simp
qed

lemma DecodeAddress_Serialize:
  "Address_Valid a = None \<Longrightarrow> DecodeAddress (Address_Serialize a) = Inr (AddressV a)"
  by (cases a) (simp add: DecodeAddress_def Address_Serialize_def Let_def)

lemma Decode_Serialize: "dt_wf d \<Longrightarrow> Decode (dt_Type d) (dt_Serialize d) = Inr d"
  by (cases d) (simp_all add: decoder_defs(1,3-16,18-20) DecodeTime_Serialize DecodeAddress_Serialize
      length_IP_Serialize)

lemma DecodeTime_exact:
  assumes "length b = 4"
  shows "\<exists>t. DecodeTime b = Inr (Time t) \<and> Time_Serialize t = b \<and> dt_wf (Time t)"
proof -
  let ?w = "Uint32 b"
  have top: "drop_bit 7 (b ! 0) = 0 \<longleftrightarrow> uint ?w < 2 ^ 31"
  proof -
    have "b ! 0 = ucast (drop_bit 24 ?w)"
      using Put_Uint32 [OF assms] by (metis PutUint32_def nth_Cons_0)
    then show ?thesis
      by (simp only: top_bit_32)
  qed
  have range: "0 \<le> uint ?w" "uint ?w < 4294967296"
    using uint_lt2p [of ?w] by simp_all
  have ser: "Time_Serialize (uint ?w + k) = b" if "(k + rfc868offset) mod 4294967296 = 0" for k
  proof -
    have "uint (word_of_int (uint ?w + k) + word_of_int rfc868offset :: u32) = uint ?w"
      unfolding uint_Time_word using that range
      by (metis (no_types, lifting) add.assoc add.right_neutral mod_add_right_eq mod_pos_pos_trivial rfc868offset_def)
    then have "word_of_int (uint ?w + k) + word_of_int rfc868offset = ?w"
      by (rule word_uint_eqI)
    then show ?thesis
      unfolding Time_Serialize_def by (simp only: Put_Uint32 [OF assms])
  qed
  show ?thesis
  proof (cases "uint ?w < 2 ^ 31")
    case True
    then show ?thesis
      using assms range ser [of postRolloverUnixOffset] top
      by (simp add: DecodeTime_def postRolloverUnixOffset_def rfc868offset_def)
  next
    case False
    then show ?thesis
      using assms range ser [of "- rfc868offset"] top
      by (simp add: DecodeTime_def rfc868offset_def)
  qed
qed

lemma DecodeAddress_exact:
  "DecodeAddress b = Inr d \<Longrightarrow> dt_Serialize d = b \<and> dt_wf d \<and> dt_Type d = AddressType"
  using Put_Uint16 [of "take 2 b"]
  by (auto simp: DecodeAddress_def Address_Serialize_def Let_def split: if_splits option.splits)

text \<open>
  A decoded value whose \<open>Len\<close> is the size of its payload serialises to exactly that payload, has
  the requested type and is well formed.
\<close>

lemma Serialize_Decode:
  assumes "Decode T b = Inr d" "dt_Len d = length b"
  shows "dt_Serialize d = b \<and> dt_wf d \<and> dt_Type d = T"
proof (cases "T = AddressType \<or> T = TimeType")
  case True
  then show ?thesis
    using assms DecodeAddress_exact [of b d] DecodeTime_exact [of b]
    by (auto simp: DecodeTime_def split: if_splits)
next
  case False
  then show ?thesis
    using assms by (cases T)
      (auto simp: decoder_defs(1,3-16,18-20) length_IP_Serialize Put_Uint32 Put_Uint64 split: if_splits)
qed

lemma pad4_diff: "pad4 n - n < 4" "n + (pad4 n - n) = pad4 n"
  using pad4_ge [of n] pad4_lt [of n] by simp_all

lemma dt_Padding_lt: "dt_Padding d < 4"
  by (cases d) (simp_all add: pad4_diff)

lemma dt_Len_Padding: "\<forall>b. d \<noteq> Grouped b \<Longrightarrow> 4 dvd dt_Len d + dt_Padding d"
  by (cases d) (simp_all only: dt_Len.simps dt_Padding.simps pad4_diff pad4_dvd, simp_all)

interpretation data_codec: codec dt_Serialize "Decode T" "\<lambda>d. dt_wf d \<and> dt_Type d = T" for T
  by unfold_locales (auto simp: Decode_Serialize)

text \<open>C24. A value is well formed, of type \<open>T\<close> and serialises to \<open>b\<close> exactly when decoding \<open>b\<close> as \<open>T\<close>
  gives that value and its \<open>Len\<close> is the size of \<open>b\<close> (the check the AVP decoder makes): for all
  nineteen data types serialising and decoding are inverse to each other.\<close>

theorem data_codec_exact:
  "dt_wf d \<and> dt_Type d = T \<and> dt_Serialize d = b \<longleftrightarrow> Decode T b = Inr d \<and> dt_Len d = length b"
  using Decode_Serialize [of d] length_dt_Serialize [of d] Serialize_Decode [of T b d] by auto

end
