(* ===== verification/Identity.thy ===== *)
theory Identity
  imports Datatypes
begin

text \<open>
  The textual checks of \<open>src/diam/datatype/diamident.go\<close> and \<open>diamuri.go\<close>: the label scanner
  behind \<open>DiameterIdentity.Valid\<close> and the URI splitter \<open>DiameterURI.Parse\<close>. Go strings are byte
  strings. The scanner is compared with the label grammar it stands for, and \<open>Parse\<close> with the
  printer of the same grammar.
\<close>

section \<open>Byte strings\<close>

definition str :: "string \<Rightarrow> bytes" where
  "str s = map of_char s"

definition letter :: "byte \<Rightarrow> bool" where
  "letter c \<longleftrightarrow> c \<ge> 97 \<and> c \<le> 122 \<or> c \<ge> 65 \<and> c \<le> 90"

definition digit :: "byte \<Rightarrow> bool" where
  "digit c \<longleftrightarrow> c \<ge> 48 \<and> c \<le> 57"

definition toLower :: "byte \<Rightarrow> byte" where
  "toLower c = (if c \<ge> 65 \<and> c \<le> 90 then c + 32 else c)"

text \<open>\<open>strings.EqualFold\<close> where one side is ASCII of the other side's length: no multi-byte rune
  takes part, since the rune counts would differ.\<close>

definition EqualFold :: "bytes \<Rightarrow> bytes \<Rightarrow> bool" where
  "EqualFold s t \<longleftrightarrow> map toLower s = map toLower t"

fun HasPrefix :: "bytes \<Rightarrow> bytes \<Rightarrow> bool" where
  "HasPrefix s [] = True"
| "HasPrefix [] (p # ps) = False"
| "HasPrefix (c # cs) (p # ps) = (c = p \<and> HasPrefix cs ps)"

fun Index :: "bytes \<Rightarrow> bytes \<Rightarrow> nat option" where
  "Index [] sep = (if sep = [] then Some 0 else None)"
| "Index (c # cs) sep = (if HasPrefix (c # cs) sep then Some 0 else map_option Suc (Index cs sep))"

fun LastIndexByte :: "bytes \<Rightarrow> byte \<Rightarrow> nat option" where
  "LastIndexByte [] c = None"
| "LastIndexByte (x # xs) c =
     (case LastIndexByte xs c of Some i \<Rightarrow> Some (Suc i) | None \<Rightarrow> if x = c then Some 0 else None)"

text \<open>\<open>strconv.ParseUint(s, 10, 16)\<close>.\<close>

definition ParseUint16 :: "bytes \<Rightarrow> nat option" where
  "ParseUint16 s =
     (if s = [] \<or> \<not> list_all digit s then None
      else let n = foldl (\<lambda>n c. 10 * n + (unat c - 48)) 0 s in if n < 65536 then Some n else None)"

section \<open>DiameterIdentity.Valid\<close>

fun Valid_loop :: "byte \<Rightarrow> nat \<Rightarrow> bytes \<Rightarrow> nat option" where
  "Valid_loop prev label [] = Some label"
| "Valid_loop prev label (c # cs) =
     (if c = 46 then (if label = 0 \<or> prev = 45 then None else Valid_loop c 0 cs)
      else if \<not> letter c \<and> \<not> digit c \<and> (c \<noteq> 45 \<or> label = 0) then None
      else if label + 1 > 63 then None
      else Valid_loop c (label + 1) cs)"

definition DiameterIdentity_Valid :: "bytes \<Rightarrow> bool" where
  "DiameterIdentity_Valid s =
     (let name = (if length s > 0 \<and> last s = 46 then butlast s else s)
      in if length name = 0 \<or> length name > 253 then False
         else case Valid_loop 0 0 name of
             None \<Rightarrow> False
           | Some label \<Rightarrow> label > 0 \<and> last name \<noteq> 45)"

text \<open>The grammar: dot-separated labels of 1 to 63 letters, digits and interior hyphens.\<close>

fun splitDots :: "bytes \<Rightarrow> bytes \<Rightarrow> bytes list" where
  "splitDots p [] = [p]"
| "splitDots p (c # cs) = (if c = 46 then p # splitDots [] cs else splitDots (p @ [c]) cs)"

definition labelChar :: "byte \<Rightarrow> bool" where
  "labelChar c \<longleftrightarrow> letter c \<or> digit c \<or> c = 45"

definition validLabel :: "bytes \<Rightarrow> bool" where
  "validLabel l \<longleftrightarrow> l \<noteq> [] \<and> length l \<le> 63 \<and> list_all labelChar l \<and> hd l \<noteq> 45 \<and> last l \<noteq> 45"

text \<open>A label read so far: it can still become a valid one.\<close>

definition openLabel :: "bytes \<Rightarrow> bool" where
  "openLabel p \<longleftrightarrow> length p \<le> 63 \<and> list_all labelChar p \<and> (p \<noteq> [] \<longrightarrow> hd p \<noteq> 45)"

section \<open>DiameterURI.Parse\<close>

record ParsedDiameterURI =
  Secure :: bool
  FQDN :: bytes
  Port :: nat
  Transport :: bytes
  Protocol :: bytes

datatype uri_error = InvalidScheme | MissingFQDN | EmptyPort | InvalidPort

definition Parse_scheme :: "bytes \<Rightarrow> (bool \<times> nat \<times> bytes) option" where
  "Parse_scheme raw =
     (if length raw > 7 \<and> EqualFold (take 7 raw) (str ''aaas://'') then Some (True, 5868, drop 7 raw)
      else if length raw > 6 \<and> EqualFold (take 6 raw) (str ''aaa://'') then Some (False, 3868, drop 6 raw)
      else None)"

text \<open>Splits off the text after the first occurrence of a parameter name.\<close>

definition Parse_param :: "bytes \<Rightarrow> bytes \<Rightarrow> bytes \<Rightarrow> bytes \<times> bytes" where
  "Parse_param sep dflt raw =
     (case Index raw sep of
        Some i \<Rightarrow> (drop (i + length sep) raw, take i raw)
      | None \<Rightarrow> (dflt, raw))"

definition Parse_host :: "nat \<Rightarrow> bytes \<Rightarrow> uri_error + (bytes \<times> nat)" where
  "Parse_host dflt raw =
     (if raw = [] then Inl MissingFQDN
      else
        let r = (if hd raw = 91 then
                   (case Index raw [93] of
                      Some e \<Rightarrow> Inr (drop 1 (take e raw), dflt, drop (e + 1) raw)
                    | None \<Rightarrow> Inr ([], dflt, raw))
                 else case LastIndexByte raw 58 of
                      Some i \<Rightarrow>
                        (let portStr = drop (i + 1) raw
                         in if portStr = [] then Inl EmptyPort
                            else case ParseUint16 portStr of
                                None \<Rightarrow> Inl InvalidPort
                              | Some port \<Rightarrow> Inr (take i raw, port, []))
                    | None \<Rightarrow> Inr ([], dflt, raw))
        in case r of
            Inl e \<Rightarrow> Inl e
          | Inr (fqdn, port, rest) \<Rightarrow>
              (let host = (if fqdn = [] then rest else fqdn)
               in if host = [] then Inl MissingFQDN else Inr (host, port)))"

definition DiameterURI_Parse :: "bytes \<Rightarrow> uri_error + ParsedDiameterURI" where
  "DiameterURI_Parse s =
     (case Parse_scheme s of
        None \<Rightarrow> Inl InvalidScheme
      | Some (secure, dflt, raw) \<Rightarrow>
          (let (protocol, raw) = Parse_param (str '';protocol='') (str ''diameter'') raw;
               (transport, raw) = Parse_param (str '';transport='') (str ''tcp'') raw
           in case Parse_host dflt raw of
               Inl e \<Rightarrow> Inl e
             | Inr (host, port) \<Rightarrow> Inr \<lparr>Secure = secure, FQDN = host, Port = port,
                 Transport = transport, Protocol = protocol\<rparr>))"

text \<open>The printed form of a parsed URI, with every optional part present.\<close>

fun showDigits :: "nat \<Rightarrow> bytes" where
  "showDigits n = (if n < 10 then [of_nat (48 + n)] else showDigits (n div 10) @ [of_nat (48 + n mod 10)])"

definition URI_print :: "ParsedDiameterURI \<Rightarrow> bytes" where
  "URI_print u = (if Secure u then str ''aaas://'' else str ''aaa://'') @ FQDN u @ str '':'' @
     showDigits (Port u) @ str '';transport='' @ Transport u @ str '';protocol='' @ Protocol u"

text \<open>URIs whose printed form is unambiguous: the host is no bracketed literal, and neither the host
  nor the transport contains a semicolon.\<close>

definition URI_ok :: "ParsedDiameterURI \<Rightarrow> bool" where
  "URI_ok u \<longleftrightarrow> FQDN u \<noteq> [] \<and> hd (FQDN u) \<noteq> 91 \<and> 59 \<notin> set (FQDN u) \<and>
     59 \<notin> set (Transport u) \<and> Port u < 65536"

declare showDigits.simps [simp del]

section \<open>The scanner and the grammar\<close>

lemma Valid_loop_char:
  "c \<noteq> 46 \<Longrightarrow> Valid_loop prev l (c # cs) =
     (if labelChar c \<and> l < 63 \<and> \<not> (l = 0 \<and> c = 45) then Valid_loop c (Suc l) cs else None)"
  by (auto simp: labelChar_def letter_def digit_def)

lemma labelChar_dot: "\<not> labelChar 46"
  by (simp add: labelChar_def letter_def digit_def)

lemma splitDots_hd: "\<exists>q qs. splitDots p cs = (p @ q) # qs"
proof (induction cs arbitrary: p)
  case Nil
  then show ?case by simp
next
  case (Cons c cs)
  then show ?case
    using Cons.IH [of "p @ [c]"] by auto
qed

lemma splitDots_bad:
  assumes "\<not> labelChar c \<and> c \<noteq> 46 \<or> 63 < length (p @ [c]) \<or> p = [] \<and> c = 45"
  shows "\<not> list_all validLabel (splitDots (p @ [c]) cs)"
proof -
  obtain q qs where "splitDots (p @ [c]) cs = (p @ [c] @ q) # qs"
    using splitDots_hd [of "p @ [c]" cs] by auto
  with assms show ?thesis
    by (auto simp: validLabel_def)
qed

lemma Valid_loop_split:
  assumes "openLabel p" "p \<noteq> [] \<longrightarrow> prev = last p"
  shows "(case Valid_loop prev (length p) cs of None \<Rightarrow> False | Some l \<Rightarrow> l > 0 \<and> last (prev # cs) \<noteq> 45)
    \<longleftrightarrow> list_all validLabel (splitDots p cs)"
  using assms
proof (induction cs arbitrary: p prev)
  case Nil
  then show ?case
    by (auto simp: openLabel_def validLabel_def)
next
  case (Cons c cs)
  show ?case
  proof (cases "c = 46")
    case True
    then show ?thesis
      using Cons.IH [of "[]" c] Cons.prems by (auto simp: openLabel_def validLabel_def split: option.splits)
  next
    case False
    show ?thesis
    proof (cases "labelChar c \<and> length p < 63 \<and> \<not> (p = [] \<and> c = 45)")
      case True
      then have "openLabel (p @ [c])"
        using Cons.prems by (cases p) (auto simp: openLabel_def)
      then have "(case Valid_loop c (Suc (length p)) cs of None \<Rightarrow> False
          | Some l \<Rightarrow> l > 0 \<and> last (prev # c # cs) \<noteq> 45) \<longleftrightarrow> list_all validLabel (splitDots (p @ [c]) cs)"
        using Cons.IH [of "p @ [c]" c] by (simp cong: option.case_cong)
      then show ?thesis
        using True False by (simp add: Valid_loop_char del: Valid_loop.simps)
    next
      case bad: False
      then have "\<not> list_all validLabel (splitDots (p @ [c]) cs)"
        using False by (intro splitDots_bad) auto
      then show ?thesis
        using bad False by (auto simp add: Valid_loop_char simp del: Valid_loop.simps)
    qed
  qed
qed

text \<open>C26. \<open>DiameterIdentity.Valid\<close> accepts exactly the names of the label grammar: after an
  optional final dot is removed, 1 to 253 octets that split at the dots into labels of 1 to 63
  letters, digits and interior hyphens.\<close>

theorem Valid_iff_labels:
  "DiameterIdentity_Valid s \<longleftrightarrow>
     (let name = (if s \<noteq> [] \<and> last s = 46 then butlast s else s)
      in name \<noteq> [] \<and> length name \<le> 253 \<and> list_all validLabel (splitDots [] name))"
proof -
  have "(case Valid_loop 0 0 name of None \<Rightarrow> False | Some l \<Rightarrow> l > 0 \<and> last name \<noteq> 45) \<longleftrightarrow>
      list_all validLabel (splitDots [] name)" if "name \<noteq> []" for name
    using Valid_loop_split [of "[]" 0 name] that by (simp add: openLabel_def split: option.splits)
  then show ?thesis
    by (auto simp: DiameterIdentity_Valid_def Let_def not_less)
qed

section \<open>Printing and parsing URIs\<close>

lemma HasPrefix_append [simp]: "HasPrefix (p @ r) p"
  by (induction p) simp_all

lemma Index_first: "x \<notin> set p \<Longrightarrow> Index (p @ (x # xs) @ r) (x # xs) = Some (length p)"
  by (induction p) (auto simp del: HasPrefix.simps simp: HasPrefix.simps(3))

lemma LastIndexByte_None: "c \<notin> set q \<Longrightarrow> LastIndexByte q c = None"
  by (induction q) auto

lemma LastIndexByte_last: "c \<notin> set q \<Longrightarrow> LastIndexByte (p @ c # q) c = Some (length p)"
  by (induction p) (auto simp: LastIndexByte_None)

lemma unat_digit: "d < 10 \<Longrightarrow> unat (of_nat (48 + d) :: byte) = 48 + d"
  by (simp only: unsigned_of_nat take_bit_nat_eq_self) (simp add: take_bit_nat_eq_self)

lemma digit_of_nat: "d < 10 \<Longrightarrow> digit (of_nat (48 + d))"
  using unat_digit [of d] by (simp only: digit_def word_le_nat_alt) simp

lemmas digit_simps = unat_digit digit_of_nat

lemma showDigits_digits: "list_all digit (showDigits n) \<and> showDigits n \<noteq> []"
proof (induction n rule: showDigits.induct)
  case (1 n)
  then show ?case
    by (subst (1 2) showDigits.simps) (simp add: digit_simps del: of_nat_add)
qed

lemma showDigits_value: "foldl (\<lambda>n c. 10 * n + (unat c - 48)) 0 (showDigits n) = n"
proof (induction n rule: showDigits.induct)
  case (1 n)
  then show ?case
    by (subst showDigits.simps) (simp add: digit_simps del: of_nat_add)
qed

lemma ParseUint16_showDigits: "n < 65536 \<Longrightarrow> ParseUint16 (showDigits n) = Some n"
  using showDigits_digits [of n]
  by (simp add: ParseUint16_def showDigits_value Let_def)

lemma str_literals:
  "str ''aaa://'' = [97, 97, 97, 58, 47, 47]" "str ''aaas://'' = [97, 97, 97, 115, 58, 47, 47]"
  "str '':'' = [58]"
  "str '';transport='' = [59, 116, 114, 97, 110, 115, 112, 111, 114, 116, 61]"
  "str '';protocol='' = [59, 112, 114, 111, 116, 111, 99, 111, 108, 61]"
  "str ''tcp'' = [116, 99, 112]" "str ''diameter'' = [100, 105, 97, 109, 101, 116, 101, 114]"
  by (simp_all add: str_def)

lemma showDigits_plain: "58 \<notin> set (showDigits n)" "59 \<notin> set (showDigits n)"
  using showDigits_digits [of n] by (auto simp: list_all_iff digit_def)

lemma Parse_host_print:
  assumes "h \<noteq> []" "hd h \<noteq> 91" "n < 65536"
  shows "Parse_host dflt (h @ 58 # showDigits n) = Inr (h, n)"
  using assms LastIndexByte_last [OF showDigits_plain(1), of h n] showDigits_digits [of n]
  by (simp add: Parse_host_def ParseUint16_showDigits Let_def hd_append)

lemma Index_skip: "x \<notin> set p \<Longrightarrow> Index (p @ s) (x # xs) = map_option ((+) (length p)) (Index s (x # xs))"
  by (induction p) (auto simp: option.map_comp comp_def option.map_ident plus_nat.add_0 [abs_def] intro!: option.map_cong)

lemma Index_protocol:
  assumes "59 \<notin> set h" "59 \<notin> set t"
  shows "Index (h @ str '';transport='' @ t @ str '';protocol='' @ r) (str '';protocol='') =
    Some (length (h @ str '';transport='' @ t))"
proof -
  have "Index (str '';transport='' @ t @ str '';protocol='' @ r) (str '';protocol='') = Some (11 + length t)"
    using Index_first [of 59 "tl (str '';transport='') @ t" "tl (str '';protocol='')" r] assms(2)
    by (simp add: str_literals)
  then show ?thesis
    using Index_skip [of 59 h _ "tl (str '';protocol='')"] assms(1) by (simp add: str_literals)
qed

lemma Parse_scheme_print:
  "r \<noteq> [] \<Longrightarrow> Parse_scheme ((if b then str ''aaas://'' else str ''aaa://'') @ r) =
     Some (b, if b then 5868 else 3868, r)"
  by (auto simp: Parse_scheme_def EqualFold_def str_literals toLower_def)

lemma Parse_param_at: "Index (p @ sep @ r) sep = Some (length p) \<Longrightarrow> Parse_param sep d (p @ sep @ r) = (r, p)"
  by (simp add: Parse_param_def)

lemma Parse_URI_print:
  assumes "URI_ok u"
  shows "DiameterURI_Parse (URI_print u) = Inr u"
proof -
  let ?h = "FQDN u @ 58 # showDigits (Port u)"
  have h: "59 \<notin> set ?h"
    using assms showDigits_plain by (simp add: URI_ok_def)
  have t: "59 \<notin> set (Transport u)"
    using assms by (simp add: URI_ok_def)
  have protocol: "Parse_param (str '';protocol='') d
      (?h @ str '';transport='' @ Transport u @ str '';protocol='' @ Protocol u) =
      (Protocol u, ?h @ str '';transport='' @ Transport u)" for d
    using Parse_param_at [of "?h @ str '';transport='' @ Transport u" "str '';protocol=''" "Protocol u"]
      Index_protocol [OF h t] by simp
  have transport: "Parse_param (str '';transport='') d (?h @ str '';transport='' @ Transport u) =
      (Transport u, ?h)" for d
    using Index_first [OF h, of "tl (str '';transport='')" "Transport u"]
    by (intro Parse_param_at) (simp add: str_literals)
  have host: "Parse_host d ?h = Inr (FQDN u, Port u)" for d
    using assms by (intro Parse_host_print) (simp_all add: URI_ok_def)
  have "Parse_scheme (URI_print u) = Some (Secure u, if Secure u then 5868 else 3868,
      ?h @ str '';transport='' @ Transport u @ str '';protocol='' @ Protocol u)"
    unfolding URI_print_def using Parse_scheme_print
      [of "?h @ str '';transport='' @ Transport u @ str '';protocol='' @ Protocol u" "Secure u"]
    by (simp add: str_literals(3))
  then show ?thesis
    by (simp only: DiameterURI_Parse_def option.case prod.case protocol transport host Let_def sum.case) simp
qed

interpretation uri: codec URI_print DiameterURI_Parse URI_ok
  by unfold_locales (rule Parse_URI_print)

definition sampleURI :: ParsedDiameterURI where
  "sampleURI = \<lparr>Secure = False, FQDN = str ''h.example'', Port = 3869, Transport = str ''sctp'', Protocol = str ''diameter''\<rparr>"

text \<open>C27. Parsing the printed form of a URI gives the URI back, and two URIs with the same printed
  form are equal, for every host without a semicolon or a leading bracket, every 16-bit port and
  every transport without a semicolon.\<close>

theorem URI_roundtrip:
  assumes "URI_ok u" "URI_ok v"
  shows "DiameterURI_Parse (URI_print u) = Inr u \<and> (URI_print u = URI_print v \<longleftrightarrow> u = v)"
  using assms by (simp_all add: uri.dec_enc uri.enc_inject)

theorem URI_roundtrip_witness:
  "DiameterURI_Parse (URI_print sampleURI) = Inr sampleURI"
proof -
  have "URI_ok sampleURI"
    by (simp add: URI_ok_def sampleURI_def str_def)
  then show ?thesis
    using URI_roundtrip [of sampleURI sampleURI] by blast
qed

text \<open>C40. A bracketed IPv6 literal loses its port: whatever follows the closing bracket is dropped
  without being parsed, and the scheme's default port is kept.\<close>

theorem Parse_bracket_port:
  assumes "93 \<notin> set h" "h \<noteq> []"
  shows "Parse_host dflt (91 # h @ 93 # rest) = Inr (h, dflt)"
proof -
  have "Index (91 # h @ 93 # rest) [93] = Some (Suc (length h))"
    using assms(1) Index_first [of 93 "91 # h" "[]" rest] by simp
  then show ?thesis
    using assms(2) by (simp add: Parse_host_def Let_def)
qed

theorem Parse_bracket_port_witness:
  "Parse_host 3868 (str ''[::1]:3000'') = Inr (str ''::1'', 3868)"
  using Parse_bracket_port [of "str ''::1''" 3868 "str '':3000''"] by (simp add: str_def)

end
