(* ===== verification/Header.thy ===== *)
theory Header
  imports Identity
begin

text \<open>
  The Diameter header of \<open>src/diam/header.go\<close>: the 20-byte structure, its decoder with the version
  and length checks of RFC 6733 section 3, and its serialiser, which writes into a caller's buffer.
  The lemmas give the round trip in both directions and the exact conditions of each error.
\<close>

section \<open>Definitions\<close>

record Header =
  Version :: byte
  MessageLength :: u32
  CommandFlags :: byte
  CommandCode :: u32
  ApplicationID :: u32
  HopByHopID :: u32
  EndToEndID :: u32

abbreviation HeaderLength :: nat where "HeaderLength \<equiv> 20"

definition MaxMessageLength :: nat where "MaxMessageLength = 2 ^ 24 - 1"

definition RequestFlag :: byte where "RequestFlag = 128"
definition ProxiableFlag :: byte where "ProxiableFlag = 64"
definition ErrorFlag :: byte where "ErrorFlag = 32"
definition RetransmittedFlag :: byte where "RetransmittedFlag = 16"

lemmas flag_defs = RequestFlag_def ProxiableFlag_def ErrorFlag_def RetransmittedFlag_def

definition UnsupportedVersion :: u32 where "UnsupportedVersion = 5011"
definition InvalidMessageLength :: u32 where "InvalidMessageLength = 5015"

datatype header_error =
    HeaderNotEnoughData
  | HeaderMessageError u32 \<comment> \<open>a fatal \<open>MessageError\<close> with this Result-Code\<close>

definition zeroHeader :: Header where
  "zeroHeader = \<lparr>Version = 0, MessageLength = 0, CommandFlags = 0, CommandCode = 0,
     ApplicationID = 0, HopByHopID = 0, EndToEndID = 0\<rparr>"

text \<open>The receiver is updated even when a check fails afterwards, so the new header is returned
  beside the error.\<close>

definition Header_DecodeFromBytes :: "Header \<Rightarrow> bytes \<Rightarrow> Header \<times> header_error option" where
  "Header_DecodeFromBytes h data =
     (if length data < HeaderLength then (h, Some HeaderNotEnoughData)
      else let h = \<lparr>Version = data ! 0,
                    MessageLength = uint24to32 (take 3 (drop 1 data)),
                    CommandFlags = data ! 4,
                    CommandCode = uint24to32 (take 3 (drop 5 data)),
                    ApplicationID = Uint32 (take 4 (drop 8 data)),
                    HopByHopID = Uint32 (take 4 (drop 12 data)),
                    EndToEndID = Uint32 (take 4 (drop 16 data))\<rparr>
           in (h, if Version h \<noteq> 1 then Some (HeaderMessageError UnsupportedVersion)
                  else if unat (MessageLength h) < HeaderLength then Some (HeaderMessageError InvalidMessageLength)
                  else if unat (MessageLength h) mod 4 \<noteq> 0 then Some (HeaderMessageError InvalidMessageLength)
                  else None))"

definition DecodeHeader :: "bytes \<Rightarrow> header_error + Header" where
  "DecodeHeader data =
     (case Header_DecodeFromBytes zeroHeader data of
        (p, Some e) \<Rightarrow> Inl e
      | (p, None) \<Rightarrow> Inr p)"

text \<open>The 20 bytes \<open>SerializeTo\<close> stores, in the order it stores them.\<close>

definition headerBytes :: "Header \<Rightarrow> bytes" where
  "headerBytes h = [Version h] @ uint32to24 (MessageLength h) @ [CommandFlags h] @
     uint32to24 (CommandCode h) @ PutUint32 (ApplicationID h) @ PutUint32 (HopByHopID h) @
     PutUint32 (EndToEndID h)"

text \<open>\<open>SerializeTo\<close> overwrites the front of the buffer; a buffer that is too small panics
  (\<open>None\<close>).\<close>

definition Header_SerializeTo :: "Header \<Rightarrow> bytes \<Rightarrow> bytes option" where
  "Header_SerializeTo h b =
     (if length b < HeaderLength then None else Some (headerBytes h @ drop HeaderLength b))"

definition Header_Serialize :: "Header \<Rightarrow> bytes option" where
  "Header_Serialize h = Header_SerializeTo h (replicate HeaderLength 0)"

text \<open>The headers a decoder accepts.\<close>

definition Header_ok :: "Header \<Rightarrow> bool" where
  "Header_ok h \<longleftrightarrow> Version h = 1 \<and> HeaderLength \<le> unat (MessageLength h) \<and>
     unat (MessageLength h) \<le> MaxMessageLength \<and> unat (MessageLength h) mod 4 = 0 \<and>
     unat (CommandCode h) < 2 ^ 24"

section \<open>Properties\<close>

lemma length_headerBytes [simp, len_simps]: "length (headerBytes h) = HeaderLength"
  by (simp add: headerBytes_def)

lemma headerBytes_nth: "headerBytes h ! 0 = Version h" "headerBytes h ! 4 = CommandFlags h"
  by (simp_all add: headerBytes_def uint32to24_def)

lemma headerBytes_slices:
  "take 3 (drop (Suc 0) (headerBytes h)) = uint32to24 (MessageLength h)"
  "take 3 (drop 5 (headerBytes h)) = uint32to24 (CommandCode h)"
  "take 4 (drop 8 (headerBytes h)) = PutUint32 (ApplicationID h)"
  "take 4 (drop 12 (headerBytes h)) = PutUint32 (HopByHopID h)"
  "drop 16 (headerBytes h) = PutUint32 (EndToEndID h)"
  by (simp_all add: headerBytes_def uint32to24_def PutUint32_def)

lemma DecodeHeader_headerBytes: "Header_ok h \<Longrightarrow> DecodeHeader (headerBytes h @ r) = Inr h"
  by (simp add: DecodeHeader_def Header_DecodeFromBytes_def headerBytes_slices nth_append headerBytes_nth
      uint24_roundtrip_small Header_ok_def MaxMessageLength_def Let_def)

interpretation header: framed_codec headerBytes DecodeHeader Header_ok "\<lambda>_. HeaderLength"
  by unfold_locales (simp_all add: DecodeHeader_headerBytes)

lemma Header_DecodeFromBytes_exact:
  assumes "20 \<le> length b"
  shows "headerBytes (fst (Header_DecodeFromBytes h b)) = take 20 b"
proof -
  have split: "take 20 b = [b ! 0] @ take 3 (drop 1 b) @ [b ! 4] @ take 3 (drop 5 b) @
      take 4 (drop 8 b) @ take 4 (drop 12 b) @ take 4 (drop 16 b)"
  proof (rule nth_equalityI)
    fix i
    assume "i < length (take 20 b)"
    then have "i < 20" by simp
    then have "i \<in> {0..<20}" by simp
    then show "take 20 b ! i = ([b ! 0] @ take 3 (drop 1 b) @ [b ! 4] @ take 3 (drop 5 b) @
      take 4 (drop 8 b) @ take 4 (drop 12 b) @ take 4 (drop 16 b)) ! i"
      using assms by (cases "i = 4") (auto simp: nth_append nth_Cons')
  qed (use assms in simp)
  show ?thesis
    unfolding split using assms
    by (simp add: headerBytes_def Header_DecodeFromBytes_def Let_def Put_uint24 Put_Uint32)
qed

text \<open>The decoder's verdict on every input.\<close>

lemma DecodeHeader_ok: "DecodeHeader b = Inr h \<longleftrightarrow> Header_ok h \<and> 20 \<le> length b \<and> take 20 b = headerBytes h"
proof
  assume *: "DecodeHeader b = Inr h"
  then have len: "20 \<le> length b"
    by (auto simp: DecodeHeader_def Header_DecodeFromBytes_def split: if_splits)
  moreover have "fst (Header_DecodeFromBytes zeroHeader b) = h"
    using * by (auto simp: DecodeHeader_def split: prod.splits option.splits)
  moreover have "Header_ok h"
    using * len uint24_bound [of "take 3 (drop 1 b)"] uint24_bound [of "take 3 (drop 5 b)"]
    by (auto simp: DecodeHeader_def Header_DecodeFromBytes_def Header_ok_def MaxMessageLength_def Let_def
        mod_eq_0_iff_dvd split: if_splits)
  ultimately show "Header_ok h \<and> 20 \<le> length b \<and> take 20 b = headerBytes h"
    using Header_DecodeFromBytes_exact [of b zeroHeader] by simp
next
  assume *: "Header_ok h \<and> 20 \<le> length b \<and> take 20 b = headerBytes h"
  then show "DecodeHeader b = Inr h"
    using DecodeHeader_headerBytes [of h "drop 20 b"] by (metis append_take_drop_id)
qed

text \<open>C25. The header decoder accepts exactly the version-1 headers whose length is a multiple of four
  between 20 and the 24-bit maximum, and the accepted header serialises to the 20 bytes it was read
  from.\<close>

theorem DecodeHeader_exact:
  "DecodeHeader b = Inr h \<longleftrightarrow> Header_ok h \<and> 20 \<le> length b \<and> Header_Serialize h = Some (take 20 b)"
  by (auto simp: DecodeHeader_ok Header_Serialize_def Header_SerializeTo_def)

end
