(* ===== verification/Dictionary.thy ===== *)
theory Dictionary
  imports Header "HOL-Library.AList"
begin

text \<open>
  The dictionary of \<open>src/diam/dict\<close>: the definitions a dictionary file holds (\<open>skel.go\<close>), the
  immutable \<open>Snapshot\<close> with its indexes (\<open>snapshot.go\<close>), the flag rules and name checks of
  \<open>register.go\<close> and the lookups of \<open>util.go\<close>. An index is an association list, so it can be walked
  the way the code ranges over its maps; \<open>map_of\<close> is the map lookup. Dictionary texts are ASCII.
  A snapshot is a value here; the parser that fills it from XML files is not part of the model.
\<close>

section \<open>Definitions of a dictionary file\<close>

record Rule =
  ruleMustNot :: string
  ruleAVP :: string
  ruleRequired :: bool
  ruleMin :: int
  ruleMax :: int
  ruleMaxSet :: bool
  ruleFixed :: bool

record Enum =
  enumCode :: u32
  enumName :: string

record Data =
  dataType :: TypeID
  dataTypeName :: string
  dataEnum :: "Enum list"
  dataRule :: "Rule list"

record dictAVP =
  avpName :: string
  avpCode :: u32
  avpMust :: string
  avpMay :: string
  avpMustNot :: string
  avpMayEncrypt :: string
  avpVendorID :: u32
  avpData :: Data

record CommandRule =
  Proxiable :: "bool option"
  cmdRules :: "Rule list"

record Command =
  cmdCode :: u32
  cmdName :: string
  cmdShort :: string
  cmdRequest :: CommandRule
  cmdAnswer :: CommandRule

record Vendor =
  vendorID :: u32
  vendorName :: string

record App =
  appInherits :: "u32 list"
  appID :: u32
  appType :: string
  appName :: string
  appVendor :: "Vendor list"
  appCommand :: "Command list"
  appAVP :: "dictAVP list"

type_synonym codeIdx = "u32 \<times> u32 \<times> u32"
type_synonym appNameIdx = "u32 \<times> string"
type_synonym commandIdx = "u32 \<times> u32"
type_synonym appIdTypeIdx = "u32 \<times> string"

definition IsVendorSpecificApplication :: "u32 \<Rightarrow> bool" where
  "IsVendorSpecificApplication i \<longleftrightarrow> i \<ge> 16777216 \<and> i \<noteq> 0xffffffff"

definition ApplicationVendor :: "App \<Rightarrow> u32" where
  "ApplicationVendor app =
     (if IsVendorSpecificApplication (appID app) \<and> appVendor app \<noteq> [] then vendorID (hd (appVendor app))
      else 0)"

section \<open>Snapshots\<close>

record Snapshot =
  files :: "App list list"
  regs :: "(u32 \<times> dictAVP) list"
  parents :: "(u32 \<times> u32 list) list"
  appcode :: "(u32 \<times> App) list"
  apptype :: "(appIdTypeIdx \<times> App) list"
  command :: "(commandIdx \<times> Command) list"
  avpcode :: "(codeIdx \<times> dictAVP) list"
  avpname :: "(appNameIdx \<times> dictAVP) list"
  strict :: bool
  maxGroupedDepth :: nat

definition emptySnapshot :: Snapshot where
  "emptySnapshot = \<lparr>files = [], regs = [], parents = [], appcode = [], apptype = [], command = [],
     avpcode = [], avpname = [], strict = True, maxGroupedDepth = 0\<rparr>"

definition DefaultMaxGroupedDepth :: nat where "DefaultMaxGroupedDepth = 32"

definition MaxGroupedDepth :: "Snapshot \<Rightarrow> nat" where
  "MaxGroupedDepth s = (if maxGroupedDepth s > 0 then maxGroupedDepth s else DefaultMaxGroupedDepth)"

section \<open>Lookups\<close>

definition Apps :: "Snapshot \<Rightarrow> App list" where
  "Apps s = concat (files s)"

definition Snapshot_App :: "Snapshot \<Rightarrow> u32 \<Rightarrow> string option \<Rightarrow> App option" where
  "Snapshot_App s code typ =
     (case (case typ of Some t \<Rightarrow> map_of (apptype s) (code, t) | None \<Rightarrow> None) of
        Some app \<Rightarrow> Some app
      | None \<Rightarrow>
          (case map_of (appcode s) code of
             Some app \<Rightarrow>
               if appType app = [] \<or> typ = None \<or> typ = Some (appType app) then Some app else None
           | None \<Rightarrow> None))"

definition lookupAVP :: "Snapshot \<Rightarrow> u32 \<Rightarrow> u32 \<Rightarrow> u32 \<Rightarrow> dictAVP option" where
  "lookupAVP s appid code vendor =
     (case map_of (avpcode s) (appid, code, vendor) of
        Some a \<Rightarrow> Some a
      | None \<Rightarrow> map_of (avpcode s) (0, code, vendor))"

text \<open>\<open>Snapshot.AVP\<close> and \<open>FindAVP\<close> differ in the form of a miss only.\<close>

definition FindAVP :: "Snapshot \<Rightarrow> u32 \<Rightarrow> u32 \<Rightarrow> u32 \<Rightarrow> dictAVP option" where
  "FindAVP s appid code vendor = lookupAVP s appid code vendor"

definition FindAVPByName :: "Snapshot \<Rightarrow> u32 \<Rightarrow> string \<Rightarrow> dictAVP option" where
  "FindAVPByName s appid name =
     (let try = (\<lambda>app. case map_of (avpname s) (app, name) of
                    None \<Rightarrow> None
                  | Some a \<Rightarrow>
                      (case lookupAVP s appid (avpCode a) (avpVendorID a) of
                         None \<Rightarrow> None
                       | Some resolved \<Rightarrow> if avpName resolved = name then Some resolved else None))
      in case try appid of Some a \<Rightarrow> Some a | None \<Rightarrow> try 0)"

definition FindCommand :: "Snapshot \<Rightarrow> u32 \<Rightarrow> u32 \<Rightarrow> Command option" where
  "FindCommand s appid code =
     (case map_of (command s) (appid, code) of
        Some cmd \<Rightarrow> Some cmd
      | None \<Rightarrow> map_of (command s) (0, code))"

datatype lookup_error = LookupNotFound | WrongDataType

definition Snapshot_Enum :: "Snapshot \<Rightarrow> u32 \<Rightarrow> u32 \<Rightarrow> u32 \<Rightarrow> u32 \<Rightarrow> lookup_error + Enum" where
  "Snapshot_Enum s appid code vendor n =
     (case FindAVP s appid code vendor of
        None \<Rightarrow> Inl LookupNotFound
      | Some a \<Rightarrow>
          if dataType (avpData a) \<noteq> EnumeratedType then Inl WrongDataType
          else case find (\<lambda>item. enumCode item = n) (dataEnum (avpData a)) of
              Some item \<Rightarrow> Inr item
            | None \<Rightarrow> Inl LookupNotFound)"

definition Snapshot_Rule :: "Snapshot \<Rightarrow> u32 \<Rightarrow> u32 \<Rightarrow> u32 \<Rightarrow> string \<Rightarrow> lookup_error + Rule" where
  "Snapshot_Rule s appid code vendor n =
     (case FindAVP s appid code vendor of
        None \<Rightarrow> Inl LookupNotFound
      | Some a \<Rightarrow>
          if dataType (avpData a) \<noteq> GroupedType then Inl WrongDataType
          else case find (\<lambda>item. ruleAVP item = n) (dataRule (avpData a)) of
              Some item \<Rightarrow> Inr item
            | None \<Rightarrow> Inl LookupNotFound)"

section \<open>Flag rules and names\<close>

text \<open>\<open>strings.Split(rule, ",")\<close> and \<open>strings.TrimSpace\<close> on ASCII text.\<close>

fun splitComma :: "string \<Rightarrow> string \<Rightarrow> string list" where
  "splitComma p [] = [p]"
| "splitComma p (c # cs) = (if c = CHR '','' then p # splitComma [] cs else splitComma (p @ [c]) cs)"

definition isSpace :: "char \<Rightarrow> bool" where
  "isSpace c \<longleftrightarrow> of_char c \<in> {9, 10, 11, 12, 13, 32 :: nat}"

definition TrimSpace :: "string \<Rightarrow> string" where
  "TrimSpace s = rev (dropWhile isSpace (rev (dropWhile isSpace s)))"

text \<open>A set of the flags M, P and V as the code's bit set.\<close>

definition flagM :: nat where "flagM = 1"
definition flagP :: nat where "flagP = 2"
definition flagV :: nat where "flagV = 4"

fun parseFlagChars :: "nat \<Rightarrow> string \<Rightarrow> nat option" where
  "parseFlagChars flags [] = Some flags"
| "parseFlagChars flags (c # cs) =
     (if c = CHR ''M'' then parseFlagChars (flags OR flagM) cs
      else if c = CHR ''P'' then parseFlagChars (flags OR flagP) cs
      else if c = CHR ''V'' then parseFlagChars (flags OR flagV) cs
      else None)"

fun parseFlagItems :: "nat \<Rightarrow> string list \<Rightarrow> nat option" where
  "parseFlagItems flags [] = Some flags"
| "parseFlagItems flags (i # is) =
     (let item = TrimSpace i
      in if item = [] \<or> item = ''-'' then parseFlagItems flags is
         else case parseFlagChars flags item of
             None \<Rightarrow> None
           | Some f \<Rightarrow> parseFlagItems f is)"

definition parseFlags :: "string \<Rightarrow> nat option" where
  "parseFlags rule = parseFlagItems 0 (splitComma [] rule)"

definition parseMemberProhibitions :: "string \<Rightarrow> nat option" where
  "parseMemberProhibitions rule =
     (case parseFlags rule of
        None \<Rightarrow> None
      | Some flags \<Rightarrow> if flags AND flagV \<noteq> 0 then None else Some flags)"

definition isAlpha :: "char \<Rightarrow> bool" where
  "isAlpha c \<longleftrightarrow> 65 \<le> (of_char c :: nat) \<and> (of_char c :: nat) \<le> 90 \<or>
     97 \<le> (of_char c :: nat) \<and> (of_char c :: nat) \<le> 122"

definition isDiameterName :: "string \<Rightarrow> bool" where
  "isDiameterName name \<longleftrightarrow>
     list_all (\<lambda>(i, c). isAlpha c \<or> i > 0 \<and> (48 \<le> (of_char c :: nat) \<and> (of_char c :: nat) \<le> 57 \<or> c = CHR ''-''))
       (enumerate 0 name) \<and> name \<noteq> []"

definition sameFlags :: "string \<Rightarrow> string \<Rightarrow> bool" where
  "sameFlags a b =
     (case (parseFlags a, parseFlags b) of
        (Some fa, Some fb) \<Rightarrow> fa = fb
      | _ \<Rightarrow> a = b)"

definition sameRule :: "Rule \<Rightarrow> Rule \<Rightarrow> bool" where
  "sameRule a b =
     (let boundedA = ruleMaxSet a \<or> ruleMax a > 0; boundedB = ruleMaxSet b \<or> ruleMax b > 0
      in sameFlags (ruleMustNot a) (ruleMustNot b) \<and> ruleAVP a = ruleAVP b \<and>
         ruleRequired a = ruleRequired b \<and> ruleMin a = ruleMin b \<and> ruleFixed a = ruleFixed b \<and>
         boundedA = boundedB \<and> (\<not> boundedA \<or> ruleMax a = ruleMax b))"

definition sameAVP :: "dictAVP \<Rightarrow> dictAVP \<Rightarrow> bool" where
  "sameAVP a b \<longleftrightarrow>
     a = b \<or>
     avpName a = avpName b \<and> avpCode a = avpCode b \<and> avpVendorID a = avpVendorID b \<and>
     sameFlags (avpMust a) (avpMust b) \<and> sameFlags (avpMay a) (avpMay b) \<and>
     sameFlags (avpMustNot a) (avpMustNot b) \<and> avpMayEncrypt a = avpMayEncrypt b \<and>
     dataType (avpData a) = dataType (avpData b) \<and> dataTypeName (avpData a) = dataTypeName (avpData b) \<and>
     dataEnum (avpData a) = dataEnum (avpData b) \<and>
     list_all2 sameRule (dataRule (avpData a)) (dataRule (avpData b))"

section \<open>Properties\<close>

lemma MaxGroupedDepth_pos: "0 < MaxGroupedDepth s"
  by (simp add: MaxGroupedDepth_def DefaultMaxGroupedDepth_def)

lemma sameFlags_equiv: "equivp sameFlags"
  by (rule equivpI) (auto simp: reflp_def symp_def transp_def sameFlags_def split: option.splits)

lemma sameRule_equiv: "equivp sameRule"
  using sameFlags_equiv
  by (intro equivpI) (auto simp: reflp_def symp_def transp_def sameRule_def Let_def equivp_def, (metis+)?)

end
