(* ===== verification/Avp.thy ===== *)
theory Avp
  imports Dictionary
begin

text \<open>
  Attribute-value pairs: \<open>src/diam/avp.go\<close>, \<open>group.go\<close> and the decoder errors of
  \<open>message_error.go\<close>. An AVP is a value; the slice of pointers inside a \<open>GroupedAVP\<close> is a list.
  The decoder is the mutual recursion of the code (an AVP, the payload of a Grouped AVP); the
  serialiser works on the caller's buffer, whose old contents the model keeps, and the encoder
  \<open>wire\<close> is what a well-formed AVP looks like on the wire.
\<close>

section \<open>AVPs\<close>

text \<open>\<open>Length\<close> is only read when \<open>Data\<close> is nil, where a negative value acts like 0.\<close>

datatype avp = AVP (Code: u32) (Flags: byte) (Length: nat) (VendorID: u32) (Data: "payload option")
  and payload = Typ dtype | GroupedAVP "avp list"

definition Pbit :: byte where "Pbit = 32"
definition Mbit :: byte where "Mbit = 64"
definition Vbit :: byte where "Vbit = 128"

definition FailedAVP :: u32 where "FailedAVP = 279"

definition zeroAVP :: avp where "zeroAVP = AVP 0 0 0 0 None"

definition headerLen :: "byte \<Rightarrow> nat" where
  "headerLen flags = (if flags AND Vbit = Vbit then 12 else 8)"

definition paddedAVPLength :: "nat \<Rightarrow> nat" where
  "paddedAVPLength n = nat ((int n + 3) AND NOT 3)"

fun AVP_Len :: "avp \<Rightarrow> nat"
  and payload_Len :: "payload \<Rightarrow> nat"
  and group_Len :: "avp list \<Rightarrow> nat" where
  "AVP_Len (AVP c f l v None) = paddedAVPLength (if l < headerLen f then headerLen f else l)"
| "AVP_Len (AVP c f l v (Some (Typ d))) = headerLen f + payload_Len (Typ d) + dt_Padding d"
| "AVP_Len (AVP c f l v (Some (GroupedAVP as))) = headerLen f + payload_Len (GroupedAVP as)"
| "payload_Len (Typ d) = dt_Len d"
| "payload_Len (GroupedAVP as) = group_Len as"
| "group_Len [] = 0"
| "group_Len (a # as) = AVP_Len a + group_Len as"

definition newAVPWithFlags :: "u32 \<Rightarrow> byte \<Rightarrow> u32 \<Rightarrow> payload \<Rightarrow> avp" where
  "newAVPWithFlags code flags vendor data = AVP code flags (headerLen flags + payload_Len data) vendor (Some data)"

definition NewAVP :: "u32 \<Rightarrow> byte \<Rightarrow> u32 \<Rightarrow> payload \<Rightarrow> avp" where
  "NewAVP code flags vendor data =
     (let flags = flags AND NOT Vbit;
          flags = (if vendor \<noteq> 0 then flags OR Vbit else flags)
      in newAVPWithFlags code flags vendor data)"

definition AddAVP :: "avp list \<Rightarrow> avp \<Rightarrow> avp list" where
  "AddAVP g a = g @ [a]"

section \<open>Serialisation\<close>

datatype ser_error =
    SerializeNilData
  | SerializeAddress dt_error
  | SerializePanic \<comment> \<open>the buffer is shorter than what is written\<close>

text \<open>The header bytes \<open>serializeHeaderTo\<close> stores; the length field keeps the low 24 bits.\<close>

definition avpHeader :: "u32 \<Rightarrow> byte \<Rightarrow> u32 \<Rightarrow> nat \<Rightarrow> bytes" where
  "avpHeader code flags vendor payloadLen =
     PutUint32 code @ [flags] @ uint32to24 (of_nat (headerLen flags + payloadLen)) @
     (if flags AND Vbit = Vbit then PutUint32 vendor else [])"

definition serializeLeaf :: "dtype \<Rightarrow> bytes \<Rightarrow> ser_error + bytes" where
  "serializeLeaf d b =
     (let payload = dt_Serialize d
      in if length b < length payload + dt_Padding d then Inl SerializePanic
         else Inr (payload @ replicate (dt_Padding d) 0 @ drop (length payload + dt_Padding d) b))"

fun AVP_SerializeTo :: "avp \<Rightarrow> bytes \<Rightarrow> ser_error + bytes"
  and payload_SerializeTo :: "payload \<Rightarrow> bytes \<Rightarrow> ser_error + bytes"
  and group_SerializeTo :: "avp list \<Rightarrow> bytes \<Rightarrow> ser_error + bytes" where
  "AVP_SerializeTo (AVP c f l v None) b = Inl SerializeNilData"
| "AVP_SerializeTo (AVP c f l v (Some p)) b =
     (case (case p of Typ (AddressV a) \<Rightarrow> Address_Valid a | _ \<Rightarrow> None) of
        Some e \<Rightarrow> Inl (SerializeAddress e)
      | None \<Rightarrow>
          if length b < headerLen f then Inl SerializePanic
          else case payload_SerializeTo p (drop (headerLen f) b) of
              Inl e \<Rightarrow> Inl e
            | Inr r \<Rightarrow> Inr (avpHeader c f v (payload_Len p) @ r))"
| "payload_SerializeTo (Typ d) b = serializeLeaf d b"
| "payload_SerializeTo (GroupedAVP as) b = group_SerializeTo as b"
| "group_SerializeTo [] b = Inr b"
| "group_SerializeTo (a # as) b =
     (case AVP_SerializeTo a b of
        Inl e \<Rightarrow> Inl e
      | Inr b' \<Rightarrow>
          if as \<noteq> [] \<and> length b' < AVP_Len a then Inl SerializePanic
          else case group_SerializeTo as (drop (AVP_Len a) b') of
              Inl e \<Rightarrow> Inl e
            | Inr r \<Rightarrow> Inr (take (AVP_Len a) b' @ r))"

definition AVP_Serialize :: "avp \<Rightarrow> ser_error + bytes" where
  "AVP_Serialize a =
     (if Data a = None then Inl SerializeNilData else AVP_SerializeTo a (replicate (AVP_Len a) 0))"

text \<open>\<open>copy(b[n:], bs)\<close>: as many bytes as fit.\<close>

definition copyAt :: "nat \<Rightarrow> bytes \<Rightarrow> bytes \<Rightarrow> bytes" where
  "copyAt n bs b = take n b @ take (length b - n) bs @ drop (n + length bs) b"

text \<open>\<open>GroupedAVP.Serialize\<close>, the \<open>datatype.Type\<close> method, which validates nothing and treats nil
  data as empty. \<open>group_Serialize\<close> fills a buffer from its front.\<close>

fun payload_Serialize :: "payload \<Rightarrow> bytes"
  and group_Serialize :: "avp list \<Rightarrow> bytes \<Rightarrow> bytes"
  and data_Serialize :: "avp \<Rightarrow> bytes" where
  "payload_Serialize (Typ d) = dt_Serialize d"
| "payload_Serialize (GroupedAVP as) = group_Serialize as (replicate (group_Len as) 0)"
| "group_Serialize [] b = b"
| "group_Serialize (a # as) b =
     (let payload = data_Serialize a;
          b' = copyAt (headerLen (Flags a)) payload
                 (copyAt 0 (avpHeader (Code a) (Flags a) (VendorID a) (length payload)) b)
      in take (AVP_Len a) b' @ group_Serialize as (drop (AVP_Len a) b'))"
| "data_Serialize (AVP c f l v None) = []"
| "data_Serialize (AVP c f l v (Some p)) = payload_Serialize p"

text \<open>The wire image of an AVP.\<close>

fun wire :: "avp \<Rightarrow> bytes"
  and wirePayload :: "payload \<Rightarrow> bytes"
  and wireGroup :: "avp list \<Rightarrow> bytes" where
  "wire (AVP c f l v None) = []"
| "wire (AVP c f l v (Some p)) = avpHeader c f v (payload_Len p) @ wirePayload p"
| "wirePayload (Typ d) = dt_Serialize d @ replicate (dt_Padding d) 0"
| "wirePayload (GroupedAVP as) = wireGroup as"
| "wireGroup [] = []"
| "wireGroup (a # as) = wire a @ wireGroup as"

section \<open>Decoding\<close>

definition InvalidAVPValue :: u32 where "InvalidAVPValue = 5004"
definition InvalidAVPLength :: u32 where "InvalidAVPLength = 5014"

text \<open>
  The decoder's errors: the three sentinels, \<open>avpLengthError\<close> with its Failed-AVP evidence, and
  \<open>avpDecodeError\<close> with its Result-Code, its evidence and whether its chain contains
  \<open>errGroupedTooDeep\<close>.
\<close>

datatype avp_error =
    AVPHeaderTooShort | AVPDataTooShort | AVPVendorTooShort
  | AVPLengthError avp
  | AVPDecodeError u32 avp bool

definition unknownCopy :: "bytes \<Rightarrow> payload" where
  "unknownCopy b = Typ (Unknown b)"

definition minimumAVPPayloadLength :: "TypeID \<Rightarrow> nat" where
  "minimumAVPPayloadLength t =
     (if t = AddressType then 2
      else if t \<in> {EnumeratedType, Float32Type, IPv4Type, Integer32Type, TimeType, Unsigned32Type} then 4
      else if t \<in> {Float64Type, Integer64Type, Unsigned64Type} then 8
      else if t = IPv6Type then 16
      else 0)"

definition failedAVPFromWire :: "bytes \<Rightarrow> u32 \<Rightarrow> Snapshot \<Rightarrow> avp" where
  "failedAVPFromWire data app dict =
     (let header = take 12 (data @ replicate 12 0);
          code = Uint32 (take 4 header);
          flags = header ! 4;
          vendor = (if flags AND Vbit \<noteq> 0 then Uint32 (take 4 (drop 8 header)) else 0);
          payloadLength = (case FindAVP dict app code vendor of
              Some def \<Rightarrow> minimumAVPPayloadLength (dataType (avpData def))
            | None \<Rightarrow> 0)
      in newAVPWithFlags code flags vendor (Typ (Unknown (replicate payloadLength 0))))"

definition withGroupedParent :: "u32 \<Rightarrow> byte \<Rightarrow> u32 \<Rightarrow> avp \<Rightarrow> avp" where
  "withGroupedParent code flags vendor failed = newAVPWithFlags code flags vendor (GroupedAVP [failed])"

definition newAVPDecodeError :: "u32 \<Rightarrow> byte \<Rightarrow> u32 \<Rightarrow> bytes \<Rightarrow> TypeID \<Rightarrow> bool \<Rightarrow> avp_error" where
  "newAVPDecodeError code flags vendor body t tooDeep =
     (let minimum = minimumAVPPayloadLength t;
          short = (minimum > 0 \<and> (length body < minimum \<or> t \<noteq> AddressType \<and> length body \<noteq> minimum));
          data = (if \<not> short \<and> t = GroupedType then [] else body)
      in AVPDecodeError (if short then InvalidAVPLength else InvalidAVPValue)
           (newAVPWithFlags code flags vendor (Typ (Unknown data))) tooDeep)"

text \<open>The header part of \<open>decodeFromBytes\<close>: the AVP as far as it was filled with the error, or
  code, flags, length, vendor and payload.\<close>

definition parseHeader :: "bytes \<Rightarrow> (avp \<times> avp_error) + (u32 \<times> byte \<times> nat \<times> u32 \<times> bytes)" where
  "parseHeader data =
     (if length data < 8 then Inl (zeroAVP, AVPHeaderTooShort)
      else
        let code = Uint32 (take 4 data);
            flags = data ! 4;
            len = unat (uint24to32 (take 3 (drop 5 data)))
        in if length data < len then Inl (AVP code flags len 0 None, AVPDataTooShort)
           else
             let data = take len data
             in if length data < 8 then Inl (AVP code flags len 0 None, AVPHeaderTooShort)
                else if flags AND Vbit = Vbit then
                  (if len < 12 then Inl (AVP code flags len 0 None, AVPVendorTooShort)
                   else Inr (code, flags, len, Uint32 (take 4 (drop 8 data)), drop 12 data))
                else Inr (code, flags, len, 0, drop 8 data))"

text \<open>The members loop stops at a framing error; a payload error is remembered, the first one
  counting, except below a Failed-AVP, where the undecoded member is kept as evidence.\<close>

definition retainsEvidence :: "bool \<Rightarrow> avp_error \<Rightarrow> bool" where
  "retainsEvidence failed e = (failed \<and> (case e of AVPDecodeError _ _ tooDeep \<Rightarrow> \<not> tooDeep | _ \<Rightarrow> False))"

definition addError :: "avp_error option \<Rightarrow> avp_error \<Rightarrow> avp_error option" where
  "addError errs e = (case errs of None \<Rightarrow> Some e | Some f \<Rightarrow> Some f)"

definition decodeLeaf :: "u32 \<Rightarrow> byte \<Rightarrow> u32 \<Rightarrow> bytes \<Rightarrow> TypeID \<Rightarrow> payload \<times> avp_error option" where
  "decodeLeaf code flags vendor body t =
     (case Decode t body of
        Inl e \<Rightarrow> (unknownCopy body, Some (newAVPDecodeError code flags vendor body t False))
      | Inr decoded \<Rightarrow>
          if dt_Len decoded \<noteq> length body
          then (unknownCopy body, Some (newAVPDecodeError code flags vendor body t False))
          else (Typ decoded, None))"

text \<open>How \<open>decodeAVP\<close> turns the sentinels of \<open>decodeFromBytes\<close> into length errors.\<close>

definition wrapError :: "Snapshot \<Rightarrow> u32 \<Rightarrow> bytes \<Rightarrow> avp_error \<Rightarrow> avp_error" where
  "wrapError dict app data e =
     (if e \<in> {AVPHeaderTooShort, AVPDataTooShort, AVPVendorTooShort}
      then AVPLengthError (failedAVPFromWire data app dict) else e)"

lemma parseHeader_length:
  "parseHeader data = Inr (c, f, l, v, p) \<Longrightarrow> length p + headerLen f = l \<and> l \<le> length data \<and> 8 \<le> l"
  by (auto simp: parseHeader_def Let_def headerLen_def split: if_splits)

text \<open>
  \<open>decodePayload\<close> is the part of \<open>decodeFromBytes\<close> after the header, \<open>decodeFromBytes\<close> the whole
  (its result is the AVP as filled so far and the error), \<open>decodeGroup\<close> the loop of
  \<open>decodeGroupedFromBytes\<close> with the members and the joined errors so far.
\<close>

function (sequential) decodePayload ::
    "Snapshot \<Rightarrow> u32 \<Rightarrow> nat \<Rightarrow> bool \<Rightarrow> u32 \<Rightarrow> byte \<Rightarrow> u32 \<Rightarrow> bytes \<Rightarrow> payload \<times> avp_error option"
  and decodeFromBytes :: "Snapshot \<Rightarrow> u32 \<Rightarrow> nat \<Rightarrow> bool \<Rightarrow> bytes \<Rightarrow> avp \<times> avp_error option"
  and decodeGroup ::
    "Snapshot \<Rightarrow> u32 \<Rightarrow> nat \<Rightarrow> bool \<Rightarrow> bytes \<Rightarrow> avp list \<Rightarrow> avp_error option \<Rightarrow> avp list \<times> avp_error option"
where
  "decodePayload dict app depth failed code flags vendor body =
     (case lookupAVP dict app code vendor of
        None \<Rightarrow> (unknownCopy body, None)
      | Some def \<Rightarrow>
          if dataType (avpData def) = GroupedType then
            (if depth \<ge> MaxGroupedDepth dict
             then (unknownCopy body, Some (newAVPDecodeError code flags vendor body GroupedType True))
             else case decodeGroup dict app (Suc depth)
                      (failed \<or> code = FailedAVP \<and> vendor = 0) body [] None of
                 (g, Some (AVPLengthError f)) \<Rightarrow>
                   (unknownCopy body, Some (AVPLengthError (withGroupedParent code flags vendor f)))
               | (g, Some (AVPDecodeError rc f tooDeep)) \<Rightarrow>
                   (unknownCopy body, Some (AVPDecodeError rc (withGroupedParent code flags vendor f) tooDeep))
               | (g, Some e) \<Rightarrow> (unknownCopy body, Some e)
               | (g, None) \<Rightarrow> (GroupedAVP g, None))
          else decodeLeaf code flags vendor body (dataType (avpData def)))"
| "decodeFromBytes dict app depth failed data =
     (case parseHeader data of
        Inl (a, e) \<Rightarrow> (a, Some e)
      | Inr (code, flags, len, vendor, body) \<Rightarrow>
          (let r = decodePayload dict app depth failed code flags vendor body
           in (AVP code flags len vendor (Some (fst r)), snd r)))"
| "decodeGroup dict app depth failed b g errs =
     (if b = [] then (g, errs)
      else
        let r = decodeFromBytes dict app depth failed b;
            a = fst r;
            err = map_option (wrapError dict app b) (snd r)
        in case err of
            Some (AVPLengthError f) \<Rightarrow> (g, Some (AVPLengthError f))
          | _ \<Rightarrow>
              (let errs = (case err of
                      None \<Rightarrow> errs
                    | Some e \<Rightarrow> if retainsEvidence failed e then errs else addError errs e);
                   advance = AVP_Len a
               in if err \<noteq> None \<and> Data a = None then (g, errs)
                  else if advance = 0 \<or> length b < advance then (g, Some (AVPLengthError a))
                  else decodeGroup dict app depth failed (drop advance b) (g @ [a]) errs))"
  by pat_completeness auto

termination
  by (relation "measure (\<lambda>x. case x of
        Inl (_, _, _, _, _, _, _, body) \<Rightarrow> 3 * length body + 2
      | Inr (Inl (_, _, _, _, data)) \<Rightarrow> 3 * length data
      | Inr (Inr (_, _, _, _, b, _, _)) \<Rightarrow> 3 * length b + 1)")
    (auto dest!: parseHeader_length simp: headerLen_def split: if_splits)

declare decodePayload.simps [simp del] decodeFromBytes.simps [simp del] decodeGroup.simps [simp del]

definition decodeAVP :: "Snapshot \<Rightarrow> u32 \<Rightarrow> nat \<Rightarrow> bool \<Rightarrow> bytes \<Rightarrow> avp \<times> avp_error option" where
  "decodeAVP dict app depth failed data =
     (let r = decodeFromBytes dict app depth failed data
      in (fst r, map_option (wrapError dict app data) (snd r)))"

definition DecodeAVP :: "bytes \<Rightarrow> u32 \<Rightarrow> Snapshot \<Rightarrow> avp \<times> avp_error option" where
  "DecodeAVP data app dict = decodeAVP dict app 0 False data"

definition DecodeGroupedFromBytes :: "bytes \<Rightarrow> u32 \<Rightarrow> Snapshot \<Rightarrow> avp list \<times> avp_error option" where
  "DecodeGroupedFromBytes b app dict = decodeGroup dict app 1 False b [] None"

section \<open>Well-formed AVPs\<close>

text \<open>What a serialiser needs: data present and of its exact size everywhere.\<close>

fun ser_ok :: "avp \<Rightarrow> bool"
  and ser_ok_payload :: "payload \<Rightarrow> bool"
  and ser_ok_group :: "avp list \<Rightarrow> bool" where
  "ser_ok (AVP c f l v None) = False"
| "ser_ok (AVP c f l v (Some p)) = ser_ok_payload p"
| "ser_ok_payload (Typ d) = dt_wf d"
| "ser_ok_payload (GroupedAVP as) = ser_ok_group as"
| "ser_ok_group [] = True"
| "ser_ok_group (a # as) = (ser_ok a \<and> ser_ok_group as)"

text \<open>
  What a decoder can return: the V bit and the Vendor-Id agree, the length is exact and fits its
  24-bit field, and the payload is the one the dictionary asks for, at a permitted depth. An AVP the
  dictionary does not know holds \<open>Unknown\<close> bytes. Below a Failed-AVP, a payload that does not decode
  is kept as \<open>Unknown\<close> too.
\<close>

definition leaf_wf :: "Snapshot \<Rightarrow> u32 \<Rightarrow> nat \<Rightarrow> bool \<Rightarrow> u32 \<Rightarrow> byte \<Rightarrow> u32 \<Rightarrow> dtype \<Rightarrow> bool" where
  "leaf_wf dict app depth failed code flags vendor d =
     (case lookupAVP dict app code vendor of
        None \<Rightarrow> dt_Type d = UnknownType
      | Some def \<Rightarrow>
          dataType (avpData def) \<noteq> GroupedType \<and> dt_wf d \<and> dt_Type d = dataType (avpData def) \<or>
          dt_Type d = UnknownType \<and>
          (case snd (decodePayload dict app depth failed code flags vendor (dt_Serialize d)) of
             None \<Rightarrow> False
           | Some e \<Rightarrow> retainsEvidence failed e))"

fun avp_wf :: "Snapshot \<Rightarrow> u32 \<Rightarrow> nat \<Rightarrow> bool \<Rightarrow> avp \<Rightarrow> bool"
  and payload_wf :: "Snapshot \<Rightarrow> u32 \<Rightarrow> nat \<Rightarrow> bool \<Rightarrow> u32 \<Rightarrow> byte \<Rightarrow> u32 \<Rightarrow> payload \<Rightarrow> bool"
  and group_wf :: "Snapshot \<Rightarrow> u32 \<Rightarrow> nat \<Rightarrow> bool \<Rightarrow> avp list \<Rightarrow> bool" where
  "avp_wf dict app depth failed (AVP c f l v None) = False"
| "avp_wf dict app depth failed (AVP c f l v (Some p)) =
     ((f AND Vbit = Vbit \<or> v = 0) \<and> l = headerLen f + payload_Len p \<and> l < 2 ^ 24 \<and>
      payload_wf dict app depth failed c f v p)"
| "payload_wf dict app depth failed c f v (Typ d) = leaf_wf dict app depth failed c f v d"
| "payload_wf dict app depth failed c f v (GroupedAVP as) =
     (case lookupAVP dict app c v of
        None \<Rightarrow> False
      | Some def \<Rightarrow> dataType (avpData def) = GroupedType \<and> depth < MaxGroupedDepth dict \<and>
          group_wf dict app (Suc depth) (failed \<or> c = FailedAVP \<and> v = 0) as)"
| "group_wf dict app depth failed [] = True"
| "group_wf dict app depth failed (a # as) =
     (avp_wf dict app depth failed a \<and> group_wf dict app depth failed as)"

text \<open>The outcomes after which the member loop keeps an AVP without recording an error.\<close>

definition accepted :: "bool \<Rightarrow> avp_error option \<Rightarrow> bool" where
  "accepted failed e = (case e of None \<Rightarrow> True | Some e \<Rightarrow> retainsEvidence failed e)"

text \<open>How deep Grouped AVPs nest.\<close>

fun nesting :: "avp \<Rightarrow> nat"
  and nestingPayload :: "payload \<Rightarrow> nat"
  and nestingGroup :: "avp list \<Rightarrow> nat" where
  "nesting (AVP c f l v None) = 0"
| "nesting (AVP c f l v (Some p)) = nestingPayload p"
| "nestingPayload (Typ d) = 0"
| "nestingPayload (GroupedAVP as) = Suc (nestingGroup as)"
| "nestingGroup [] = 0"
| "nestingGroup (a # as) = max (nesting a) (nestingGroup as)"

definition decodeAVPResult :: "Snapshot \<Rightarrow> u32 \<Rightarrow> nat \<Rightarrow> bytes \<Rightarrow> avp_error + avp" where
  "decodeAVPResult dict app depth data =
     (case decodeAVP dict app depth False data of (a, None) \<Rightarrow> Inr a | (a, Some e) \<Rightarrow> Inl e)"

text \<open>A small dictionary for the examples: Result-Code (Unsigned32), Failed-AVP (Grouped) and
  Host-IP-Address (Address) in the base application.\<close>

definition sampleData :: "TypeID \<Rightarrow> Data" where
  "sampleData t = \<lparr>dataType = t, dataTypeName = [], dataEnum = [], dataRule = []\<rparr>"

definition sampleDef :: "string \<Rightarrow> u32 \<Rightarrow> TypeID \<Rightarrow> dictAVP" where
  "sampleDef name code t = \<lparr>avpName = name, avpCode = code, avpMust = ''M'', avpMay = [], avpMustNot = ''V'',
     avpMayEncrypt = [], avpVendorID = 0, avpData = sampleData t\<rparr>"

definition sampleDict :: Snapshot where
  "sampleDict = emptySnapshot\<lparr>avpcode :=
     [((0, 268, 0), sampleDef ''Result-Code'' 268 Unsigned32Type),
      ((0, 279, 0), sampleDef ''Failed-AVP'' 279 GroupedType),
      ((0, 257, 0), sampleDef ''Host-IP-Address'' 257 AddressType)]\<rparr>"

definition sampleAVP :: avp where
  "sampleAVP = NewAVP 279 Mbit 0 (GroupedAVP [NewAVP 268 Mbit 0 (Typ (Unsigned32 2001)), NewAVP 999 0 10 (Typ (Unknown [1, 2]))])"

section \<open>Lengths\<close>

lemma length_avpHeader [simp, len_simps]: "length (avpHeader c f v n) = headerLen f"
  by (simp add: avpHeader_def headerLen_def)

lemma dt_Type_Unknown: "dt_Type d = UnknownType \<longleftrightarrow> (\<exists>b. d = Unknown b)"
  by (cases d) simp_all

lemma leaf_wf_dt_wf: "leaf_wf dict app depth failed c f v d \<Longrightarrow> dt_wf d"
  by (auto simp: leaf_wf_def dt_Type_Unknown split: option.splits)

lemma wf_ser_ok:
  "avp_wf dict app depth failed a \<Longrightarrow> ser_ok a"
  "payload_wf dict app depth failed c f v p \<Longrightarrow> ser_ok_payload p"
  "group_wf dict app depth failed as \<Longrightarrow> ser_ok_group as"
  by (induction dict app depth failed a and dict app depth failed c f v p and dict app depth failed as
      rule: avp_wf_payload_wf_group_wf.induct)
    (auto simp: leaf_wf_dt_wf split: option.splits)

lemma length_wire:
  "ser_ok a \<Longrightarrow> length (wire a) = AVP_Len a"
  "ser_ok_payload p \<Longrightarrow> length (wirePayload p) =
     payload_Len p + (case p of Typ d \<Rightarrow> dt_Padding d | GroupedAVP as \<Rightarrow> 0)"
  "ser_ok_group as \<Longrightarrow> length (wireGroup as) = group_Len as"
proof (induction a and p and as rule: ser_ok_ser_ok_payload_ser_ok_group.induct)
  case (2 c f l v p)
  then show ?case by (cases p) simp_all
qed (simp_all add: length_dt_Serialize)

lemma and_not_3_int: "(k :: int) AND NOT 3 = k - k mod 4"
proof -
  have "k AND NOT 3 = push_bit 2 (drop_bit 2 k)"
  proof -
    have m: "(3 :: int) = mask 2"
      by (simp add: mask_eq_exp_minus_1)
    show ?thesis
      unfolding m by (rule bit_eqI) (auto simp only: bit_and_iff bit_not_iff bit_mask_iff bit_push_bit_iff
          bit_drop_bit_eq o_def possible_bit_int le_add_diff_inverse not_less)
  qed
  moreover have "push_bit 2 (drop_bit 2 k) = k - take_bit 2 k"
    using bits_ident [of 2 k] by linarith
  ultimately show ?thesis
    by (simp add: take_bit_eq_mod)
qed

lemma paddedAVPLength_eq: "paddedAVPLength n = pad4 n"
proof -
  have "int n + 3 - (int n + 3) mod 4 = int (4 * ((n + 3) div 4))"
    by presburger
  then show ?thesis
    by (simp only: paddedAVPLength_def and_not_3_int pad4_eq nat_int)
qed

lemma headerLen_bounds: "8 \<le> headerLen f" "headerLen f \<le> 12" "4 dvd headerLen f" "0 < headerLen f"
  by (simp_all add: headerLen_def)

lemma AVP_Len_pos: "0 < AVP_Len a"
proof -
  have "0 < pad4 (if l < headerLen f then headerLen f else l)" for l f
    using pad4_ge [of l] pad4_ge [of "headerLen f"] headerLen_bounds(4) [of f] by (auto simp del: neq0_conv)
  then show ?thesis
    using headerLen_bounds(4) by (cases a rule: AVP_Len.cases) (simp_all add: paddedAVPLength_eq)
qed

lemma uint32to24_of_nat: "n < 2 ^ 24 \<Longrightarrow> uint24to32 (uint32to24 (of_nat n)) = of_nat n"
  by (rule uint24_roundtrip_small) (simp add: unat_of_nat take_bit_nat_eq_self)

lemma avpHeader_parts:
  "avpHeader c f v n ! 4 = f"
  "take 4 (avpHeader c f v n) = PutUint32 c"
  "take 3 (drop 5 (avpHeader c f v n)) = uint32to24 (of_nat (headerLen f + n))"
  "f AND Vbit = Vbit \<Longrightarrow> drop 8 (avpHeader c f v n) = PutUint32 v"
  by (simp_all add: avpHeader_def PutUint32_def uint32to24_def)

lemma parseHeader_wire:
  assumes "f AND Vbit = Vbit \<or> v = 0" "headerLen f + n < 2 ^ 24" "n \<le> length body"
  shows "parseHeader (avpHeader c f v n @ body) = Inr (c, f, headerLen f + n, v, take n body)"
proof -
  have "unat (of_nat (headerLen f + n) :: u32) = headerLen f + n"
    using assms(2) by (simp only: unat_of_nat) (simp add: take_bit_nat_eq_self)
  then have len: "unat (uint24to32 (take 3 (drop 5 (avpHeader c f v n @ body)))) = headerLen f + n"
    using assms(2) headerLen_bounds(1) [of f]
    by (simp add: avpHeader_parts uint32to24_of_nat del: of_nat_add)
  show ?thesis
    unfolding parseHeader_def len Let_def using assms
    by (auto simp: avpHeader_parts nth_append headerLen_def take_append)
qed

lemma parseHeader_wf:
  assumes "avp_wf dict app depth failed (AVP c f l v (Some p))"
  shows "parseHeader (wire (AVP c f l v (Some p)) @ r) =
    Inr (c, f, l, v, take (payload_Len p) (wirePayload p))"
proof -
  have "payload_Len p \<le> length (wirePayload p)"
    using wf_ser_ok(1) [OF assms] length_wire(2) [of p] by simp
  then show ?thesis
    using parseHeader_wire [of f v "payload_Len p" "wirePayload p @ r" c] assms by simp
qed

lemma decodePayload_leaf:
  assumes "leaf_wf dict app depth failed c f v d"
  shows "fst (decodePayload dict app depth failed c f v (dt_Serialize d)) = Typ d \<and>
    accepted failed (snd (decodePayload dict app depth failed c f v (dt_Serialize d)))"
proof (cases "lookupAVP dict app c v")
  case None
  then show ?thesis
    using assms by (auto simp: decodePayload.simps leaf_wf_def dt_Type_Unknown unknownCopy_def accepted_def)
next
  case (Some def)
  show ?thesis
  proof (cases "dataType (avpData def) \<noteq> GroupedType \<and> dt_wf d \<and> dt_Type d = dataType (avpData def)")
    case True
    then have "Decode (dataType (avpData def)) (dt_Serialize d) = Inr d"
      using Decode_Serialize [of d] by simp
    with True Some show ?thesis
      by (simp add: decodePayload.simps decodeLeaf_def length_dt_Serialize accepted_def)
  next
    case False
    then obtain b e where d: "d = Unknown b"
      and e: "snd (decodePayload dict app depth failed c f v b) = Some e" "retainsEvidence failed e"
      using assms Some by (auto simp: leaf_wf_def dt_Type_Unknown split: option.splits)
    have "fst (decodePayload dict app depth failed c f v b) = unknownCopy b"
      using e(1) by (auto simp: decodePayload.simps Some decodeLeaf_def split: if_splits option.splits prod.splits
          avp_error.splits sum.splits)
    then show ?thesis
      using e by (simp add: d unknownCopy_def accepted_def)
  qed
qed

lemma retained_not_length: "retainsEvidence failed e \<Longrightarrow> \<exists>rc f. e = AVPDecodeError rc f False"
  by (cases e) (auto simp: retainsEvidence_def)

lemma decodeGroup_accept:
  assumes "fst (decodeFromBytes dict app depth failed b) = a"
    "accepted failed (snd (decodeFromBytes dict app depth failed b))" "Data a \<noteq> None" "AVP_Len a \<le> length b"
  shows "decodeGroup dict app depth failed b g errs =
    decodeGroup dict app depth failed (drop (AVP_Len a) b) (g @ [a]) errs"
proof -
  have ne: "b \<noteq> []"
    using assms(4) AVP_Len_pos [of a] by auto
  show ?thesis
  proof (cases "snd (decodeFromBytes dict app depth failed b)")
    case None
    then show ?thesis
      using assms ne AVP_Len_pos [of a] by (subst decodeGroup.simps) (simp add: Let_def)
  next
    case (Some e)
    with assms(2) have ret: "retainsEvidence failed e"
      by (simp add: accepted_def)
    then obtain rc f where e: "e = AVPDecodeError rc f False"
      using retained_not_length by blast
    show ?thesis
      using assms ne AVP_Len_pos [of a] ret unfolding Some e
      by (subst decodeGroup.simps) (auto simp add: Let_def Some e wrapError_def)
  qed
qed

lemma decode_wire:
  "avp_wf dict app depth failed a \<Longrightarrow>
     fst (decodeFromBytes dict app depth failed (wire a @ r)) = a \<and>
     accepted failed (snd (decodeFromBytes dict app depth failed (wire a @ r)))"
  "payload_wf dict app depth failed c f v p \<Longrightarrow>
     fst (decodePayload dict app depth failed c f v (take (payload_Len p) (wirePayload p))) = p \<and>
     accepted failed (snd (decodePayload dict app depth failed c f v (take (payload_Len p) (wirePayload p))))"
  "group_wf dict app depth failed as \<Longrightarrow> decodeGroup dict app depth failed (wireGroup as) g errs = (g @ as, errs)"
proof (induction dict app depth failed a and dict app depth failed c f v p and dict app depth failed as
    arbitrary: r and and g errs rule: avp_wf_payload_wf_group_wf.induct)
  case (2 dict app depth failed c f l v p)
  then show ?case
    using parseHeader_wf [OF 2(2), of r] by (simp add: decodeFromBytes.simps Let_def)
next
  case (3 dict app depth failed c f v d)
  then show ?case
    using leaf_wf_dt_wf [of dict app depth failed c f v d] decodePayload_leaf [of dict app depth failed c f v d]
    by (simp add: length_dt_Serialize)
next
  case (4 dict app depth failed c f v as)
  then show ?case
    using wf_ser_ok(3) length_wire(3) [of as]
    by (auto simp: decodePayload.simps accepted_def split: option.splits)
next
  case (6 dict app depth failed a as)
  have len: "length (wire a) = AVP_Len a"
    using 6(3) wf_ser_ok(1) length_wire(1) by auto
  have data: "Data a \<noteq> None"
    using 6(3) by (cases "(dict, app, depth, failed, a)" rule: avp_wf.cases) auto
  have "decodeGroup dict app depth failed (wire a @ wireGroup as) g errs =
      decodeGroup dict app depth failed (drop (AVP_Len a) (wire a @ wireGroup as)) (g @ [a]) errs"
    using 6 data len by (intro decodeGroup_accept) auto
  then show ?case
    using 6 len by simp
qed (simp_all add: decodeGroup.simps)


lemma SerializeTo_wire:
  "ser_ok a \<Longrightarrow> AVP_Len a \<le> length b \<Longrightarrow> AVP_SerializeTo a b = Inr (wire a @ drop (AVP_Len a) b)"
  "ser_ok_payload p \<Longrightarrow> length (wirePayload p) \<le> length b \<Longrightarrow>
     payload_SerializeTo p b = Inr (wirePayload p @ drop (length (wirePayload p)) b)"
  "ser_ok_group as \<Longrightarrow> group_Len as \<le> length b \<Longrightarrow>
     group_SerializeTo as b = Inr (wireGroup as @ drop (group_Len as) b)"
proof (induction a b and p b and as b rule: AVP_SerializeTo_payload_SerializeTo_group_SerializeTo.induct)
  case (2 c f l v p b)
  have "(case p of Typ (AddressV a) \<Rightarrow> Address_Valid a | _ \<Rightarrow> None) = None"
    using 2 by (auto split: payload.splits dtype.splits)
  moreover have "AVP_Len (AVP c f l v (Some p)) = headerLen f + length (wirePayload p)"
    using 2(2) length_wire(2) [of p] by (cases p) simp_all
  ultimately show ?case
    using 2 by (simp add: add.commute)
next
  case (3 d b)
  then show ?case
    by (simp add: serializeLeaf_def length_dt_Serialize)
next
  case (4 as b)
  then show ?case
    using length_wire(3) [of as] by simp
next
  case (6 a as b)
  then show ?case
    using length_wire(1) [of a] by (simp add: add.commute)
qed simp_all

lemma decodePayload_error:
  "snd (decodePayload dict app depth failed c f v b) = Some e \<Longrightarrow>
     fst (decodePayload dict app depth failed c f v b) = unknownCopy b"
  by (auto simp: decodePayload.simps decodeLeaf_def split: if_splits option.splits prod.splits
      avp_error.splits sum.splits)

lemma parseHeader_error:
  "parseHeader data = Inl (a, e) \<Longrightarrow> e \<in> {AVPHeaderTooShort, AVPDataTooShort, AVPVendorTooShort}"
  by (auto simp: parseHeader_def Let_def split: if_splits)

lemma parseHeader_wf_fields:
  "parseHeader data = Inr (c, f, l, v, p) \<Longrightarrow> (f AND Vbit = Vbit \<or> v = 0) \<and> l < 2 ^ 24"
  using uint24_bound [of "take 3 (drop 5 data)"] by (auto simp: parseHeader_def Let_def split: if_splits)

lemma decodeFromBytes_nil_data:
  assumes "Data (fst (decodeFromBytes dict app depth failed b)) = None"
  shows "\<exists>f. map_option (wrapError dict app b) (snd (decodeFromBytes dict app depth failed b)) = Some (AVPLengthError f)"
proof (cases "parseHeader b")
  case (Inl x)
  then show ?thesis
    using parseHeader_error [of b "fst x" "snd x"] by (cases x) (simp add: decodeFromBytes.simps wrapError_def)
next
  case (Inr x)
  then show ?thesis
    using assms by (cases x) (simp add: decodeFromBytes.simps Let_def)
qed

lemma no_length_error:
  "(\<And>f. x \<noteq> Some (AVPLengthError f)) \<Longrightarrow> (case x of Some (AVPLengthError f) \<Rightarrow> A f | _ \<Rightarrow> B) = B"
  by (cases x) (auto split: avp_error.splits)

lemma decodeGroup_step:
  assumes "b \<noteq> []" "snd (decodeGroup dict app depth failed b g errs) = None"
  defines "r \<equiv> decodeFromBytes dict app depth failed b"
  shows "\<exists>errs'. AVP_Len (fst r) \<le> length b \<and>
    decodeGroup dict app depth failed b g errs =
      decodeGroup dict app depth failed (drop (AVP_Len (fst r)) b) (g @ [fst r]) errs' \<and>
    (errs' = None \<longrightarrow> errs = None \<and> accepted failed (snd r))"
proof -
  let ?err = "map_option (wrapError dict app b) (snd r)"
  let ?errs = "case ?err of None \<Rightarrow> errs | Some e \<Rightarrow> if retainsEvidence failed e then errs else addError errs e"
  have eq: "decodeGroup dict app depth failed b g errs =
      (case ?err of Some (AVPLengthError f) \<Rightarrow> (g, Some (AVPLengthError f))
       | _ \<Rightarrow> (if ?err \<noteq> None \<and> Data (fst r) = None then (g, ?errs)
           else if AVP_Len (fst r) = 0 \<or> length b < AVP_Len (fst r) then (g, Some (AVPLengthError (fst r)))
           else decodeGroup dict app depth failed (drop (AVP_Len (fst r)) b) (g @ [fst r]) ?errs))"
    using assms(1) unfolding r_def by (subst decodeGroup.simps) (simp only: Let_def if_False)
  have no_len: "?err \<noteq> Some (AVPLengthError f)" for f
    using eq assms(2) by auto
  then have data: "Data (fst r) \<noteq> None"
    using decodeFromBytes_nil_data [of dict app depth failed b] unfolding r_def by blast
  have eq': "decodeGroup dict app depth failed b g errs =
      (if AVP_Len (fst r) = 0 \<or> length b < AVP_Len (fst r) then (g, Some (AVPLengthError (fst r)))
       else decodeGroup dict app depth failed (drop (AVP_Len (fst r)) b) (g @ [fst r]) ?errs)"
    unfolding eq no_length_error [OF no_len] by (simp only: data simp_thms if_False)
  have len: "AVP_Len (fst r) \<le> length b"
    using eq' assms(2) by (simp split: if_splits)
  have step: "decodeGroup dict app depth failed b g errs =
      decodeGroup dict app depth failed (drop (AVP_Len (fst r)) b) (g @ [fst r]) ?errs"
    using eq' len AVP_Len_pos [of "fst r"] by simp
  have acc: "?errs = None \<longrightarrow> errs = None \<and> accepted failed (snd r)"
    by (auto simp: accepted_def addError_def wrapError_def retainsEvidence_def
        split: option.splits if_splits avp_error.splits)
  show ?thesis
    by (rule exI [of _ ?errs]) (intro conjI len step acc)
qed

lemma decodeGroup_wf:
  assumes "\<And>b'. length b' \<le> length b \<Longrightarrow> accepted failed (snd (decodeFromBytes dict app depth failed b')) \<Longrightarrow>
      avp_wf dict app depth failed (fst (decodeFromBytes dict app depth failed b'))"
    and "snd (decodeGroup dict app depth failed b g errs) = None"
  shows "errs = None \<and> (\<exists>as. fst (decodeGroup dict app depth failed b g errs) = g @ as \<and>
    group_wf dict app depth failed as \<and> group_Len as = length b)"
  using assms
proof (induction "length b" arbitrary: b g errs rule: less_induct)
  case less
  let ?r = "decodeFromBytes dict app depth failed b"
  show ?case
  proof (cases "b = []")
    case True
    then show ?thesis
      using less.prems(2) by (simp add: decodeGroup.simps exI [of _ "[]"])
  next
    case False
    then obtain errs' where len: "AVP_Len (fst ?r) \<le> length b"
      and step: "decodeGroup dict app depth failed b g errs =
        decodeGroup dict app depth failed (drop (AVP_Len (fst ?r)) b) (g @ [fst ?r]) errs'"
      and acc: "errs' = None \<longrightarrow> errs = None \<and> accepted failed (snd ?r)"
      using decodeGroup_step [OF False less.prems(2)] by blast
    have "errs' = None \<and> (\<exists>as. fst (decodeGroup dict app depth failed (drop (AVP_Len (fst ?r)) b) (g @ [fst ?r]) errs') =
        (g @ [fst ?r]) @ as \<and> group_wf dict app depth failed as \<and> group_Len as = length (drop (AVP_Len (fst ?r)) b))"
      using less.prems False len AVP_Len_pos [of "fst ?r"] step by (intro less.hyps) auto
    then obtain as where as: "errs' = None" "fst (decodeGroup dict app depth failed b g errs) = g @ fst ?r # as"
      "group_wf dict app depth failed as" "group_Len as = length b - AVP_Len (fst ?r)"
      by (auto simp: step)
    moreover have "errs = None" "avp_wf dict app depth failed (fst ?r)"
      using acc as(1) less.prems(1) [of b] by simp_all
    ultimately show ?thesis
      using len by (intro conjI exI [of _ "fst ?r # as"]) simp_all
  qed
qed


section \<open>The decoder returns well-formed AVPs\<close>

lemma decodePayload_wf:
  assumes H: "\<And>b' fl. length b' \<le> length body \<Longrightarrow> accepted fl (snd (decodeFromBytes dict app (Suc depth) fl b')) \<Longrightarrow>
      avp_wf dict app (Suc depth) fl (fst (decodeFromBytes dict app (Suc depth) fl b'))"
    and acc: "accepted failed (snd (decodePayload dict app depth failed code flags vendor body))"
  shows "payload_wf dict app depth failed code flags vendor
      (fst (decodePayload dict app depth failed code flags vendor body)) \<and>
    payload_Len (fst (decodePayload dict app depth failed code flags vendor body)) = length body"
proof (cases "lookupAVP dict app code vendor")
  case None
  then show ?thesis
    by (simp add: decodePayload.simps leaf_wf_def unknownCopy_def)
next
  case (Some def)
  let ?r = "decodePayload dict app depth failed code flags vendor body"
  show ?thesis
  proof (cases "snd ?r")
    case e: (Some e)
    then show ?thesis
      using decodePayload_error [OF e] acc Some by (simp add: leaf_wf_def unknownCopy_def accepted_def)
  next
    case None
    show ?thesis
    proof (cases "dataType (avpData def) = GroupedType")
      case True
      let ?fl = "failed \<or> code = FailedAVP \<and> vendor = 0"
      let ?g = "decodeGroup dict app (Suc depth) ?fl body [] None"
      from None True Some have depth: "depth < MaxGroupedDepth dict" and g: "snd ?g = None"
        and r: "fst ?r = GroupedAVP (fst ?g)"
        by (auto simp: decodePayload.simps split: if_splits prod.splits option.splits avp_error.splits)
      from decodeGroup_wf [OF H g] obtain as where "fst ?g = as" "group_wf dict app (Suc depth) ?fl as"
        "group_Len as = length body"
        by auto
      with r depth Some True show ?thesis
        by simp
    next
      case False
      with None Some obtain d where d: "Decode (dataType (avpData def)) body = Inr d" "dt_Len d = length body"
        "fst ?r = Typ d"
        by (auto simp: decodePayload.simps decodeLeaf_def split: if_splits sum.splits)
      with Serialize_Decode [OF d(1,2)] Some False show ?thesis
        by (simp add: leaf_wf_def)
    qed
  qed
qed


lemma decode_accepted_wf:
  "accepted failed (snd (decodeFromBytes dict app depth failed data)) \<Longrightarrow>
     avp_wf dict app depth failed (fst (decodeFromBytes dict app depth failed data))"
proof (induction "length data" arbitrary: data depth failed rule: less_induct)
  case less
  show ?case
  proof (cases "parseHeader data")
    case (Inl x)
    then show ?thesis
      using less.prems by (cases x) (auto simp: decodeFromBytes.simps accepted_def retainsEvidence_def
          dest: parseHeader_error split: avp_error.splits)
  next
    case (Inr x)
    then obtain c f l v p where h: "parseHeader data = Inr (c, f, l, v, p)"
      by (cases x) simp
    have len: "length p < length data"
      using parseHeader_length [OF h] headerLen_bounds(4) [of f] by linarith
    have acc: "accepted failed (snd (decodePayload dict app depth failed c f v p))"
      using less.prems by (simp add: decodeFromBytes.simps h Let_def)
    have "payload_wf dict app depth failed c f v (fst (decodePayload dict app depth failed c f v p)) \<and>
        payload_Len (fst (decodePayload dict app depth failed c f v p)) = length p"
      by (rule decodePayload_wf [OF less.hyps acc]) (use len in simp_all)
    then show ?thesis
      using parseHeader_length [OF h] parseHeader_wf_fields [OF h]
      by (simp add: decodeFromBytes.simps h Let_def)
  qed
qed

lemma nesting_wf:
  "avp_wf dict app depth failed a \<Longrightarrow> depth + nesting a \<le> max depth (MaxGroupedDepth dict)"
  "payload_wf dict app depth failed c f v p \<Longrightarrow> depth + nestingPayload p \<le> max depth (MaxGroupedDepth dict)"
  "group_wf dict app depth failed as \<Longrightarrow> depth + nestingGroup as \<le> max depth (MaxGroupedDepth dict)"
  by (induction dict app depth failed a and dict app depth failed c f v p and dict app depth failed as
      rule: avp_wf_payload_wf_group_wf.induct) (auto split: option.splits)

lemma copyAt_fits: "n + length bs \<le> length b \<Longrightarrow> copyAt n bs b = take n b @ bs @ drop (n + length bs) b"
  by (simp add: copyAt_def)

lemma wirePayload_split:
  "ser_ok_payload p \<Longrightarrow> wirePayload p = take (payload_Len p) (wirePayload p) @
     replicate (length (wirePayload p) - payload_Len p) 0"
proof (cases p)
  case (Typ d)
  then show "ser_ok_payload p \<Longrightarrow> ?thesis" by (simp add: length_dt_Serialize)
next
  case (GroupedAVP as)
  then show "ser_ok_payload p \<Longrightarrow> ?thesis" using length_wire(3) [of as] by simp
qed

lemma AVP_Len_wirePayload: "ser_ok_payload p \<Longrightarrow> AVP_Len (AVP c f l v (Some p)) = headerLen f + length (wirePayload p)"
  using length_wire(2) [of p] by (cases p) simp_all

lemma Serialize_wire:
  "ser_ok_payload p \<Longrightarrow> payload_Serialize p = take (payload_Len p) (wirePayload p)"
  "ser_ok_group as \<Longrightarrow> b = replicate (group_Len as) 0 \<Longrightarrow> group_Serialize as b = wireGroup as"
  "ser_ok a \<Longrightarrow> \<exists>p. Data a = Some p \<and> data_Serialize a = take (payload_Len p) (wirePayload p)"
proof (induction p and as b and a rule: payload_Serialize_group_Serialize_data_Serialize.induct)
  case (1 d)
  then show ?case by (simp add: length_dt_Serialize)
next
  case (2 as)
  then show ?case using length_wire(3) [of as] by simp
next
  case (4 a as b)
  obtain c f l v p where a: "a = AVP c f l v (Some p)"
    using 4(3) by (cases a rule: ser_ok.cases) auto
  let ?n = "payload_Len p" and ?w = "wirePayload p"
  have ok: "ser_ok_payload p" and P: "data_Serialize a = take ?n ?w" and len: "AVP_Len a = headerLen f + length ?w"
    and n: "?n \<le> length ?w"
    using 4(1,3) length_wire(2) [of p] AVP_Len_wirePayload [of p c f l v] by (auto simp: a)
  have "copyAt (headerLen f) (take ?n ?w) (copyAt 0 (avpHeader c f v ?n) b) =
      avpHeader c f v ?n @ take ?n ?w @ replicate (length ?w - ?n + group_Len as) 0"
    using n unfolding 4(4) by (simp add: copyAt_def len)
  also have "\<dots> = (avpHeader c f v ?n @ ?w) @ replicate (group_Len as) 0"
    using wirePayload_split [OF ok] by (simp add: replicate_add)
  finally have b': "copyAt (headerLen f) (take ?n ?w) (copyAt 0 (avpHeader c f v ?n) b) = wire a @ replicate (group_Len as) 0"
    by (simp add: a)
  moreover have "length (wire a) = AVP_Len a"
    using 4(3) length_wire(1) by simp
  ultimately show ?case
    using 4(2) [OF refl refl] 4(3) n
    by (simp add: P [unfolded a] a Let_def min_absorb2 del: data_Serialize.simps AVP_Len.simps wire.simps)
qed simp_all

section \<open>Interface and properties\<close>

lemma decodeAVP_wire: "avp_wf dict app depth False a \<Longrightarrow> decodeAVP dict app depth False (wire a @ r) = (a, None)"
  using decode_wire(1) [of dict app depth False a r]
  by (auto simp: decodeAVP_def Let_def accepted_def retainsEvidence_def split: option.splits)

interpretation avpc: framed_codec wire "decodeAVPResult dict app depth" "avp_wf dict app depth False" AVP_Len
  for dict app depth
  by unfold_locales (auto simp: decodeAVPResult_def decodeAVP_wire AVP_Len_pos dest: wf_ser_ok(1) length_wire(1))

lemma pad4_add: "4 dvd k \<Longrightarrow> pad4 (k + n) = k + pad4 n"
  by (auto simp: pad4_eq elim!: dvdE) presburger

lemma dt_Len_Padding_pad4: "dt_Type d \<noteq> GroupedType \<Longrightarrow> dt_Len d + dt_Padding d = pad4 (dt_Len d)"
  by (cases d) (simp_all only: dt_Len.simps dt_Padding.simps pad4_diff, simp_all add: pad4_eq)

lemma leaf_wf_not_Grouped: "leaf_wf dict app depth failed c f v d \<Longrightarrow> dt_Type d \<noteq> GroupedType"
  by (auto simp: leaf_wf_def split: option.splits)

lemma wf_aligned:
  "avp_wf dict app depth failed a \<Longrightarrow> AVP_Len a = pad4 (Length a)"
  "payload_wf dict app depth failed c f v p \<Longrightarrow> headerLen f + payload_Len p + (case p of Typ d \<Rightarrow> dt_Padding d | _ \<Rightarrow> 0) =
     pad4 (headerLen f + payload_Len p)"
  "group_wf dict app depth failed as \<Longrightarrow> 4 dvd group_Len as"
proof (induction dict app depth failed a and dict app depth failed c f v p and dict app depth failed as
      rule: avp_wf_payload_wf_group_wf.induct)
  case (2 dict app depth failed c f l v p)
  then show ?case by (cases p) simp_all
next
  case (3 dict app depth failed c f v d)
  then show ?case
    using dt_Len_Padding_pad4 [of d] leaf_wf_not_Grouped [of dict app depth failed c f v d] headerLen_bounds(3) [of f]
    by (simp add: pad4_add)
next
  case (4 dict app depth failed c f v as)
  then have "4 dvd group_Len as"
    by (auto split: option.splits)
  then show ?case
    using headerLen_bounds(3) [of f] by (simp add: pad4_add) (simp add: pad4_eq, presburger)
qed (simp_all add: pad4_dvd)

lemmas sample_defs = sampleAVP_def sampleDict_def sampleDef_def sampleData_def emptySnapshot_def NewAVP_def
  newAVPWithFlags_def Vbit_def Mbit_def headerLen_def lookupAVP_def leaf_wf_def MaxGroupedDepth_def
  DefaultMaxGroupedDepth_def

lemmas decode_eval = DecodeAVP_def decodeAVP_def decodeFromBytes.simps decodePayload.simps parseHeader_def
  decodeLeaf_def uint24to32_def sample_defs newAVPDecodeError_def minimumAVPPayloadLength_def
  decoder_defs(16-20) unknownCopy_def wrapError_def InvalidAVPLength_def InvalidAVPValue_def

lemma wrapError_not_sentinel:
  "wrapError dict app b e = x \<Longrightarrow> (\<And>f. x \<noteq> AVPLengthError f) \<Longrightarrow> e = x"
  by (auto simp: wrapError_def split: if_splits)

lemma decodeAVP_aligned:
  assumes "decodeAVP dict app depth failed data = (a, e)" "\<And>f. e \<noteq> Some (AVPLengthError f)"
  shows "Data a \<noteq> None \<and> Length a \<le> length data \<and> AVP_Len a = pad4 (Length a)"
proof -
  let ?r = "decodeFromBytes dict app depth failed data"
  have a: "a = fst ?r" and e: "e = map_option (wrapError dict app data) (snd ?r)"
    using assms(1) by (simp_all add: decodeAVP_def Let_def)
  from assms(2) have data: "Data a \<noteq> None"
    using decodeFromBytes_nil_data [of dict app depth failed data] unfolding a e by blast
  then obtain c f l v p where h: "parseHeader data = Inr (c, f, l, v, p)"
    by (cases "parseHeader data") (auto simp: a decodeFromBytes.simps parseHeader_def Let_def zeroAVP_def split: if_splits)
  have len: "Length a = l" "l \<le> length data"
    using parseHeader_length [OF h] by (simp_all add: a decodeFromBytes.simps h Let_def)
  show ?thesis
  proof (cases "snd ?r")
    case None
    then have "avp_wf dict app depth failed a"
      unfolding a by (intro decode_accepted_wf) (simp add: accepted_def)
    then show ?thesis
      using data len by (simp add: wf_aligned(1))
  next
    case (Some err)
    then have "fst (decodePayload dict app depth failed c f v p) = Typ (Unknown p)"
      using decodePayload_error [of dict app depth failed c f v p err]
      by (simp add: decodeFromBytes.simps h Let_def unknownCopy_def)
    then have "a = AVP c f l v (Some (Typ (Unknown p)))"
      by (simp add: a decodeFromBytes.simps h Let_def)
    then show ?thesis
      using data len parseHeader_length [OF h] headerLen_bounds(3) [of f] pad4_add [of "headerLen f" "length p"]
        pad4_ge [of "length p"] by (auto simp: add.commute)
  qed
qed

text \<open>C11. A well-formed AVP, of any nesting the dictionary permits, is written into a buffer of any
  previous contents as bytes that decode, whatever follows them, to the same AVP; the rest of the
  buffer is untouched.\<close>

theorem AVP_roundtrip:
  assumes "avp_wf dict app 0 False a" "AVP_Len a \<le> length b"
  shows "\<exists>out. AVP_SerializeTo a b = Inr out \<and> drop (AVP_Len a) out = drop (AVP_Len a) b \<and>
    length out = length b \<and> DecodeAVP out app dict = (a, None)"
proof -
  have ok: "ser_ok a"
    using assms(1) by (rule wf_ser_ok)
  have "DecodeAVP (wire a @ drop (AVP_Len a) b) app dict = (a, None)"
    using assms(1) by (simp add: DecodeAVP_def decodeAVP_wire)
  then show ?thesis
    using SerializeTo_wire(1) [OF ok assms(2)] length_wire(1) [OF ok] assms(2) by simp
qed

theorem AVP_roundtrip_witness:
  "\<exists>out. AVP_SerializeTo sampleAVP (replicate 48 255) = Inr out \<and> DecodeAVP out 0 sampleDict = (sampleAVP, None)"
proof -
  have wf: "avp_wf sampleDict 0 0 False sampleAVP"
    by (simp add: sample_defs pad4_eq)
  have len: "AVP_Len sampleAVP \<le> length (replicate 48 (255 :: byte))"
    by (simp add: sample_defs pad4_eq)
  show ?thesis
    using AVP_roundtrip [OF wf len] by blast
qed

text \<open>C22. An AVP that decodes without an error serialises again, to as many bytes as it occupied
  with its padding, and those bytes decode to the same AVP; its Grouped AVPs nest at most as deep as
  the dictionary allows.\<close>

theorem decode_serialize_stable:
  assumes "DecodeAVP data app dict = (a, None)"
  shows "\<exists>w. AVP_Serialize a = Inr w \<and> length w = pad4 (Length a) \<and> DecodeAVP (w @ r) app dict = (a, None) \<and>
    nesting a \<le> MaxGroupedDepth dict"
proof -
  have wf: "avp_wf dict app 0 False a"
    using assms decode_accepted_wf [of False dict app 0 data]
    by (auto simp: DecodeAVP_def decodeAVP_def Let_def accepted_def)
  then have ok: "ser_ok a"
    by (rule wf_ser_ok)
  then have "AVP_Serialize a = Inr (wire a)"
    using SerializeTo_wire(1) [OF ok, of "replicate (AVP_Len a) 0"]
    by (cases a rule: ser_ok.cases) (simp_all add: AVP_Serialize_def)
  moreover have "length (wire a) = pad4 (Length a)"
    using length_wire(1) [OF ok] wf_aligned(1) [OF wf] by simp
  ultimately show ?thesis
    using nesting_wf(1) [OF wf] decodeAVP_wire [OF wf, of r] by (simp add: DecodeAVP_def)
qed

theorem decode_serialize_stable_witness:
  "\<exists>w. AVP_Serialize (fst (DecodeAVP [0,0,1,12, 64, 0,0,12, 0,0,7,209, 9] 0 sampleDict)) = Inr w \<and> length w = 12"
proof -
  have "DecodeAVP [0,0,1,12, 64, 0,0,12, 0,0,7,209, 9] 0 sampleDict = (AVP 268 64 12 0 (Some (Typ (Unsigned32 2001))), None)"
    by (simp add: decode_eval Let_def)
  then show ?thesis
    using decode_serialize_stable [of "[0,0,1,12, 64, 0,0,12, 0,0,7,209, 9]" 0 sampleDict _ "[]"]
    by (fastforce simp: pad4_eq)
qed

text \<open>C23. The decoder never loses its place: unless it reports a framing error, the AVP it returns -
  decoded, unknown, or kept as raw bytes because its payload is invalid - lies within the input and
  occupies exactly its length field rounded up to four.\<close>

theorem decode_keeps_alignment:
  assumes "DecodeAVP data app dict = (a, e)" "\<forall>f. e \<noteq> Some (AVPLengthError f)"
  shows "Data a \<noteq> None \<and> Length a \<le> length data \<and> AVP_Len a = pad4 (Length a)"
  using assms by (intro decodeAVP_aligned) (auto simp: DecodeAVP_def)

theorem decode_keeps_alignment_witness:
  "AVP_Len (fst (DecodeAVP [0,0,1,12, 64, 0,0,11, 0,0,7] 0 sampleDict)) = 12"
proof -
  have "DecodeAVP [0,0,1,12, 64, 0,0,11, 0,0,7] 0 sampleDict =
      (AVP 268 64 11 0 (Some (Typ (Unknown [0,0,7]))),
       Some (AVPDecodeError 5014 (AVP 268 64 11 0 (Some (Typ (Unknown [0,0,7])))) False))"
    by (simp add: decode_eval Let_def)
  then show ?thesis
    using decode_keeps_alignment [of "[0,0,1,12, 64, 0,0,11, 0,0,7]" 0 sampleDict] by (simp add: pad4_eq)
qed

text \<open>\<open>GroupedAVP.Serialize\<close> and \<open>AVP.SerializeTo\<close>, two separate walks of the members, write the
  same payload for every Grouped AVP whose values are valid.\<close>

lemma group_serializers_agree:
  assumes "ser_ok_group as"
  shows "group_SerializeTo as (replicate (group_Len as) x) = Inr (payload_Serialize (GroupedAVP as))"
  using SerializeTo_wire(3) [OF assms, of "replicate (group_Len as) x"] Serialize_wire(2) [OF assms refl] by simp

end
