(* ===== verification/Message.thy ===== *)
theory Message
  imports Avp
begin

text \<open>
  Messages: \<open>src/diam/message.go\<close>. Reading takes the bytes a stream still holds and returns the
  rest; writing fills a buffer that may hold old contents. \<open>Message\<close> keeps the dictionary snapshot
  the message is decoded or built against. The map \<open>echoedProxyInfo\<close> of the code, from the echoed
  Proxy-Info AVPs to their bytes as echoed, is an association list over the AVP values. A message
  without a header does not occur: where the code tests for it, a nil message takes the same branch.
\<close>

section \<open>Messages\<close>

datatype msg_error =
    ReadEOF | ReadUnexpectedEOF \<comment> \<open>\<open>io.ReadFull\<close> on a stream that ends\<close>
  | HeaderError header_error
  | MessageError u32 "avp option" \<comment> \<open>a non-fatal \<open>MessageError\<close>: Result-Code and Failed-AVP\<close>
  | NoAVPsDefined
  | DecodeFailed avp_error

record Message =
  msgHeader :: Header
  msgAVP :: "avp list"
  DecodeErr :: "avp_error option"
  unknownMandatoryAVPs :: "avp list"
  dictionary :: Snapshot
  stream :: nat
  echoedProxyInfo :: "(avp \<times> bytes) list"

definition InvalidStreamID :: nat where "InvalidStreamID = 2 ^ 64 - 1"

abbreviation isRequest :: "Message \<Rightarrow> bool" where
  "isRequest m \<equiv> CommandFlags (msgHeader m) AND RequestFlag = RequestFlag"

text \<open>\<open>NewMessage\<close> draws a random identifier for a zero one; \<open>r1\<close> and \<open>r2\<close> are the draws.\<close>

definition NewMessage :: "u32 \<Rightarrow> byte \<Rightarrow> u32 \<Rightarrow> u32 \<Rightarrow> u32 \<Rightarrow> Snapshot \<Rightarrow> u32 \<Rightarrow> u32 \<Rightarrow> Message" where
  "NewMessage cmd flags appid hopbyhop endtoend dict r1 r2 =
     \<lparr>msgHeader = \<lparr>Version = 1, MessageLength = of_nat HeaderLength, CommandFlags = flags, CommandCode = cmd,
        ApplicationID = appid, HopByHopID = (if hopbyhop = 0 then r1 else hopbyhop),
        EndToEndID = (if endtoend = 0 then r2 else endtoend)\<rparr>,
      msgAVP = [], DecodeErr = None, unknownMandatoryAVPs = [], dictionary = dict,
      stream = InvalidStreamID, echoedProxyInfo = []\<rparr>"

definition NewRequest :: "u32 \<Rightarrow> u32 \<Rightarrow> Snapshot \<Rightarrow> u32 \<Rightarrow> u32 \<Rightarrow> Message" where
  "NewRequest cmd appid dict r1 r2 =
     (let m = NewMessage cmd RequestFlag appid 0 0 dict r1 r2
      in case FindCommand dict appid cmd of
          None \<Rightarrow> m
        | Some c \<Rightarrow>
            if Proxiable (cmdRequest c) = Some True
            then m\<lparr>msgHeader := (msgHeader m)\<lparr>CommandFlags := CommandFlags (msgHeader m) OR ProxiableFlag\<rparr>\<rparr>
            else m)"

definition Message_Len :: "Message \<Rightarrow> nat" where
  "Message_Len m = HeaderLength + group_Len (msgAVP m)"

definition addLength :: "u32 \<Rightarrow> Message \<Rightarrow> Message" where
  "addLength n m = m\<lparr>msgHeader := (msgHeader m)\<lparr>MessageLength := MessageLength (msgHeader m) + n\<rparr>\<rparr>"

definition Message_AddAVP :: "Message \<Rightarrow> avp \<Rightarrow> Message" where
  "Message_AddAVP m a = addLength (of_nat (AVP_Len a)) (m\<lparr>msgAVP := msgAVP m @ [a]\<rparr>)"

definition Message_InsertAVP :: "Message \<Rightarrow> avp \<Rightarrow> Message" where
  "Message_InsertAVP m a = addLength (of_nat (AVP_Len a)) (m\<lparr>msgAVP := a # msgAVP m\<rparr>)"

definition Message_NewAVP :: "Message \<Rightarrow> u32 \<Rightarrow> byte \<Rightarrow> u32 \<Rightarrow> payload \<Rightarrow> dt_error + (avp \<times> Message)" where
  "Message_NewAVP m code flags vendor data =
     (case (case data of Typ (AddressV addr) \<Rightarrow> Address_Valid addr | _ \<Rightarrow> None) of
        Some e \<Rightarrow> Inl e
      | None \<Rightarrow> (let a = NewAVP code flags vendor data in Inr (a, Message_AddAVP m a)))"

definition Message_DeleteAVP :: "Message \<Rightarrow> u32 \<Rightarrow> u32 \<Rightarrow> nat \<times> Message" where
  "Message_DeleteAVP m code vendor =
     (let hit = (\<lambda>a. Code a = code \<and> VendorID a = vendor);
          removed = filter hit (msgAVP m);
          h = msgHeader m
      in (length removed,
          m\<lparr>msgHeader := h\<lparr>MessageLength := foldl (\<lambda>n a. n - of_nat (AVP_Len a)) (MessageLength h) removed\<rparr>,
            msgAVP := filter (\<lambda>a. \<not> hit a) (msgAVP m)\<rparr>))"

section \<open>Finding AVPs\<close>

fun members :: "avp \<Rightarrow> avp list" where
  "members (AVP c f l v (Some (GroupedAVP as))) = as"
| "members _ = []"

lemma size_members: "size_list size (members a) < size a"
  by (cases a rule: members.cases) simp_all

text \<open>\<open>findAVPs\<close> appends the matches to \<open>found\<close>, descending into Grouped AVPs; with \<open>first\<close> it stops at
  the first one.\<close>

function findAVPs :: "avp list \<Rightarrow> avp list \<Rightarrow> u32 \<Rightarrow> u32 \<Rightarrow> bool \<Rightarrow> avp list" where
  "findAVPs found [] code vendor first = found"
| "findAVPs found (a # as) code vendor first =
     (let hit = (Code a = code \<and> VendorID a = vendor);
          found = (if hit then found @ [a] else found)
      in if hit \<and> first then found
         else
           let deeper = (if members a \<noteq> [] then findAVPs found (members a) code vendor first else found)
           in if first \<and> length deeper > length found then deeper
              else findAVPs deeper as code vendor first)"
  by pat_completeness auto
termination
  by (relation "measure (\<lambda>(found, as, code, vendor, first). size_list size as)") 
    (auto simp: less_Suc_eq_le intro: size_members [THEN less_imp_le, THEN trans_le_add1])

declare findAVPs.simps [simp del]

definition Message_FindAVPs :: "Message \<Rightarrow> u32 \<Rightarrow> u32 \<Rightarrow> avp list option" where
  "Message_FindAVPs m code vendor =
     (let found = findAVPs [] (msgAVP m) code vendor False in if found = [] then None else Some found)"

definition Message_FindAVP :: "Message \<Rightarrow> u32 \<Rightarrow> u32 \<Rightarrow> avp option" where
  "Message_FindAVP m code vendor =
     (let found = findAVPs [] (msgAVP m) code vendor True in if found = [] then None else Some (hd found))"

definition Message_FindAVPByName :: "Message \<Rightarrow> string \<Rightarrow> avp option" where
  "Message_FindAVPByName m name =
     (case FindAVPByName (dictionary m) (ApplicationID (msgHeader m)) name of
        None \<Rightarrow> None
      | Some def \<Rightarrow> Message_FindAVP m (avpCode def) (avpVendorID def))"

fun avpsWithPath :: "avp list \<Rightarrow> (u32 \<times> u32) list \<Rightarrow> avp list" where
  "avpsWithPath avps [] = avps"
| "avpsWithPath avps (p # ps) =
     concat (map (\<lambda>a. if Code a \<noteq> fst p \<or> VendorID a \<noteq> snd p then []
                     else if ps = [] then [a] else avpsWithPath (members a) ps) avps)"

text \<open>The AVPs of a list and of their Grouped AVPs in depth-first order.\<close>

fun preorder :: "avp \<Rightarrow> avp list" and preorderGroup :: "avp list \<Rightarrow> avp list" where
  "preorder (AVP c f l v (Some (GroupedAVP as))) = AVP c f l v (Some (GroupedAVP as)) # preorderGroup as"
| "preorder (AVP c f l v (Some (Typ d))) = [AVP c f l v (Some (Typ d))]"
| "preorder (AVP c f l v None) = [AVP c f l v None]"
| "preorderGroup [] = []"
| "preorderGroup (a # as) = preorder a @ preorderGroup as"

section \<open>Reading\<close>

fun unknownMandatoryHierarchy :: "Snapshot \<Rightarrow> u32 \<Rightarrow> avp \<Rightarrow> avp option"
  and unknownMandatoryMembers :: "Snapshot \<Rightarrow> u32 \<Rightarrow> avp list \<Rightarrow> avp list" where
  "unknownMandatoryHierarchy dict app (AVP c f l v (Some (Typ d))) =
     (if f AND Mbit \<noteq> 0 \<and> dt_Type d = UnknownType \<and> lookupAVP dict app c v = None
      then Some (AVP c f l v (Some (Typ d))) else None)"
| "unknownMandatoryHierarchy dict app (AVP c f l v None) = None"
| "unknownMandatoryHierarchy dict app (AVP c f l v (Some (GroupedAVP as))) =
     (let children = unknownMandatoryMembers dict app as
      in if children = [] then None else Some (newAVPWithFlags c f v (GroupedAVP children)))"
| "unknownMandatoryMembers dict app [] = []"
| "unknownMandatoryMembers dict app (a # as) =
     (case unknownMandatoryHierarchy dict app a of
        None \<Rightarrow> unknownMandatoryMembers dict app as
      | Some failed \<Rightarrow> failed # unknownMandatoryMembers dict app as)"

text \<open>The loop of \<open>decodeAVPs\<close>: the AVPs, the unknown mandatory AVPs and the joined errors so far.\<close>

function decodeAVPs_loop ::
    "Snapshot \<Rightarrow> u32 \<Rightarrow> bytes \<Rightarrow> avp list \<Rightarrow> avp list \<Rightarrow> avp_error option \<Rightarrow>
     avp list \<times> avp list \<times> avp_error option \<times> msg_error option" where
  "decodeAVPs_loop dict app b avps unknown errs =
     (if b = [] then (avps, unknown, errs, None)
      else
        let r = decodeAVP dict app 0 False b;
            a = fst r
        in case snd r of
            Some (AVPLengthError f) \<Rightarrow> (avps, unknown, None, Some (MessageError InvalidAVPLength (Some f)))
          | err \<Rightarrow>
              (if err \<noteq> None \<and> Data a = None then (avps, unknown, None, map_option DecodeFailed err)
               else
                 let errs = (case err of None \<Rightarrow> errs | Some e \<Rightarrow> addError errs e);
                     advance = AVP_Len a
                 in if advance = 0 \<or> length b < advance
                    then (avps, unknown, None, Some (MessageError InvalidAVPLength (Some a)))
                    else decodeAVPs_loop dict app (drop advance b) (avps @ [a])
                           (unknown @ (case unknownMandatoryHierarchy dict app a of None \<Rightarrow> [] | Some f \<Rightarrow> [f])) errs))"
  by pat_completeness auto
termination
  by (relation "measure (\<lambda>(dict, app, b, avps, unknown, errs). length b)") auto

declare decodeAVPs_loop.simps [simp del]

definition Message_decodeAVPs :: "Message \<Rightarrow> bytes \<Rightarrow> Message \<times> msg_error option" where
  "Message_decodeAVPs m b =
     (case decodeAVPs_loop (dictionary m) (ApplicationID (msgHeader m)) b [] [] None of
        (avps, unknown, errs, err) \<Rightarrow>
          (m\<lparr>msgAVP := avps, unknownMandatoryAVPs := unknown, DecodeErr := (if err = None then errs else None)\<rparr>, err))"

text \<open>\<open>unknownCommand\<close> stands for commands the dictionary does not define; it has rules enough.\<close>

definition unknownCommandAVPCap :: nat where "unknownCommandAVPCap = 32"

definition maxAVPsFor :: "Header \<Rightarrow> Command option \<Rightarrow> nat" where
  "maxAVPsFor h cmd =
     (case cmd of
        None \<Rightarrow> unknownCommandAVPCap
      | Some c \<Rightarrow> if CommandFlags h AND RequestFlag = RequestFlag then length (cmdRules (cmdRequest c))
                  else length (cmdRules (cmdAnswer c)))"

definition readHeader :: "Message \<Rightarrow> bytes \<Rightarrow> Message option \<times> msg_error option \<times> bytes" where
  "readHeader m r =
     (if length r < HeaderLength
      then (None, Some (if r = [] then ReadEOF else ReadUnexpectedEOF), [])
      else case Header_DecodeFromBytes zeroHeader (take HeaderLength r) of
          (h, e) \<Rightarrow> (Some (m\<lparr>msgHeader := h\<rparr>), map_option HeaderError e, drop HeaderLength r))"

definition readBody :: "Message \<Rightarrow> bytes \<Rightarrow> Message \<times> msg_error option \<times> bytes" where
  "readBody m r =
     (let n = unat (MessageLength (msgHeader m) - of_nat HeaderLength);
          cmd = FindCommand (dictionary m) (ApplicationID (msgHeader m)) (CommandCode (msgHeader m))
      in if length r < n then (m, Some (if r = [] then ReadEOF else ReadUnexpectedEOF), [])
         else if maxAVPsFor (msgHeader m) cmd = 0 then (m, Some NoAVPsDefined, drop n r)
         else case Message_decodeAVPs m (take n r) of (m', err) \<Rightarrow> (m', err, drop n r))"

definition blankMessage :: "Snapshot \<Rightarrow> Message" where
  "blankMessage dict = \<lparr>msgHeader = zeroHeader, msgAVP = [], DecodeErr = None, unknownMandatoryAVPs = [],
     dictionary = dict, stream = 0, echoedProxyInfo = []\<rparr>"

definition ReadMessage :: "Snapshot \<Rightarrow> bytes \<Rightarrow> Message option \<times> msg_error option \<times> bytes" where
  "ReadMessage dict r =
     (case readHeader (blankMessage dict) r of
        (None, err, r) \<Rightarrow> (None, err, r)
      | (Some m, Some e, r) \<Rightarrow> (Some m, Some e, r)
      | (Some m, None, r) \<Rightarrow>
          (case readBody m r of
             (m, Some e, r) \<Rightarrow> (Some m, Some e, r)
           | (m, None, r) \<Rightarrow>
               (case DecodeErr m of
                  Some e \<Rightarrow>
                    if strict dict then
                      (case e of
                         AVPDecodeError rc f tooDeep \<Rightarrow>
                           if CommandFlags (msgHeader m) AND RequestFlag \<noteq> 0
                           then (Some m, Some (MessageError rc (Some f)), r)
                           else (Some m, Some (DecodeFailed e), r)
                       | _ \<Rightarrow> (Some m, Some (DecodeFailed e), r))
                    else (Some m, None, r)
                | None \<Rightarrow> (Some m, None, r))))"

section \<open>Writing\<close>

datatype write_error = MessageTooLong | WriteSerialize ser_error | WriteFailed

definition serializedLength :: "Message \<Rightarrow> nat option" where
  "serializedLength m = (let l = Message_Len m in if l < HeaderLength \<or> l > MaxMessageLength then None else Some l)"

definition serializeTo :: "Message \<Rightarrow> bytes \<Rightarrow> nat \<Rightarrow> ser_error + bytes" where
  "serializeTo m b l =
     (case Header_SerializeTo (msgHeader m) (take HeaderLength b) of
        None \<Rightarrow> Inl SerializePanic
      | Some h \<Rightarrow>
          (case group_SerializeTo (msgAVP m) (drop HeaderLength b) of
             Inl e \<Rightarrow> Inl e
           | Inr r \<Rightarrow> Inr (take 1 h @ putUint24 (drop 1 h) (of_nat l) @ r)))"

definition Message_SerializeTo :: "Message \<Rightarrow> bytes \<Rightarrow> write_error + bytes" where
  "Message_SerializeTo m b =
     (case serializedLength m of
        None \<Rightarrow> Inl MessageTooLong
      | Some l \<Rightarrow> (case serializeTo m b l of Inl e \<Rightarrow> Inl (WriteSerialize e) | Inr r \<Rightarrow> Inr r))"

definition Message_Serialize :: "Message \<Rightarrow> write_error + bytes" where
  "Message_Serialize m =
     (case serializedLength m of
        None \<Rightarrow> Inl MessageTooLong
      | Some l \<Rightarrow> (case serializeTo m (replicate l 0) l of Inl e \<Rightarrow> Inl (WriteSerialize e) | Inr r \<Rightarrow> Inr r))"

text \<open>
  A writer is the list of outcomes of its successive calls: how many bytes it takes and how it
  returns. \<open>writeRetry\<close> returns what was written, the count and the last outcome; \<open>None\<close> means the
  writer had no further outcome. \<open>writeStreamRetry\<close> is the same loop on a stream.
\<close>

datatype write_outcome = WriteOk | WriteTimeout | WriteOther

fun writeRetry :: "(nat \<times> write_outcome) list \<Rightarrow> bytes \<Rightarrow> nat \<Rightarrow> bytes \<Rightarrow> (bytes \<times> write_outcome) option" where
  "writeRetry [] b retries done = None"
| "writeRetry ((wn, err) # ws) b retries done =
     (let done = done @ take wn b
      in if err = WriteOk \<or> retries = 0 then Some (done, err)
         else if err \<noteq> WriteTimeout then Some (done, err)
         else writeRetry ws (if wn > 0 then drop wn b else b) (retries - 1) done)"

definition WriteToStreamWithRetry ::
    "Message \<Rightarrow> bytes \<Rightarrow> (nat \<times> write_outcome) list \<Rightarrow> nat \<Rightarrow> write_error + (bytes \<times> write_outcome) option" where
  "WriteToStreamWithRetry m buf ws retries =
     (case serializedLength m of
        None \<Rightarrow> Inl MessageTooLong
      | Some l \<Rightarrow>
          (case serializeTo m (take l buf) l of
             Inl e \<Rightarrow> Inl (WriteSerialize e)
           | Inr b \<Rightarrow> Inr (writeRetry ws b retries [])))"

section \<open>Answers\<close>

definition ResultCode :: u32 where "ResultCode = 268"
definition ProxyInfo :: u32 where "ProxyInfo = 284"

text \<open>\<open>cloneEchoAVP\<close>: reserved flag bits are cleared, payloads are copied through their own codec.\<close>

fun cloneEchoAVP :: "avp \<Rightarrow> avp" and cloneEchoMembers :: "avp list \<Rightarrow> avp list" where
  "cloneEchoAVP (AVP c f l v None) = AVP c (f AND NOT 0x1f) l v None"
| "cloneEchoAVP (AVP c f l v (Some (GroupedAVP as))) =
     AVP c (f AND NOT 0x1f) l v (Some (GroupedAVP (cloneEchoMembers as)))"
| "cloneEchoAVP (AVP c f l v (Some (Typ d))) =
     AVP c (f AND NOT 0x1f) l v (Some (Typ (case d of
         AddressV a \<Rightarrow> AddressV a
       | _ \<Rightarrow> (case Decode (dt_Type d) (dt_Serialize d) of
              Inl e \<Rightarrow> Unknown (dt_Serialize d)
            | Inr value \<Rightarrow> value))))"
| "cloneEchoMembers [] = []"
| "cloneEchoMembers (a # as) = cloneEchoAVP a # cloneEchoMembers as"

definition addEcho :: "Message \<Rightarrow> avp \<Rightarrow> Message" where
  "addEcho nm a =
     (let copied = cloneEchoAVP a;
          nm = Message_AddAVP nm copied
      in case AVP_Serialize copied of
          Inr b \<Rightarrow> nm\<lparr>echoedProxyInfo := echoedProxyInfo nm @ [(copied, b)]\<rparr>
        | Inl e \<Rightarrow> nm)"

definition Answer :: "Message \<Rightarrow> u32 \<Rightarrow> Message" where
  "Answer m resultCode =
     (let h = msgHeader m;
          nm = NewMessage (CommandCode h) (CommandFlags h AND ProxiableFlag) (ApplicationID h)
                 (HopByHopID h) (EndToEndID h) (dictionary m) 0 0;
          nm = nm\<lparr>msgHeader := (msgHeader nm)\<lparr>HopByHopID := HopByHopID h, EndToEndID := EndToEndID h\<rparr>\<rparr>;
          nm = (if resultCode \<ge> 3000 \<and> resultCode < 4000
                then nm\<lparr>msgHeader := (msgHeader nm)\<lparr>CommandFlags := CommandFlags (msgHeader nm) OR ErrorFlag\<rparr>\<rparr>
                else nm);
          nm = (if resultCode \<noteq> 0
                then Message_AddAVP nm (NewAVP ResultCode Mbit 0 (Typ (Unsigned32 resultCode))) else nm);
          nm = foldl addEcho nm (filter (\<lambda>a. Code a = ProxyInfo \<and> VendorID a = 0) (msgAVP m))
      in nm\<lparr>stream := stream m\<rparr>)"

section \<open>Well-formed messages\<close>

definition withLength :: "Header \<Rightarrow> nat \<Rightarrow> Header" where
  "withLength h l = h\<lparr>MessageLength := of_nat l\<rparr>"

definition Message_wf :: "Snapshot \<Rightarrow> Message \<Rightarrow> bool" where
  "Message_wf dict m \<longleftrightarrow> Version (msgHeader m) = 1 \<and> unat (CommandCode (msgHeader m)) < 2 ^ 24 \<and>
     group_wf dict (ApplicationID (msgHeader m)) 0 False (msgAVP m) \<and> Message_Len m \<le> MaxMessageLength \<and>
     maxAVPsFor (msgHeader m) (FindCommand dict (ApplicationID (msgHeader m)) (CommandCode (msgHeader m))) \<noteq> 0"

definition messageBytes :: "Message \<Rightarrow> bytes" where
  "messageBytes m = headerBytes (withLength (msgHeader m) (Message_Len m)) @ wireGroup (msgAVP m)"

text \<open>The message as its receiver sees it.\<close>

definition received :: "Snapshot \<Rightarrow> Message \<Rightarrow> Message" where
  "received dict m = \<lparr>msgHeader = withLength (msgHeader m) (Message_Len m), msgAVP = msgAVP m, DecodeErr = None,
     unknownMandatoryAVPs = unknownMandatoryMembers dict (ApplicationID (msgHeader m)) (msgAVP m),
     dictionary = dict, stream = 0, echoedProxyInfo = []\<rparr>"

definition readResult :: "Snapshot \<Rightarrow> bytes \<Rightarrow> msg_error + Message" where
  "readResult dict b =
     (case ReadMessage dict b of
        (Some m, None, r) \<Rightarrow> Inr m
      | (_, Some e, r) \<Rightarrow> Inl e
      | (None, None, r) \<Rightarrow> Inl ReadEOF)"

text \<open>An unknown mandatory AVP: the M bit, undecoded data and no dictionary entry.\<close>

definition unknownMandatory :: "Snapshot \<Rightarrow> u32 \<Rightarrow> avp \<Rightarrow> bool" where
  "unknownMandatory dict app a \<longleftrightarrow> Flags a AND Mbit \<noteq> 0 \<and> (\<exists>b. Data a = Some (Typ (Unknown b))) \<and>
     lookupAVP dict app (Code a) (VendorID a) = None"

text \<open>What \<open>io.Writer\<close> promises: no more bytes than given, and all of them unless there is an error.\<close>

fun writer_ok :: "bytes \<Rightarrow> (nat \<times> write_outcome) list \<Rightarrow> bool" where
  "writer_ok b [] = True"
| "writer_ok b ((wn, err) # ws) =
     (wn \<le> length b \<and> (err = WriteOk \<longrightarrow> wn = length b) \<and> writer_ok (drop wn b) ws)"

text \<open>The length field counts the header and the padded AVPs.\<close>

definition lengthOk :: "Message \<Rightarrow> bool" where
  "lengthOk m \<longleftrightarrow> MessageLength (msgHeader m) = of_nat (Message_Len m)"

datatype edit = EditAdd avp | EditInsert avp | EditNew u32 byte u32 payload | EditDelete u32 u32

fun editStep :: "Message \<Rightarrow> edit \<Rightarrow> Message \<times> unit list" where
  "editStep m (EditAdd a) = (Message_AddAVP m a, [])"
| "editStep m (EditInsert a) = (Message_InsertAVP m a, [])"
| "editStep m (EditNew c f v p) = (case Message_NewAVP m c f v p of Inl e \<Rightarrow> m | Inr (a, m') \<Rightarrow> m', [])"
| "editStep m (EditDelete c v) = (snd (Message_DeleteAVP m c v), [])"

text \<open>Reading a number of messages from a stream, as a connection's read loop does.\<close>

fun readN :: "Snapshot \<Rightarrow> nat \<Rightarrow> bytes \<Rightarrow> Message list \<times> msg_error option \<times> bytes" where
  "readN dict 0 r = ([], None, r)"
| "readN dict (Suc n) r =
     (case ReadMessage dict r of
        (Some m, None, r) \<Rightarrow> (case readN dict n r of (ms, e, r) \<Rightarrow> (m # ms, e, r))
      | (_, e, r) \<Rightarrow> ([], e, r))"

definition plainMessage :: Message where
  "plainMessage = Message_AddAVP (NewMessage 257 RequestFlag 0 7 9 sampleDict 0 0) sampleAVP"

section \<open>Reading back what was written\<close>

lemma decodeAVPs_loop_wire:
  "group_wf dict app 0 False as \<Longrightarrow>
   decodeAVPs_loop dict app (wireGroup as) avps un errs =
     (avps @ as, un @ unknownMandatoryMembers dict app as, errs, None)"
proof (induction as arbitrary: avps un errs)
  case Nil
  then show ?case by (simp add: decodeAVPs_loop.simps)
next
  case (Cons a as)
  then have wf: "avp_wf dict app 0 False a" and wfs: "group_wf dict app 0 False as"
    by simp_all
  have len: "length (wire a) = AVP_Len a"
    using length_wire(1) [OF wf_ser_ok(1) [OF wf]] .
  then have "wire a \<noteq> []"
    using AVP_Len_pos [of a] by auto
  then show ?case
    using len AVP_Len_pos [of a] Cons.IH [OF wfs] decodeAVP_wire [OF wf, of "wireGroup as"]
    by (subst decodeAVPs_loop.simps) (simp add: Let_def split: option.splits)
qed

lemma decodeAVP_None_wf: "decodeAVP dict app depth False b = (a, None) \<Longrightarrow> avp_wf dict app depth False a"
  using decode_accepted_wf [of False dict app depth b] by (auto simp: decodeAVP_def Let_def accepted_def)

lemma decodeAVPs_loop_ok:
  assumes "decodeAVPs_loop dict app b avps un errs = (avps', un', None, None)"
  shows "errs = None \<and> (\<exists>as. avps' = avps @ as \<and> un' = un @ unknownMandatoryMembers dict app as \<and>
    group_wf dict app 0 False as \<and> group_Len as = length b)"
  using assms
proof (induction "length b" arbitrary: b avps un errs rule: less_induct)
  case less
  show ?case
  proof (cases "b = []")
    case True
    then show ?thesis
      using less.prems by (auto simp: decodeAVPs_loop.simps intro!: exI [of _ "[]"])
  next
    case False
    let ?r = "decodeAVP dict app 0 False b"
    let ?a = "fst ?r"
    obtain errs' where len: "AVP_Len ?a \<le> length b"
      and rec: "decodeAVPs_loop dict app (drop (AVP_Len ?a) b) (avps @ [?a])
        (un @ (case unknownMandatoryHierarchy dict app ?a of None \<Rightarrow> [] | Some f \<Rightarrow> [f])) errs' = (avps', un', None, None)"
      and errs': "errs' = None \<longrightarrow> errs = None \<and> snd ?r = None"
      using less.prems False
      by (subst (asm) decodeAVPs_loop.simps)
        (auto simp: Let_def addError_def split: option.splits avp_error.splits if_splits)
    have "errs' = None \<and> (\<exists>as. avps' = (avps @ [?a]) @ as \<and>
        un' = (un @ (case unknownMandatoryHierarchy dict app ?a of None \<Rightarrow> [] | Some f \<Rightarrow> [f])) @ unknownMandatoryMembers dict app as \<and>
        group_wf dict app 0 False as \<and> group_Len as = length (drop (AVP_Len ?a) b))"
      using len False AVP_Len_pos [of ?a] by (intro less.hyps [OF _ rec]) auto
    then obtain as where as: "errs' = None" "avps' = avps @ ?a # as" "group_wf dict app 0 False as"
      "group_Len as = length b - AVP_Len ?a" "un' = un @ unknownMandatoryMembers dict app (?a # as)"
      by (auto split: option.splits)
    moreover have "avp_wf dict app 0 False ?a"
      using errs' as(1) decodeAVP_None_wf [of dict app 0 b ?a] by (cases ?r) auto
    ultimately show ?thesis
      using errs' len by (intro conjI exI [of _ "?a # as"]) simp_all
  qed
qed


lemma withLength_simps [simp]:
  "ApplicationID (withLength h l) = ApplicationID h" "CommandCode (withLength h l) = CommandCode h"
  "CommandFlags (withLength h l) = CommandFlags h" "MessageLength (withLength h l) = of_nat l"
  "Version (withLength h l) = Version h" "maxAVPsFor (withLength h l) c = maxAVPsFor h c"
  by (simp_all add: withLength_def maxAVPsFor_def split: option.splits)

lemma headerBytes_withLength:
  "take 1 (headerBytes h) @ putUint24 (drop 1 (headerBytes h)) (of_nat l) = headerBytes (withLength h l)"
  by (simp add: headerBytes_def withLength_def putUint24_def uint32to24_def)

lemma serializeTo_bytes:
  assumes "ser_ok_group (msgAVP m)" "l = Message_Len m" "l \<le> length b"
  shows "serializeTo m b l = Inr (messageBytes m @ drop l b)"
proof -
  have "Header_SerializeTo (msgHeader m) (take HeaderLength b) = Some (headerBytes (msgHeader m))"
    using assms by (simp add: Header_SerializeTo_def Message_Len_def)
  moreover have "group_SerializeTo (msgAVP m) (drop HeaderLength b) =
      Inr (wireGroup (msgAVP m) @ drop (group_Len (msgAVP m)) (drop HeaderLength b))"
    using assms by (intro SerializeTo_wire(3)) (simp_all add: Message_Len_def)
  ultimately show ?thesis
    using assms(2) headerBytes_withLength [of "msgHeader m" l]
    by (simp add: serializeTo_def messageBytes_def Message_Len_def add.commute)
qed

lemma length_messageBytes: "ser_ok_group (msgAVP m) \<Longrightarrow> length (messageBytes m) = Message_Len m"
  by (simp add: messageBytes_def Message_Len_def length_wire(3))

lemma Message_wf_header:
  assumes "Message_wf dict m"
  shows "Header_ok (withLength (msgHeader m) (Message_Len m))"
    "unat (of_nat (Message_Len m) :: u32) = Message_Len m" "serializedLength m = Some (Message_Len m)"
proof -
  have "4 dvd group_Len (msgAVP m)"
    using assms wf_aligned(3) unfolding Message_wf_def by blast
  then have "Message_Len m mod 4 = 0"
    by (simp add: Message_Len_def mod_eq_0_iff_dvd)
  moreover have len: "20 \<le> Message_Len m" "Message_Len m \<le> 2 ^ 24 - 1"
    using assms by (simp_all add: Message_Len_def Message_wf_def MaxMessageLength_def)
  moreover from len show u: "unat (of_nat (Message_Len m) :: u32) = Message_Len m"
    by (simp only: unat_of_nat) (simp add: take_bit_nat_eq_self)
  ultimately show "Header_ok (withLength (msgHeader m) (Message_Len m))"
    using assms by (simp add: Header_ok_def withLength_def Message_wf_def MaxMessageLength_def)
  show "serializedLength m = Some (Message_Len m)"
    using len by (simp add: serializedLength_def Let_def MaxMessageLength_def)
qed

lemma Header_DecodeFromBytes_ok:
  "DecodeHeader b = Inr h \<Longrightarrow> Header_DecodeFromBytes zeroHeader b = (h, None)"
  by (auto simp: DecodeHeader_def split: prod.splits option.splits)

lemma ReadMessage_bytes:
  assumes "Message_wf dict m"
  shows "ReadMessage dict (messageBytes m @ r) = (Some (received dict m), None, r)"
proof -
  let ?h = "withLength (msgHeader m) (Message_Len m)"
  have ok: "ser_ok_group (msgAVP m)"
    using assms wf_ser_ok(3) unfolding Message_wf_def by blast
  have "Header_DecodeFromBytes zeroHeader (headerBytes ?h) = (?h, None)"
    using Header_DecodeFromBytes_ok DecodeHeader_headerBytes [OF Message_wf_header(1) [OF assms], of "[]"] by simp
  then have hdr: "readHeader (blankMessage dict) (messageBytes m @ r) =
      (Some ((blankMessage dict)\<lparr>msgHeader := ?h\<rparr>), None, wireGroup (msgAVP m) @ r)"
    by (simp add: readHeader_def messageBytes_def)
  have n: "unat (MessageLength ?h - of_nat HeaderLength) = length (wireGroup (msgAVP m))"
  proof -
    have "MessageLength ?h - of_nat HeaderLength = of_nat (group_Len (msgAVP m))"
      by (simp add: withLength_def Message_Len_def)
    moreover have "group_Len (msgAVP m) < 2 ^ 32"
      using assms by (simp add: Message_wf_def Message_Len_def MaxMessageLength_def)
    ultimately show ?thesis
      using length_wire(3) [OF ok] by (simp add: unat_of_nat take_bit_nat_eq_self)
  qed
  have wf: "group_wf dict (ApplicationID ?h) 0 False (msgAVP m)" "maxAVPsFor ?h (FindCommand dict (ApplicationID ?h) (CommandCode ?h)) \<noteq> 0"
    using assms by (simp_all add: Message_wf_def)
  have body: "readBody ((blankMessage dict)\<lparr>msgHeader := ?h\<rparr>) (wireGroup (msgAVP m) @ r) = (received dict m, None, r)"
    using wf(2) n decodeAVPs_loop_wire [OF wf(1), of "[]" "[]" None]
    by (simp add: readBody_def Let_def Message_decodeAVPs_def blankMessage_def received_def)
  show ?thesis
    by (simp add: ReadMessage_def hdr body) (simp add: received_def)
qed


lemma readHeader_ok:
  assumes "readHeader m r = (Some m', None, r')"
  shows "r' = drop 20 r \<and> 20 \<le> length r \<and> (\<exists>h. Header_ok h \<and> m' = m\<lparr>msgHeader := h\<rparr>)"
proof -
  have len: "20 \<le> length r"
    using assms by (auto simp: readHeader_def split: if_splits)
  obtain h where h: "Header_DecodeFromBytes zeroHeader (take 20 r) = (h, None)" "m' = m\<lparr>msgHeader := h\<rparr>" "r' = drop 20 r"
    using assms len by (auto simp: readHeader_def split: prod.splits if_splits)
  then have "DecodeHeader (take 20 r) = Inr h"
    by (simp add: DecodeHeader_def)
  then have "Header_ok h"
    by (simp add: DecodeHeader_ok)
  with h len show ?thesis
    by blast
qed

lemma ReadMessage_framing:
  assumes "ReadMessage dict r = (Some m, e, rest)" "\<forall>x. e \<noteq> Some (HeaderError x)" "e \<noteq> Some ReadEOF" "e \<noteq> Some ReadUnexpectedEOF"
  shows "Header_ok (msgHeader m) \<and> unat (MessageLength (msgHeader m)) \<le> length r \<and>
    rest = drop (unat (MessageLength (msgHeader m))) r"
proof -
  obtain m1 r1 where h: "readHeader (blankMessage dict) r = (Some m1, None, r1)"
    using assms by (auto simp: ReadMessage_def readHeader_def split: prod.splits option.splits if_splits)
  then obtain hd where hd: "r1 = drop 20 r" "20 \<le> length r" "Header_ok hd" "m1 = (blankMessage dict)\<lparr>msgHeader := hd\<rparr>"
    using readHeader_ok [OF h] by blast
  obtain m2 e2 r2 where b: "readBody m1 r1 = (m2, e2, r2)"
    by (cases "readBody m1 r1")
  have m: "m = m2" "rest = r2" and e2: "e2 = None \<or> e2 = e"
    using assms(1) h b by (auto simp: ReadMessage_def split: option.splits if_splits avp_error.splits)
  let ?n = "unat (MessageLength hd - of_nat 20)"
  have n: "?n = unat (MessageLength hd) - 20" "20 \<le> unat (MessageLength hd)"
    using hd(3) by (simp_all add: Header_ok_def unat_sub word_le_nat_alt)
  have "?n \<le> length r1 \<and> r2 = drop ?n r1 \<and> msgHeader m2 = hd"
    using b e2 assms(3,4) hd(4)
    by (auto simp: readBody_def Let_def Message_decodeAVPs_def split: if_splits prod.splits)
  then show ?thesis
    using hd m n by auto
qed

lemma ReadMessage_wf:
  assumes "ReadMessage dict r = (Some m, None, rest)" "DecodeErr m = None"
  shows "Message_wf dict m \<and> received dict m = m"
proof -
  obtain m1 r1 where h: "readHeader (blankMessage dict) r = (Some m1, None, r1)"
    using assms by (auto simp: ReadMessage_def readHeader_def split: prod.splits option.splits if_splits)
  then obtain hd where hd: "r1 = drop 20 r" "20 \<le> length r" "Header_ok hd" "m1 = (blankMessage dict)\<lparr>msgHeader := hd\<rparr>"
    using readHeader_ok [OF h] by blast
  let ?n = "unat (MessageLength hd - of_nat 20)" and ?app = "ApplicationID hd"
  have b: "readBody m1 r1 = (m, None, rest)"
    using assms(1) h by (auto simp: ReadMessage_def split: prod.splits option.splits if_splits avp_error.splits)
  then obtain avps un where loop: "decodeAVPs_loop dict ?app (take ?n r1) [] [] None = (avps, un, None, None)"
    and m: "m = m1\<lparr>msgAVP := avps, unknownMandatoryAVPs := un, DecodeErr := None\<rparr>"
    and max: "maxAVPsFor hd (FindCommand dict ?app (CommandCode hd)) \<noteq> 0" and n: "?n \<le> length r1"
    using assms(2) hd(4)
    by (auto simp: readBody_def Let_def Message_decodeAVPs_def blankMessage_def split: if_splits prod.splits)
  from decodeAVPs_loop_ok [OF loop] n have avps: "group_wf dict ?app 0 False avps" "group_Len avps = ?n"
    "un = unknownMandatoryMembers dict ?app avps"
    by auto
  have "?n = unat (MessageLength hd) - 20" "20 \<le> unat (MessageLength hd)"
    using hd(3) by (simp_all add: Header_ok_def unat_sub word_le_nat_alt)
  then have len: "Message_Len m = unat (MessageLength hd)"
    using avps(2) m by (simp add: Message_Len_def)
  then have "withLength hd (Message_Len m) = hd"
    by (simp add: withLength_def)
  with len show ?thesis
    using hd(3,4) m max avps
    by (simp add: Message_wf_def Header_ok_def received_def blankMessage_def)
qed


lemma preorder_members: "preorder a = a # preorderGroup (members a)"
  by (cases a rule: preorder.cases) simp_all

lemma size_tl:
  fixes a :: avp
  shows "size_list size (members a) < size_list size (a # as)" "size_list size as < size_list size (a # as)"
  using size_members [of a] by simp_all

lemma findAVPs_all:
  "findAVPs found as code vendor False = found @ filter (\<lambda>a. Code a = code \<and> VendorID a = vendor) (preorderGroup as)"
proof (induction "size_list size as" arbitrary: found as rule: less_induct)
  case less
  show ?case
  proof (cases as)
    case (Cons a rest)
    show ?thesis
      using less [of "members a"] less [of rest] size_tl [where a = a and as = rest] unfolding Cons
      by (simp add: findAVPs.simps Let_def preorder_members)
  qed (simp add: findAVPs.simps)
qed

lemma findAVPs_first:
  "findAVPs found as code vendor True = found @ take 1 (filter (\<lambda>a. Code a = code \<and> VendorID a = vendor) (preorderGroup as))"
proof (induction "size_list size as" arbitrary: found as rule: less_induct)
  case less
  show ?case
  proof (cases as)
    case (Cons a rest)
    show ?thesis
      using less [of "members a"] less [of rest] size_tl [where a = a and as = rest] unfolding Cons
      by (cases "filter (\<lambda>a. Code a = code \<and> VendorID a = vendor) (preorderGroup (members a))")
        (auto simp add: findAVPs.simps Let_def preorder_members)
  qed (simp add: findAVPs.simps)
qed

lemma unknownMandatory_iff:
  "unknownMandatoryHierarchy dict app a = None \<longleftrightarrow> (\<forall>x \<in> set (preorder a). \<not> unknownMandatory dict app x)"
  "unknownMandatoryMembers dict app as = [] \<longleftrightarrow> (\<forall>x \<in> set (preorderGroup as). \<not> unknownMandatory dict app x)"
proof (induction dict app a and dict app as rule: unknownMandatoryHierarchy_unknownMandatoryMembers.induct)
  case (1 dict app c f l v d)
  then show ?case by (simp add: unknownMandatory_def dt_Type_Unknown)
next
  case (2 dict app c f l v)
  then show ?case by (simp add: unknownMandatory_def)
next
  case (3 dict app c f l v as)
  then show ?case by (simp add: Let_def) (simp add: unknownMandatory_def)
next
  case (5 dict app a as)
  then show ?case by (auto split: option.splits)
qed simp_all

lemma writeRetry_prefix:
  assumes "writer_ok b ws" "writeRetry ws b retries done = Some (out, res)"
  shows "\<exists>n \<le> length b. out = done @ take n b \<and> (res = WriteOk \<longrightarrow> n = length b)"
  using assms
proof (induction ws b retries "done" rule: writeRetry.induct)
  case (2 wn err ws b retries "done")
  show ?case
  proof (cases "err = WriteTimeout \<and> retries \<noteq> 0")
    case False
    then show ?thesis
      using 2(2,3) by (intro exI [of _ wn]) (auto simp: Let_def split: if_splits)
  next
    case True
    have "\<exists>n \<le> length (if wn > 0 then drop wn b else b). out = (done @ take wn b) @ take n (if wn > 0 then drop wn b else b) \<and>
        (res = WriteOk \<longrightarrow> n = length (if wn > 0 then drop wn b else b))"
      using True 2(2,3) by (intro 2(1) [OF refl]) (auto simp: Let_def)
    then have "\<exists>n \<le> length (drop wn b). out = (done @ take wn b) @ take n (drop wn b) \<and> (res = WriteOk \<longrightarrow> n = length (drop wn b))"
      by (simp split: if_splits)
    then obtain n where "n \<le> length b - wn" "out = done @ take wn b @ take n (drop wn b)" "res = WriteOk \<longrightarrow> n = length b - wn"
      by auto
    then show ?thesis
      using 2(2) by (intro exI [of _ "wn + n"]) (auto simp: take_add)
  qed
qed simp

lemma group_Len_append [simp]: "group_Len (as @ bs) = group_Len as + group_Len bs"
  by (induction as) simp_all

lemma lengthOk_add: "lengthOk m \<Longrightarrow> lengthOk (Message_AddAVP m a)" "lengthOk m \<Longrightarrow> lengthOk (Message_InsertAVP m a)"
  by (simp_all add: lengthOk_def Message_AddAVP_def Message_InsertAVP_def addLength_def Message_Len_def algebra_simps)

lemma foldl_minus_of_nat:
  "foldl (\<lambda>n a. n - of_nat (AVP_Len a)) (k :: u32) as = k - of_nat (group_Len as)"
  by (induction as arbitrary: k) (simp_all add: algebra_simps)

lemma group_Len_filter: "group_Len as = group_Len (filter P as) + group_Len (filter (\<lambda>a. \<not> P a) as)"
  by (induction as) simp_all

lemma lengthOk_delete: "lengthOk m \<Longrightarrow> lengthOk (snd (Message_DeleteAVP m code vendor))"
  using group_Len_filter [of "msgAVP m" "\<lambda>a. Code a = code \<and> VendorID a = vendor"]
  by (simp add: lengthOk_def Message_DeleteAVP_def Message_Len_def Let_def foldl_minus_of_nat)

lemma NewMessage_lengthOk: "lengthOk (NewMessage cmd flags appid h e dict r1 r2)"
  by (simp add: lengthOk_def NewMessage_def Message_Len_def)

interpretation edits: step_machine editStep lengthOk
proof
  fix m i
  assume "lengthOk m"
  then show "lengthOk (fst (editStep m i))"
    by (cases i) (auto simp: lengthOk_add lengthOk_delete Message_NewAVP_def Let_def split: option.splits)
qed

interpretation msgc: framed_codec messageBytes "readResult dict" "\<lambda>m. Message_wf dict m \<and> received dict m = m" Message_Len
  for dict
proof
  fix m r
  assume "Message_wf dict m \<and> received dict m = m"
  then show "readResult dict (messageBytes m @ r) = Inr m" "length (messageBytes m) = Message_Len m"
    using length_messageBytes [OF wf_ser_ok(3)]
    by (auto simp: readResult_def ReadMessage_bytes Message_wf_def)
qed (simp add: Message_Len_def)

section \<open>Answers\<close>

lemma addEcho_fields:
  "msgAVP (addEcho nm a) = msgAVP nm @ [cloneEchoAVP a]" "lengthOk nm \<Longrightarrow> lengthOk (addEcho nm a)"
  "(msgHeader (addEcho nm a))\<lparr>MessageLength := x\<rparr> = (msgHeader nm)\<lparr>MessageLength := x\<rparr>"
  using lengthOk_add(1) [of nm "cloneEchoAVP a"]
  by (simp_all add: addEcho_def Let_def Message_AddAVP_def addLength_def lengthOk_def Message_Len_def split: sum.splits)

lemma addEchoes_fields:
  "msgAVP (foldl addEcho nm as) = msgAVP nm @ map cloneEchoAVP as"
  "lengthOk nm \<Longrightarrow> lengthOk (foldl addEcho nm as)"
  "(msgHeader (foldl addEcho nm as))\<lparr>MessageLength := x\<rparr> = (msgHeader nm)\<lparr>MessageLength := x\<rparr>"
  by (induction as arbitrary: nm) (simp_all add: addEcho_fields)

section \<open>Properties of messages\<close>

lemma plainMessage_wf: "Message_wf sampleDict plainMessage" "Message_Len plainMessage = 56"
  by (simp_all add: plainMessage_def Message_wf_def NewMessage_def Message_AddAVP_def addLength_def sample_defs pad4_eq
      Message_Len_def MaxMessageLength_def maxAVPsFor_def FindCommand_def unknownCommandAVPCap_def)

text \<open>C1. A well-formed message written through any conforming writer, with retries after timeouts and
  from a buffer of any previous contents, is read back as the same message: whenever the write
  reports success, the receiver reads the header (with the true length), the AVPs and the unknown
  mandatory AVPs, and is left at the start of the next message.\<close>

theorem Message_roundtrip:
  assumes "Message_wf dict m" "Message_Len m \<le> length buf" "writer_ok (messageBytes m) ws"
    "WriteToStreamWithRetry m buf ws retries = Inr (Some (out, WriteOk))"
  shows "ReadMessage dict (out @ rest) = (Some (received dict m), None, rest)"
proof -
  have ok: "ser_ok_group (msgAVP m)"
    using assms(1) wf_ser_ok(3) unfolding Message_wf_def by blast
  have "serializeTo m (take (Message_Len m) buf) (Message_Len m) = Inr (messageBytes m)"
    using serializeTo_bytes [OF ok refl, of "take (Message_Len m) buf"] assms(2) by simp
  then have "writeRetry ws (messageBytes m) retries [] = Some (out, WriteOk)"
    using assms(4) by (simp add: WriteToStreamWithRetry_def Message_wf_header(3) [OF assms(1)])
  then have "out = messageBytes m"
    using writeRetry_prefix [OF assms(3)] by fastforce
  then show ?thesis
    using ReadMessage_bytes [OF assms(1)] by simp
qed

theorem Message_roundtrip_witness:
  "\<exists>out. WriteToStreamWithRetry plainMessage (replicate 1024 170) [(10, WriteTimeout), (46, WriteOk)] 1 = Inr (Some (out, WriteOk)) \<and>
    ReadMessage sampleDict (out @ [1]) = (Some (received sampleDict plainMessage), None, [1])"
proof -
  have ok: "ser_ok_group (msgAVP plainMessage)"
    using plainMessage_wf(1) wf_ser_ok(3) unfolding Message_wf_def by blast
  have len: "length (messageBytes plainMessage) = 56"
    using length_messageBytes [OF ok] plainMessage_wf(2) by simp
  have "serializeTo plainMessage (take 56 (replicate 1024 170)) 56 = Inr (messageBytes plainMessage)"
    using serializeTo_bytes [OF ok, of 56 "replicate 56 170"] plainMessage_wf(2) by simp
  then have w: "WriteToStreamWithRetry plainMessage (replicate 1024 170) [(10, WriteTimeout), (46, WriteOk)] 1 =
      Inr (Some (take 10 (messageBytes plainMessage) @ take 46 (drop 10 (messageBytes plainMessage)), WriteOk))"
    using Message_wf_header(3) [OF plainMessage_wf(1)]
    by (simp add: WriteToStreamWithRetry_def plainMessage_wf(2) Let_def)
  have ok': "writer_ok (messageBytes plainMessage) [(10, WriteTimeout), (46, WriteOk)]"
    and len': "Message_Len plainMessage \<le> length (replicate 1024 170)"
    using len plainMessage_wf(2) by simp_all
  show ?thesis
    using w Message_roundtrip [OF plainMessage_wf(1) len' ok' w, of "[1]"] by blast
qed

text \<open>C28. A message that was read without any decoding error serialises again, and the result reads
  back as the identical message.\<close>

theorem read_serialize_stable:
  assumes "ReadMessage dict r = (Some m, None, rest)" "DecodeErr m = None"
  shows "\<exists>w. Message_Serialize m = Inr w \<and> length w = unat (MessageLength (msgHeader m)) \<and>
    ReadMessage dict (w @ rest) = (Some m, None, rest)"
proof -
  have wf: "Message_wf dict m" and rec: "received dict m = m"
    using ReadMessage_wf [OF assms] by simp_all
  have ok: "ser_ok_group (msgAVP m)"
    using wf wf_ser_ok(3) unfolding Message_wf_def by blast
  have "Message_Serialize m = Inr (messageBytes m)"
    using serializeTo_bytes [OF ok refl, of "replicate (Message_Len m) 0"]
    by (simp add: Message_Serialize_def Message_wf_header(3) [OF wf])
  moreover have "unat (MessageLength (msgHeader m)) = Message_Len m"
    using rec Message_wf_header(2) [OF wf] by (metis Message.select_convs(1) received_def withLength_simps(4))
  ultimately show ?thesis
    using ReadMessage_bytes [OF wf] length_messageBytes [OF ok] rec by simp
qed

theorem read_serialize_stable_witness:
  "\<exists>w. Message_Serialize (received sampleDict plainMessage) = Inr w \<and> length w = 56"
proof -
  have "ReadMessage sampleDict (messageBytes plainMessage @ []) = (Some (received sampleDict plainMessage), None, [])"
    by (rule ReadMessage_bytes [OF plainMessage_wf(1)])
  moreover have "DecodeErr (received sampleDict plainMessage) = None"
    "unat (MessageLength (msgHeader (received sampleDict plainMessage))) = 56"
    using Message_wf_header(2) [OF plainMessage_wf(1)] plainMessage_wf(2) by (simp_all add: received_def)
  ultimately show ?thesis
    using read_serialize_stable [of sampleDict "messageBytes plainMessage @ []"] by auto
qed

text \<open>Reading keeps message boundaries: unless the header itself is refused or the stream ends,
  every outcome - also an invalid AVP, an undefined command or a strict decoding failure - consumes
  exactly the length the header announces.\<close>

lemma read_keeps_boundary:
  assumes "ReadMessage dict r = (Some m, e, rest)"
    "\<forall>x. e \<noteq> Some (HeaderError x)" "e \<noteq> Some ReadEOF" "e \<noteq> Some ReadUnexpectedEOF"
  shows "Header_ok (msgHeader m) \<and> unat (MessageLength (msgHeader m)) \<le> length r \<and>
    rest = drop (unat (MessageLength (msgHeader m))) r"
  using assms by (rule ReadMessage_framing)



text \<open>\<open>FindAVPs\<close> returns exactly the matching AVPs of the depth-first walk of the message, and
  \<open>FindAVP\<close> the first of them; a miss is reported exactly when there is none.\<close>

lemma FindAVP_preorder:
  "Message_FindAVPs m code vendor =
     (let hits = filter (\<lambda>a. Code a = code \<and> VendorID a = vendor) (preorderGroup (msgAVP m))
      in if hits = [] then None else Some hits) \<and>
   Message_FindAVP m code vendor =
     find (\<lambda>a. Code a = code \<and> VendorID a = vendor) (preorderGroup (msgAVP m))"
proof -
  have "find P xs = (if filter P xs = [] then None else Some (hd (take 1 (filter P xs))))" for P and xs :: "avp list"
    by (induction xs) simp_all
  then show ?thesis
    by (simp add: Message_FindAVPs_def Message_FindAVP_def findAVPs_all findAVPs_first Let_def)
qed


lemma Answer_fields:
  "msgAVP (Answer m rc) =
     (if rc \<noteq> 0 then [NewAVP ResultCode Mbit 0 (Typ (Unsigned32 rc))] else []) @
     map cloneEchoAVP (filter (\<lambda>a. Code a = ProxyInfo \<and> VendorID a = 0) (msgAVP m)) \<and>
   msgHeader (Answer m rc) = (msgHeader m)\<lparr>Version := 1, MessageLength := of_nat (Message_Len (Answer m rc)),
     CommandFlags := (CommandFlags (msgHeader m) AND ProxiableFlag) OR (if 3000 \<le> rc \<and> rc < 4000 then ErrorFlag else 0)\<rparr> \<and>
   stream (Answer m rc) = stream m"
proof -
  let ?h = "msgHeader m"
  let ?flags = "(CommandFlags ?h AND ProxiableFlag) OR (if 3000 \<le> rc \<and> rc < 4000 then ErrorFlag else 0)"
  let ?m0 = "NewMessage (CommandCode ?h) (CommandFlags ?h AND ProxiableFlag) (ApplicationID ?h) (HopByHopID ?h) (EndToEndID ?h) (dictionary m) 0 0"
  let ?m1 = "?m0\<lparr>msgHeader := (msgHeader ?m0)\<lparr>HopByHopID := HopByHopID ?h, EndToEndID := EndToEndID ?h\<rparr>\<rparr>"
  let ?m2 = "if 3000 \<le> rc \<and> rc < 4000 then ?m1\<lparr>msgHeader := (msgHeader ?m1)\<lparr>CommandFlags := CommandFlags (msgHeader ?m1) OR ErrorFlag\<rparr>\<rparr> else ?m1"
  let ?m3 = "if rc \<noteq> 0 then Message_AddAVP ?m2 (NewAVP ResultCode Mbit 0 (Typ (Unsigned32 rc))) else ?m2"
  let ?px = "filter (\<lambda>a. Code a = ProxyInfo \<and> VendorID a = 0) (msgAVP m)"
  have ans: "Answer m rc = (foldl addEcho ?m3 ?px)\<lparr>stream := stream m\<rparr>"
    by (simp only: Answer_def Let_def)
  have ok: "lengthOk ?m3"
    by (simp add: lengthOk_def NewMessage_def Message_Len_def Message_AddAVP_def addLength_def)
  have "MessageLength (msgHeader (Answer m rc)) = of_nat (Message_Len (Answer m rc))"
    using addEchoes_fields(2) [OF ok, of ?px] by (simp add: ans lengthOk_def Message_Len_def)
  moreover have "(msgHeader (Answer m rc))\<lparr>MessageLength := x\<rparr> = ?h\<lparr>Version := 1, MessageLength := x, CommandFlags := ?flags\<rparr>" for x
    by (simp add: ans addEchoes_fields(3)) (simp add: NewMessage_def Message_AddAVP_def addLength_def)
  ultimately have "msgHeader (Answer m rc) = ?h\<lparr>Version := 1, MessageLength := of_nat (Message_Len (Answer m rc)), CommandFlags := ?flags\<rparr>"
    by (metis Header.surjective Header.update_convs(2) Header.select_convs(2))
  moreover have "msgAVP (Answer m rc) = (if rc \<noteq> 0 then [NewAVP ResultCode Mbit 0 (Typ (Unsigned32 rc))] else []) @ map cloneEchoAVP ?px"
    by (simp add: ans addEchoes_fields(1)) (simp add: NewMessage_def Message_AddAVP_def addLength_def)
  ultimately show ?thesis
    by (simp add: ans)
qed


text \<open>Whatever sequence of additions, insertions and deletions builds a message, its length field
  is the serialised length (modulo the width of the field).\<close>

lemma edits_keep_length:
  "lengthOk (fst (run editStep (NewMessage cmd flags appid h e dict r1 r2) es))"
  by (rule edits.run_inv) (rule NewMessage_lengthOk)

end
