(* ===== verification/Validation.thy ===== *)
theory Validation
  imports Message
begin

text \<open>
  The grammar checks of \<open>src/diam/validation.go\<close>: a message, and every known Grouped AVP in it, against
  the rules of its command, and the flag rules for messages about to be sent. The reason texts of the
  errors are left out. AVPs are values, so there are no nil AVPs and no cyclic groups to report, and
  an AVP equal to an echoed Proxy-Info counts as echoed.
\<close>

section \<open>Errors and rules\<close>

datatype ValidationError = ValidationError (vResultCode: u32) (vFailedAVP: "avp option")

definition MissingAVP :: u32 where "MissingAVP = 5005"
definition AVPNotAllowed :: u32 where "AVPNotAllowed = 5008"
definition AVPOccursTooManyTimes :: u32 where "AVPOccursTooManyTimes = 5009"
definition InvalidHDRBits :: u32 where "InvalidHDRBits = 3008"
definition InvalidAVPBits :: u32 where "InvalidAVPBits = 3009"
definition CommandUnsupported :: u32 where "CommandUnsupported = 3001"

definition DestinationHost :: u32 where "DestinationHost = 293"
definition DestinationRealm :: u32 where "DestinationRealm = 283"
definition AuthApplicationID :: u32 where "AuthApplicationID = 258"
definition AcctApplicationID :: u32 where "AcctApplicationID = 259"
definition VendorSpecificApplicationID :: u32 where "VendorSpecificApplicationID = 260"

datatype validationKey = VKey u32 u32

datatype validationRule = VRule (vrRule: Rule) (vrDefinition: dictAVP)

definition avpKey :: "avp \<Rightarrow> validationKey" where "avpKey a = VKey (Code a) (VendorID a)"
definition defKey :: "dictAVP \<Rightarrow> validationKey" where "defKey d = VKey (avpCode d) (avpVendorID d)"

abbreviation entryKey :: "validationRule \<Rightarrow> validationKey" where
  "entryKey e \<equiv> defKey (vrDefinition e)"

definition simpleRule :: "string \<Rightarrow> bool \<Rightarrow> bool \<Rightarrow> bool \<Rightarrow> Rule" where
  "simpleRule name required one fixed =
     \<lparr>ruleMustNot = [], ruleAVP = name, ruleRequired = required, ruleMin = 0, ruleMax = (if one then 1 else 0),
      ruleMaxSet = one, ruleFixed = fixed\<rparr>"

definition genericErrorRules :: "Rule list" where
  "genericErrorRules =
     [simpleRule ''Session-Id'' False True True,
      simpleRule ''Origin-Host'' True True False,
      simpleRule ''Origin-Realm'' True True False,
      simpleRule ''Result-Code'' True True False,
      simpleRule ''Origin-State-Id'' False True False,
      simpleRule ''Error-Message'' False True False,
      simpleRule ''Error-Reporting-Host'' False True False,
      simpleRule ''Failed-AVP'' False True False,
      simpleRule ''Experimental-Result'' False True False,
      simpleRule ''Proxy-Info'' False False False,
      simpleRule ''AVP'' False False False]"

definition hasMaximum :: "Rule \<Rightarrow> bool" where
  "hasMaximum rule \<longleftrightarrow> ruleMaxSet rule \<or> ruleMax rule > 0"

definition minimumCount :: "Rule \<Rightarrow> nat" where
  "minimumCount rule = (if ruleMin rule > 0 then nat (ruleMin rule) else if ruleRequired rule then 1 else 0)"

fun flagChars :: "char \<Rightarrow> bool \<Rightarrow> string \<Rightarrow> bool option" where
  "flagChars flag found [] = Some found"
| "flagChars flag found (c # cs) =
     (if c \<noteq> CHR ''M'' \<and> c \<noteq> CHR ''V'' \<and> c \<noteq> CHR ''P'' then None else flagChars flag (found \<or> c = flag) cs)"

fun flagItems :: "char \<Rightarrow> bool \<Rightarrow> string list \<Rightarrow> bool" where
  "flagItems flag found [] = found"
| "flagItems flag found (i # is) =
     (let item = TrimSpace i
      in if item = [] \<or> item = ''-'' then flagItems flag found is
         else case flagChars flag found item of
             None \<Rightarrow> False
           | Some f \<Rightarrow> flagItems flag f is)"

definition flagListed :: "string \<Rightarrow> char \<Rightarrow> bool" where
  "flagListed list flag \<longleftrightarrow>
     (if flag \<noteq> CHR ''M'' \<and> flag \<noteq> CHR ''V'' \<and> flag \<noteq> CHR ''P'' then False
      else flagItems flag False (splitComma [] list))"

definition requiredFlags :: "dictAVP \<Rightarrow> byte" where
  "requiredFlags d =
     (if flagListed (avpMust d) CHR ''M'' then Mbit else 0) OR
     (if flagListed (avpMust d) CHR ''P'' then Pbit else 0) OR
     (if avpVendorID d \<noteq> 0 \<or> flagListed (avpMust d) CHR ''V'' then Vbit else 0)"

definition invalidAVPFlags :: "byte \<Rightarrow> dictAVP \<Rightarrow> bool" where
  "invalidAVPFlags flags d \<longleftrightarrow> (flags AND Vbit \<noteq> 0) \<noteq> (avpVendorID d \<noteq> 0)"

definition isEchoedProxy :: "avp \<Rightarrow> (avp \<times> bytes) list \<Rightarrow> bool" where
  "isEchoedProxy a echoes \<longleftrightarrow>
     (if Code a \<noteq> ProxyInfo \<or> VendorID a \<noteq> 0 then False
      else case map_of echoes a of
          None \<Rightarrow> False
        | Some echoed \<Rightarrow> AVP_Serialize a = Inr echoed)"

section \<open>Examples of missing AVPs\<close>

definition dictKeys :: "Snapshot \<Rightarrow> validationKey set" where
  "dictKeys dict = set (map (\<lambda>e. defKey (snd e)) (avpcode dict))"

lemma FindAVPByName_key: "FindAVPByName dict app n = Some d \<Longrightarrow> defKey d \<in> dictKeys dict"
  by (auto simp: FindAVPByName_def lookupAVP_def dictKeys_def Let_def image_iff split: option.splits if_splits
      dest!: map_of_SomeD) (metis snd_conv)+

text \<open>A Grouped definition met again below itself gives an empty group.\<close>

function missingAVPExample :: "dictAVP \<Rightarrow> u32 \<Rightarrow> Snapshot \<Rightarrow> validationKey list \<Rightarrow> avp" where
  "missingAVPExample d app dict seen =
     (if dataType (avpData d) = GroupedType then
        NewAVP (avpCode d) (requiredFlags d) (avpVendorID d)
          (GroupedAVP
            (if defKey d \<in> set seen then []
             else concat (map (\<lambda>rule.
                    if ruleAVP rule = ''AVP'' then []
                    else case FindAVPByName dict app (ruleAVP rule) of
                        None \<Rightarrow> []
                      | Some child \<Rightarrow>
                          replicate (minimumCount rule) (missingAVPExample child app dict (defKey d # seen)))
                  (dataRule (avpData d)))))
      else
        NewAVP (avpCode d) (requiredFlags d) (avpVendorID d)
          (Typ (Unknown (replicate (minimumAVPPayloadLength (dataType (avpData d))) 0))))"
  by pat_completeness auto
termination
proof (relation "measure (\<lambda>(d, app, dict, seen).
    card (dictKeys dict - set seen) + (if defKey d \<in> dictKeys dict then 0 else 1))")
  fix d app dict seen rule child
  assume *: "defKey d \<notin> set seen" "FindAVPByName dict app (ruleAVP rule) = Some child"
  have fin: "finite (dictKeys dict)" by (simp add: dictKeys_def)
  have "card (dictKeys dict - set (defKey d # seen)) + (if defKey d \<in> dictKeys dict then 1 else 0) \<le>
      card (dictKeys dict - set seen)"
  proof (cases "defKey d \<in> dictKeys dict")
    case True
    have "dictKeys dict - set (defKey d # seen) \<subset> dictKeys dict - set seen"
      using True *(1) by auto
    then show ?thesis using psubset_card_mono [of "dictKeys dict - set seen"] fin True by force
  next
    case False
    then show ?thesis by (auto intro!: card_mono simp: fin)
  qed
  then show "((child, app, dict, defKey d # seen), (d, app, dict, seen)) \<in> measure (\<lambda>(d, app, dict, seen).
    card (dictKeys dict - set seen) + (if defKey d \<in> dictKeys dict then 0 else 1))"
    using FindAVPByName_key [OF *(2)] by (auto split: if_splits)
qed simp

declare missingAVPExample.simps [simp del]

definition missing :: "validationRule \<Rightarrow> u32 \<Rightarrow> Snapshot \<Rightarrow> ValidationError" where
  "missing e app dict = ValidationError MissingAVP (Some (missingAVPExample (vrDefinition e) app dict []))"

section \<open>The walk over one list of AVPs\<close>

definition orderedRules :: "Rule list \<Rightarrow> u32 \<Rightarrow> Snapshot \<Rightarrow> validationRule list" where
  "orderedRules rules app dict =
     concat (map (\<lambda>rule. if ruleAVP rule = ''AVP'' then []
                     else case FindAVPByName dict app (ruleAVP rule) of None \<Rightarrow> [] | Some d \<Rightarrow> [VRule rule d]) rules)"

definition wildcardRule :: "Rule list \<Rightarrow> Rule option" where
  "wildcardRule rules = find (\<lambda>rule. ruleAVP rule = ''AVP'') (rev rules)"

text \<open>\<open>byKey\<close>: a later rule for the same AVP replaces an earlier one.\<close>

definition byKey :: "validationRule list \<Rightarrow> validationKey \<Rightarrow> validationRule option" where
  "byKey ordered key = find (\<lambda>e. entryKey e = key) (rev ordered)"

record vState =
  counts :: "validationKey \<Rightarrow> nat"
  extensionCount :: nat
  extensionMinimumCount :: nat
  fixedIndex :: nat
  fixedClosed :: bool

definition vInit :: vState where
  "vInit = \<lparr>counts = (\<lambda>_. 0), extensionCount = 0, extensionMinimumCount = 0, fixedIndex = 0, fixedClosed = False\<rparr>"

definition excess :: "int \<Rightarrow> avp \<Rightarrow> ValidationError" where
  "excess mx a = ValidationError (if mx = 0 then AVPNotAllowed else AVPOccursTooManyTimes) (Some a)"

text \<open>The inner loop that moves \<open>fixedIndex\<close> to the rule of the AVP; \<open>None\<close> if a required fixed AVP
  before it has not been seen.\<close>

fun advanceFixed :: "validationRule list \<Rightarrow> (validationKey \<Rightarrow> nat) \<Rightarrow> validationKey \<Rightarrow> nat \<Rightarrow> nat option" where
  "advanceFixed [] cnt key i = Some i"
| "advanceFixed (c # cs) cnt key i =
     (if \<not> ruleFixed (vrRule c) then advanceFixed cs cnt key (i + 1)
      else if entryKey c = key then Some i
      else if cnt (entryKey c) < minimumCount (vrRule c) then None
      else advanceFixed cs cnt key (i + 1))"

definition placeFixed :: "validationRule list \<Rightarrow> validationRule \<Rightarrow> avp \<Rightarrow> vState \<Rightarrow> ValidationError + vState" where
  "placeFixed ordered e a st =
     (let mx = (if hasMaximum (vrRule e) then ruleMax (vrRule e) else 1);
          n = counts st (avpKey a)
      in if int n \<ge> mx then Inl (excess mx a)
         else if fixedClosed st then Inl (ValidationError AVPNotAllowed (Some a))
         else case advanceFixed (drop (fixedIndex st) ordered) (counts st) (avpKey a) (fixedIndex st) of
             None \<Rightarrow> Inl (ValidationError AVPNotAllowed (Some a))
           | Some i \<Rightarrow>
               if i \<ge> length ordered \<or> entryKey (ordered ! i) \<noteq> avpKey a
               then Inl (ValidationError AVPNotAllowed (Some a))
               else Inr (st\<lparr>fixedIndex := (if int n + 1 \<ge> mx then i + 1 else i)\<rparr>))"

text \<open>The checks on one AVP before its contents; the flag is False for the AVPs the loop skips.\<close>

definition placeAVP :: "validationRule list \<Rightarrow> Rule option \<Rightarrow> u32 \<Rightarrow> Snapshot \<Rightarrow> (avp \<times> bytes) list \<Rightarrow> avp \<Rightarrow>
    vState \<Rightarrow> ValidationError + (vState \<times> bool)" where
  "placeAVP ordered wildcard app dict echoes a st =
     (let key = avpKey a; entry = byKey ordered key; def = FindAVP dict app (Code a) (VendorID a)
      in if (case def of Some d \<Rightarrow> \<not> isEchoedProxy a echoes \<and> invalidAVPFlags (Flags a) d | None \<Rightarrow> False)
         then Inl (ValidationError InvalidAVPBits (Some a))
         else if entry = None \<and> wildcard = None \<and> def \<noteq> None then Inl (ValidationError AVPNotAllowed (Some a))
         else
           let st = (if entry = None \<and> wildcard \<noteq> None
                     then st\<lparr>extensionMinimumCount := extensionMinimumCount st + 1\<rparr> else st)
           in if entry = None \<and> def = None then Inr (st, False)
              else case entry of
                  None \<Rightarrow>
                    (let st = st\<lparr>extensionCount := extensionCount st + 1\<rparr>
                     in case wildcard of
                          Some w \<Rightarrow>
                            if hasMaximum w \<and> int (extensionCount st) > ruleMax w then Inl (excess (ruleMax w) a)
                            else Inr (st\<lparr>fixedClosed := True, counts := (counts st)(key := counts st key + 1)\<rparr>, True)
                        | None \<Rightarrow> Inr (st, True))
                | Some e \<Rightarrow>
                    (case (if ruleFixed (vrRule e) then placeFixed ordered e a st
                           else Inr (st\<lparr>fixedClosed := True\<rparr>)) of
                       Inl err \<Rightarrow> Inl err
                     | Inr st \<Rightarrow>
                         (let n = counts st key + 1; st = st\<lparr>counts := (counts st)(key := n)\<rparr>
                          in if hasMaximum (vrRule e) \<and> int n > ruleMax (vrRule e)
                             then Inl (excess (ruleMax (vrRule e)) a)
                             else Inr (st, True))))"

definition validateFailedEvidence :: "avp \<Rightarrow> ValidationError option" where
  "validateFailedEvidence a =
     (case Data a of
        Some (GroupedAVP as) \<Rightarrow> if as = [] then Some (ValidationError MissingAVP (Some a)) else None
      | _ \<Rightarrow> Some (ValidationError InvalidAVPValue (Some a)))"

definition isApplicationID :: "avp \<Rightarrow> bool" where
  "isApplicationID a \<longleftrightarrow> VendorID a = 0 \<and> (Code a = AuthApplicationID \<or> Code a = AcctApplicationID)"

definition validateVendorApplicationChoice :: "avp \<Rightarrow> avp list \<Rightarrow> ValidationError option" where
  "validateVendorApplicationChoice parent children =
     (let choices = filter isApplicationID children
      in if length choices = 1 then None
         else Some
           (if choices = []
            then ValidationError MissingAVP (Some (newAVPWithFlags (Code parent) (Flags parent) (VendorID parent) (GroupedAVP
                   [NewAVP AuthApplicationID Mbit 0 (Typ (Unknown (replicate 4 0))),
                    NewAVP AcctApplicationID Mbit 0 (Typ (Unknown (replicate 4 0)))])))
            else ValidationError AVPOccursTooManyTimes
                   (Some (newAVPWithFlags (Code parent) (Flags parent) (VendorID parent) (GroupedAVP choices)))))"

definition wrapChild :: "avp \<Rightarrow> ValidationError \<Rightarrow> ValidationError" where
  "wrapChild a e = ValidationError (vResultCode e) (Some (newAVPWithFlags (Code a) (Flags a) (VendorID a)
     (GroupedAVP (case vFailedAVP e of None \<Rightarrow> [] | Some f \<Rightarrow> [f]))))"

definition fixedMissing :: "avp list \<Rightarrow> validationRule list \<Rightarrow> validationRule option" where
  "fixedMissing items ordered =
     find (\<lambda>e. ruleFixed (vrRule e) \<and> count_list (map avpKey items) (entryKey e) < minimumCount (vrRule e)) ordered"

definition finalCheck :: "validationRule list \<Rightarrow> Rule option \<Rightarrow> u32 \<Rightarrow> Snapshot \<Rightarrow> vState \<Rightarrow> ValidationError option" where
  "finalCheck ordered wildcard app dict st =
     (case find (\<lambda>e. counts st (entryKey e) < minimumCount (vrRule e)) ordered of
        Some e \<Rightarrow> Some (missing e app dict)
      | None \<Rightarrow>
          (case wildcard of
             Some w \<Rightarrow> if extensionMinimumCount st < minimumCount w then Some (ValidationError MissingAVP None) else None
           | None \<Rightarrow> None))"

text \<open>The rules that apply inside an AVP: those of a known Grouped definition that has some.\<close>

definition groupRules :: "Snapshot \<Rightarrow> u32 \<Rightarrow> avp \<Rightarrow> (dictAVP \<times> Rule list) option" where
  "groupRules dict app a =
     (case FindAVP dict app (Code a) (VendorID a) of
        Some d \<Rightarrow> if dataType (avpData d) = GroupedType \<and> dataRule (avpData d) \<noteq> [] then Some (d, dataRule (avpData d)) else None
      | None \<Rightarrow> None)"

definition isVSAI :: "dictAVP \<Rightarrow> bool" where
  "isVSAI d \<longleftrightarrow> avpCode d = VendorSpecificApplicationID \<and> avpVendorID d = 0"

abbreviation isFailedAVP :: "avp \<Rightarrow> bool" where
  "isFailedAVP a \<equiv> Code a = FailedAVP \<and> VendorID a = 0"

lemma size_Data: "Data a = Some (GroupedAVP as) \<Longrightarrow> size_list size as + 1 < size a"
  by (cases a) simp

function (sequential) validateAVPs :: "avp list \<Rightarrow> Rule list \<Rightarrow> u32 \<Rightarrow> Snapshot \<Rightarrow> (avp \<times> bytes) list \<Rightarrow> ValidationError option"
  and validateItems :: "avp list \<Rightarrow> validationRule list \<Rightarrow> Rule option \<Rightarrow> u32 \<Rightarrow> Snapshot \<Rightarrow> (avp \<times> bytes) list \<Rightarrow>
     vState \<Rightarrow> ValidationError + vState"
  and validateContents :: "avp \<Rightarrow> u32 \<Rightarrow> Snapshot \<Rightarrow> ValidationError option" where
  "validateAVPs items rules app dict echoes =
     (let ordered = orderedRules rules app dict; wildcard = wildcardRule rules
      in case fixedMissing items ordered of
          Some e \<Rightarrow> Some (missing e app dict)
        | None \<Rightarrow>
            (case validateItems items ordered wildcard app dict echoes vInit of
               Inl e \<Rightarrow> Some e
             | Inr st \<Rightarrow> finalCheck ordered wildcard app dict st))"
| "validateItems [] ordered wildcard app dict echoes st = Inr st"
| "validateItems (a # as) ordered wildcard app dict echoes st =
     (case placeAVP ordered wildcard app dict echoes a st of
        Inl e \<Rightarrow> Inl e
      | Inr (st, False) \<Rightarrow> validateItems as ordered wildcard app dict echoes st
      | Inr (st, True) \<Rightarrow>
          (case (if isEchoedProxy a echoes then None else validateContents a app dict) of
             Some e \<Rightarrow> Inl e
           | None \<Rightarrow> validateItems as ordered wildcard app dict echoes st))"
| "validateContents a app dict =
     (if isFailedAVP a then validateFailedEvidence a
      else case groupRules dict app a of
          None \<Rightarrow> None
        | Some (d, rules) \<Rightarrow>
            (case Data a of
               Some (GroupedAVP as) \<Rightarrow>
                 (case validateAVPs as rules app dict [] of
                    Some e \<Rightarrow> Some (wrapChild a e)
                  | None \<Rightarrow> if isVSAI d then validateVendorApplicationChoice a as else None)
             | _ \<Rightarrow> None))"
  by pat_completeness auto
termination
proof (relation "measure (\<lambda>x. case x of Inl (items, _) \<Rightarrow> 3 * size_list size items + 1
    | Inr (Inl (items, _)) \<Rightarrow> 3 * size_list size items
    | Inr (Inr (a, _)) \<Rightarrow> 3 * size a)")
qed (auto dest: size_Data)


declare validateAVPs.simps [simp del] validateItems.simps(2) [simp del] validateContents.simps [simp del]

section \<open>Flags of messages to be sent\<close>

definition ruleApplies :: "Snapshot \<Rightarrow> u32 \<Rightarrow> avp \<Rightarrow> Rule \<Rightarrow> bool" where
  "ruleApplies dict app a rule \<longleftrightarrow>
     ruleMustNot rule \<noteq> [] \<and>
     (ruleAVP rule = ''AVP'' \<or>
      (case FindAVPByName dict app (ruleAVP rule) of
         None \<Rightarrow> False
       | Some m \<Rightarrow> avpCode m = Code a \<and> avpVendorID m = VendorID a))"

definition outgoingFlagsInvalid :: "Snapshot \<Rightarrow> u32 \<Rightarrow> Rule list \<Rightarrow> avp \<Rightarrow> bool" where
  "outgoingFlagsInvalid dict app rules a \<longleftrightarrow>
     (let bad = (\<lambda>must mustNot. list_ex (\<lambda>(name, bit).
            (Flags a AND bit \<noteq> 0) \<and> flagListed mustNot name \<or> \<not> (Flags a AND bit \<noteq> 0) \<and> flagListed must name)
            [(CHR ''M'', Mbit), (CHR ''P'', Pbit)])
      in Flags a AND 0x1f \<noteq> 0 \<or> (Flags a AND Vbit \<noteq> 0) \<noteq> (VendorID a \<noteq> 0) \<or>
         (case FindAVP dict app (Code a) (VendorID a) of
            None \<Rightarrow> False
          | Some d \<Rightarrow> bad (avpMust d) (avpMustNot d)) \<or>
         list_ex (\<lambda>rule. ruleApplies dict app a rule \<and> bad [] (ruleMustNot rule)) rules)"

definition withPayload :: "avp \<Rightarrow> payload \<Rightarrow> avp" where
  "withPayload a p = AVP (Code a) (Flags a) (Length a) (VendorID a) (Some p)"

definition outgoingParent :: "avp \<Rightarrow> ValidationError \<Rightarrow> ValidationError" where
  "outgoingParent a e = ValidationError (vResultCode e)
     (Some (case vFailedAVP e of None \<Rightarrow> a | Some f \<Rightarrow> withPayload a (GroupedAVP [f])))"

function (sequential) walkOutgoingFlags :: "avp list \<Rightarrow> u32 \<Rightarrow> Snapshot \<Rightarrow> Rule list \<Rightarrow> (avp \<times> bytes) list \<Rightarrow> ValidationError option" where
  "walkOutgoingFlags [] app dict rules echoes = None"
| "walkOutgoingFlags (a # as) app dict rules echoes =
     (case (if isEchoedProxy a echoes then None
            else if outgoingFlagsInvalid dict app rules a then Some (ValidationError InvalidAVPBits (Some a))
            else if isFailedAVP a then validateFailedEvidence a
            else case Data a of
                Some (GroupedAVP gs) \<Rightarrow>
                  map_option (outgoingParent a) (walkOutgoingFlags gs app dict
                    (case FindAVP dict app (Code a) (VendorID a) of None \<Rightarrow> [] | Some d \<Rightarrow> dataRule (avpData d)) [])
              | _ \<Rightarrow> None) of
        Some e \<Rightarrow> Some e
      | None \<Rightarrow> walkOutgoingFlags as app dict rules echoes)"
  by pat_completeness auto
termination
  by (relation "measure (\<lambda>(items, _). size_list size items)") (auto dest: size_Data)

declare walkOutgoingFlags.simps(2) [simp del]

definition outgoingCommandRules :: "Header \<Rightarrow> Snapshot \<Rightarrow> Rule list" where
  "outgoingCommandRules h dict =
     (if CommandFlags h AND ErrorFlag \<noteq> 0 then genericErrorRules
      else case FindCommand dict (ApplicationID h) (CommandCode h) of
          None \<Rightarrow> []
        | Some c \<Rightarrow> if CommandFlags h AND RequestFlag \<noteq> 0 then cmdRules (cmdRequest c) else cmdRules (cmdAnswer c))"

section \<open>Messages\<close>

definition isResultCode :: "avp \<Rightarrow> bool" where
  "isResultCode a \<longleftrightarrow> Code a = ResultCode \<and> VendorID a = 0"

text \<open>The first Result-Code AVP decides; \<open>None\<close> if there is none or it is not an Unsigned32.\<close>

definition resultCode :: "avp list \<Rightarrow> u32 option" where
  "resultCode items =
     (case find isResultCode items of
        Some a \<Rightarrow> (case Data a of Some (Typ (Unsigned32 v)) \<Rightarrow> Some v | _ \<Rightarrow> None)
      | None \<Rightarrow> None)"

definition errorAnswer :: "avp list \<Rightarrow> bool" where
  "errorAnswer items \<longleftrightarrow> (case resultCode items of Some v \<Rightarrow> 3000 \<le> v \<and> v < 6000 | None \<Rightarrow> False)"

definition optionalSession :: "Rule list \<Rightarrow> Rule list" where
  "optionalSession rules =
     map (\<lambda>rule. if ruleAVP rule = ''Session-Id'' then rule\<lparr>ruleRequired := False, ruleMin := 0\<rparr> else rule) rules"

definition invalidCommandFlags :: "bool \<Rightarrow> byte \<Rightarrow> bool" where
  "invalidCommandFlags outgoing f \<longleftrightarrow>
     outgoing \<and> f AND 0x0f \<noteq> 0 \<or> f AND RequestFlag \<noteq> 0 \<and> f AND ErrorFlag \<noteq> 0 \<or>
     f AND RequestFlag = 0 \<and> f AND RetransmittedFlag \<noteq> 0"

definition validResult :: "bool \<Rightarrow> avp list \<Rightarrow> bool" where
  "validResult outgoing items \<longleftrightarrow>
     (let code = (case resultCode items of Some v \<Rightarrow> v | None \<Rightarrow> 0)
      in 3000 \<le> code \<and> code < 4000 \<or> \<not> outgoing \<and> 5000 \<le> code \<and> code < 6000)"

definition isDestination :: "avp \<Rightarrow> bool" where
  "isDestination a \<longleftrightarrow> VendorID a = 0 \<and> (Code a = DestinationHost \<or> Code a = DestinationRealm)"

text \<open>The choice of the grammar for a message whose E bit is clear.\<close>

definition validateCommand :: "Message \<Rightarrow> bool \<Rightarrow> bool \<Rightarrow> (avp \<times> bytes) list \<Rightarrow> ValidationError option" where
  "validateCommand m outgoing missingSession echoes =
     (let h = msgHeader m; dict = dictionary m
      in case FindCommand dict (ApplicationID h) (CommandCode h) of
          None \<Rightarrow> Some (ValidationError CommandUnsupported None)
        | Some c \<Rightarrow>
            (let grammar = (if CommandFlags h AND RequestFlag \<noteq> 0 then cmdRequest c else cmdAnswer c);
                 rules = cmdRules grammar
             in if rules = [] then Some (ValidationError InvalidHDRBits None)
                else if (case Proxiable grammar of None \<Rightarrow> False | Some p \<Rightarrow> (CommandFlags h AND ProxiableFlag \<noteq> 0) \<noteq> p)
                then Some (ValidationError InvalidHDRBits None)
                else validateAVPs (msgAVP m)
                       (if (\<not> outgoing \<or> missingSession) \<and> CommandFlags h AND RequestFlag = 0 \<and> errorAnswer (msgAVP m)
                        then optionalSession rules else rules)
                       (ApplicationID h) dict echoes))"

definition Message_validate :: "Message \<Rightarrow> bool \<Rightarrow> bool \<Rightarrow> ValidationError option" where
  "Message_validate m outgoing missingSession =
     (let h = msgHeader m; f = CommandFlags h; dict = dictionary m;
          echoes = (if outgoing \<and> f AND RequestFlag = 0 then echoedProxyInfo m else [])
      in if invalidCommandFlags outgoing f then Some (ValidationError InvalidHDRBits None)
         else case (if f AND RequestFlag = 0 then find isDestination (msgAVP m) else None) of
             Some a \<Rightarrow> Some (ValidationError AVPNotAllowed (Some a))
           | None \<Rightarrow>
               (case (if outgoing then walkOutgoingFlags (msgAVP m) (ApplicationID h) dict (outgoingCommandRules h dict) echoes
                      else None) of
                  Some e \<Rightarrow> Some e
                | None \<Rightarrow>
                    if f AND ErrorFlag \<noteq> 0 then
                      (if \<not> validResult outgoing (msgAVP m) then Some (ValidationError InvalidHDRBits None)
                       else validateAVPs (msgAVP m) genericErrorRules (ApplicationID h) dict echoes)
                    else validateCommand m outgoing missingSession echoes))"

definition Validate :: "Message \<Rightarrow> ValidationError option" where
  "Validate m = Message_validate m False False"

definition ValidateOutgoing :: "Message \<Rightarrow> ValidationError option" where
  "ValidateOutgoing m = Message_validate m True False"

text \<open>The option of the answer builder is whether the request had no Session-Id.\<close>

definition ValidateErrorAnswer :: "Message \<Rightarrow> bool \<Rightarrow> ValidationError option" where
  "ValidateErrorAnswer m missingSession = Message_validate m True missingSession"

section \<open>The grammar, declaratively\<close>

text \<open>
  \<open>conforms\<close> says what a list of AVPs must satisfy, without a walk: the flags of known AVPs, listed
  AVPs only unless there is a wildcard, minima and maxima, and the fixed AVPs first, in the order of
  the grammar. \<open>position\<close> is the index of the rule of a fixed AVP, and the number of rules for all
  others; AVPs neither listed nor known stand anywhere.
\<close>

definition listed :: "validationRule list \<Rightarrow> avp \<Rightarrow> bool" where
  "listed ordered a \<longleftrightarrow> avpKey a \<in> entryKey ` set ordered"

definition known :: "Snapshot \<Rightarrow> u32 \<Rightarrow> avp \<Rightarrow> bool" where
  "known dict app a \<longleftrightarrow> FindAVP dict app (Code a) (VendorID a) \<noteq> None"

definition placed :: "validationRule list \<Rightarrow> Snapshot \<Rightarrow> u32 \<Rightarrow> avp \<Rightarrow> bool" where
  "placed ordered dict app a \<longleftrightarrow> listed ordered a \<or> known dict app a"

fun position :: "validationRule list \<Rightarrow> validationKey \<Rightarrow> nat" where
  "position [] key = 0"
| "position (e # es) key = (if entryKey e = key \<and> ruleFixed (vrRule e) then 0 else Suc (position es key))"

definition flagsOk :: "Snapshot \<Rightarrow> u32 \<Rightarrow> (avp \<times> bytes) list \<Rightarrow> avp \<Rightarrow> bool" where
  "flagsOk dict app echoes a \<longleftrightarrow>
     (case FindAVP dict app (Code a) (VendorID a) of
        Some d \<Rightarrow> isEchoedProxy a echoes \<or> \<not> invalidAVPFlags (Flags a) d
      | None \<Rightarrow> True)"

definition withinMaximum :: "Rule \<Rightarrow> nat \<Rightarrow> bool" where
  "withinMaximum rule n \<longleftrightarrow>
     n = 0 \<or> (if hasMaximum rule then int n \<le> ruleMax rule else ruleFixed rule \<longrightarrow> n \<le> 1)"

abbreviation occurrences :: "avp list \<Rightarrow> validationKey \<Rightarrow> nat" where
  "occurrences items key \<equiv> length (filter (\<lambda>a. avpKey a = key) items)"

definition cardinalities :: "avp list \<Rightarrow> validationRule list \<Rightarrow> bool" where
  "cardinalities items ordered \<longleftrightarrow>
     (\<forall>e \<in> set ordered. minimumCount (vrRule e) \<le> occurrences items (entryKey e) \<and>
        withinMaximum (vrRule e) (occurrences items (entryKey e)))"

definition extensionsOk :: "avp list \<Rightarrow> validationRule list \<Rightarrow> Rule option \<Rightarrow> Snapshot \<Rightarrow> u32 \<Rightarrow> bool" where
  "extensionsOk items ordered wildcard dict app \<longleftrightarrow>
     (case wildcard of
        None \<Rightarrow> \<forall>a \<in> set items. known dict app a \<longrightarrow> listed ordered a
      | Some w \<Rightarrow>
          (let n = length (filter (\<lambda>a. \<not> listed ordered a \<and> known dict app a) items)
           in n = 0 \<or> \<not> hasMaximum w \<or> int n \<le> ruleMax w) \<and>
          minimumCount w \<le> length (filter (\<lambda>a. \<not> listed ordered a) items))"

definition inOrder :: "avp list \<Rightarrow> validationRule list \<Rightarrow> Snapshot \<Rightarrow> u32 \<Rightarrow> bool" where
  "inOrder items ordered dict app \<longleftrightarrow>
     sorted (map (\<lambda>a. position ordered (avpKey a)) (filter (placed ordered dict app) items))"

function conforms :: "avp list \<Rightarrow> Rule list \<Rightarrow> u32 \<Rightarrow> Snapshot \<Rightarrow> (avp \<times> bytes) list \<Rightarrow> bool" where
  "conforms items rules app dict echoes \<longleftrightarrow>
     (let ordered = orderedRules rules app dict
      in (\<forall>a \<in> set items. flagsOk dict app echoes a) \<and>
         cardinalities items ordered \<and>
         extensionsOk items ordered (wildcardRule rules) dict app \<and>
         inOrder items ordered dict app \<and>
         (\<forall>a \<in> set items. placed ordered dict app a \<longrightarrow> isEchoedProxy a echoes \<or>
            (if isFailedAVP a then \<exists>as. Data a = Some (GroupedAVP as) \<and> as \<noteq> []
             else \<forall>d rs. groupRules dict app a = Some (d, rs) \<longrightarrow>
               (\<forall>as. Data a = Some (GroupedAVP as) \<longrightarrow>
                 conforms as rs app dict [] \<and> (isVSAI d \<longrightarrow> length (filter isApplicationID as) = 1)))))"
  by pat_completeness auto
termination
proof (relation "measure (\<lambda>(items, _). size_list size items)")
  fix items rules app dict echoes ordered a d rs as
  assume "a \<in> set (items :: avp list)" "Data a = Some (GroupedAVP as)"
  then show "((as, rs, app, dict, []), (items, rules, app, dict, echoes)) \<in> measure (\<lambda>(items, _). size_list size items)"
    using size_Data [of a as] size_list_estimation' [of a items "size a" size] by simp
qed simp_all

declare conforms.simps [simp del]

text \<open>The rules of a list name each AVP once, and so do those of every Grouped definition.\<close>

definition rulesDistinct :: "Rule list \<Rightarrow> u32 \<Rightarrow> Snapshot \<Rightarrow> bool" where
  "rulesDistinct rules app dict \<longleftrightarrow> distinct (map (\<lambda>e. entryKey e) (orderedRules rules app dict))"

definition grammarsDistinct :: "Snapshot \<Rightarrow> u32 \<Rightarrow> bool" where
  "grammarsDistinct dict app \<longleftrightarrow> list_all (\<lambda>(k, d). rulesDistinct (dataRule (avpData d)) app dict) (avpcode dict)"

definition fixedMax :: "Rule \<Rightarrow> int" where
  "fixedMax rule = (if hasMaximum rule then ruleMax rule else 1)"

text \<open>What one AVP must satisfy after the AVPs \<open>pre\<close>, and what the loop's variables say about \<open>pre\<close>.\<close>

definition localOk :: "validationRule list \<Rightarrow> Rule option \<Rightarrow> u32 \<Rightarrow> Snapshot \<Rightarrow> (avp \<times> bytes) list \<Rightarrow> avp list \<Rightarrow> avp \<Rightarrow> bool" where
  "localOk ordered wildcard app dict echoes pre a \<longleftrightarrow>
     flagsOk dict app echoes a \<and>
     (known dict app a \<and> \<not> listed ordered a \<longrightarrow>
        (\<exists>w. wildcard = Some w \<and> (hasMaximum w \<longrightarrow>
           int (Suc (length (filter (\<lambda>b. \<not> listed ordered b \<and> known dict app b) pre))) \<le> ruleMax w))) \<and>
     (\<forall>e \<in> set ordered. entryKey e = avpKey a \<longrightarrow> withinMaximum (vrRule e) (Suc (occurrences pre (avpKey a)))) \<and>
     (placed ordered dict app a \<longrightarrow> (\<forall>b \<in> set pre. placed ordered dict app b \<longrightarrow>
        position ordered (avpKey b) \<le> position ordered (avpKey a)))"

definition reached :: "validationRule list \<Rightarrow> avp list \<Rightarrow> nat \<Rightarrow> bool" where
  "reached ordered pre fi \<longleftrightarrow>
     fi = 0 \<or>
     (\<exists>b \<in> set pre. \<exists>e \<in> set ordered. entryKey e = avpKey b \<and> ruleFixed (vrRule e) \<and>
        (fi = position ordered (avpKey b) \<or>
         fi = Suc (position ordered (avpKey b)) \<and> fixedMax (vrRule e) \<le> int (occurrences pre (avpKey b))))"

definition tracks :: "validationRule list \<Rightarrow> Rule option \<Rightarrow> u32 \<Rightarrow> Snapshot \<Rightarrow> avp list \<Rightarrow> vState \<Rightarrow> bool" where
  "tracks ordered wildcard app dict pre st \<longleftrightarrow>
     (\<forall>e \<in> set ordered. counts st (entryKey e) = occurrences pre (entryKey e)) \<and>
     (wildcard \<noteq> None \<longrightarrow>
        extensionCount st = length (filter (\<lambda>b. \<not> listed ordered b \<and> known dict app b) pre) \<and>
        extensionMinimumCount st = length (filter (\<lambda>b. \<not> listed ordered b) pre)) \<and>
     (fixedClosed st \<longleftrightarrow> (\<exists>b \<in> set pre. placed ordered dict app b \<and> position ordered (avpKey b) = length ordered)) \<and>
     (\<forall>b \<in> set pre. position ordered (avpKey b) < length ordered \<longrightarrow> position ordered (avpKey b) \<le> fixedIndex st) \<and>
     reached ordered pre (fixedIndex st)"

definition contentsOk :: "u32 \<Rightarrow> Snapshot \<Rightarrow> (avp \<times> bytes) list \<Rightarrow> avp \<Rightarrow> bool" where
  "contentsOk app dict echoes a \<longleftrightarrow> isEchoedProxy a echoes \<or> validateContents a app dict = None"

text \<open>The conditions of \<open>conforms\<close>, with the contents as the walk checks them.\<close>

definition goodList :: "avp list \<Rightarrow> validationRule list \<Rightarrow> Rule option \<Rightarrow> u32 \<Rightarrow> Snapshot \<Rightarrow> (avp \<times> bytes) list \<Rightarrow> bool" where
  "goodList items ordered w app dict echoes \<longleftrightarrow>
     (\<forall>a \<in> set items. flagsOk dict app echoes a) \<and> cardinalities items ordered \<and>
     extensionsOk items ordered w dict app \<and> inOrder items ordered dict app \<and>
     (\<forall>a \<in> set items. placed ordered dict app a \<longrightarrow> contentsOk app dict echoes a)"

text \<open>The bound on the AVPs that only the wildcard admits.\<close>

definition extensionsBounded :: "avp list \<Rightarrow> validationRule list \<Rightarrow> Rule option \<Rightarrow> Snapshot \<Rightarrow> u32 \<Rightarrow> bool" where
  "extensionsBounded items ordered wildcard dict app \<longleftrightarrow>
     (case wildcard of
        None \<Rightarrow> filter (\<lambda>b. \<not> listed ordered b \<and> known dict app b) items = []
      | Some w \<Rightarrow> filter (\<lambda>b. \<not> listed ordered b \<and> known dict app b) items = [] \<or> \<not> hasMaximum w \<or>
          int (length (filter (\<lambda>b. \<not> listed ordered b \<and> known dict app b) items)) \<le> ruleMax w)"

text \<open>The AVPs a sender is responsible for: all but echoes and the contents of Failed-AVPs.\<close>

function sentAVPs :: "avp list \<Rightarrow> (avp \<times> bytes) list \<Rightarrow> avp list" where
  "sentAVPs items echoes =
     concat (map (\<lambda>a. if isEchoedProxy a echoes then []
                     else a # (if isFailedAVP a then []
                               else case Data a of Some (GroupedAVP as) \<Rightarrow> sentAVPs as [] | _ \<Rightarrow> [])) items)"
  by pat_completeness auto
termination
proof (relation "measure (\<lambda>(items, _). size_list size items)")
  fix items echoes a y as
  assume "a \<in> set (items :: avp list)" "Data a = Some y" "y = GroupedAVP as"
  then show "((as, []), (items, echoes)) \<in> measure (\<lambda>(items, _). size_list size items)"
    using size_Data [of a as] size_list_estimation' [of a items "size a" size] by simp
qed simp

declare sentAVPs.simps [simp del]

definition cleanFlags :: "avp \<Rightarrow> bool" where
  "cleanFlags a \<longleftrightarrow> Flags a AND 0x1f = 0 \<and> (Flags a AND Vbit \<noteq> 0 \<longleftrightarrow> VendorID a \<noteq> 0)"

text \<open>The bit \<open>parseFlags\<close> uses for a flag letter.\<close>

definition flagBit :: "char \<Rightarrow> nat" where
  "flagBit c = (if c = CHR ''M'' then flagM else if c = CHR ''P'' then flagP else flagV)"

text \<open>A small grammar for the examples: a fixed Session-Id, then one Result-Code.\<close>

definition sampleRules :: "Rule list" where
  "sampleRules = [simpleRule ''Session-Id'' True True True, simpleRule ''Result-Code'' True True False]"

definition grammarDict :: Snapshot where
  "grammarDict = emptySnapshot\<lparr>
     avpcode := [((0, 263, 0), sampleDef ''Session-Id'' 263 UTF8StringType), ((0, 268, 0), sampleDef ''Result-Code'' 268 Unsigned32Type)],
     command := [((0, 1), \<lparr>cmdCode = 1, cmdName = [], cmdShort = [], cmdRequest = \<lparr>Proxiable = None, cmdRules = sampleRules\<rparr>,
                   cmdAnswer = \<lparr>Proxiable = None, cmdRules = sampleRules\<rparr>\<rparr>)],
     avpname := [((0, ''Session-Id''), sampleDef ''Session-Id'' 263 UTF8StringType),
                 ((0, ''Result-Code''), sampleDef ''Result-Code'' 268 Unsigned32Type)]\<rparr>"

definition sampleItems :: "avp list" where
  "sampleItems = [NewAVP 263 Mbit 0 (Typ (UTF8String [115])), NewAVP 268 Mbit 0 (Typ (Unsigned32 2001))]"

definition sampleAnswer :: Message where
  "sampleAnswer = (blankMessage grammarDict)\<lparr>msgHeader := zeroHeader\<lparr>CommandCode := 1\<rparr>, msgAVP := sampleItems\<rparr>"

end
