(* ===== verification/Pending.thy ===== *)
theory Pending
  imports Message
begin

text \<open>
  Request ownership on one connection: \<open>src/diam/pending_requests.go\<close> and the write gate of
  \<open>src/diam/write_gate.go\<close>. A \<open>*RequestWrite\<close> is a ticket, an index into the store of all tickets
  made so far, so pointer comparisons are comparisons of indices; \<open>pending\<close> and \<open>reserved\<close> are
  association lists from request keys to tickets. Every operation runs under the tracker's lock, so a
  history is a sequence of operations. The channels only wake waiting writers, who retry \<open>attempt\<close>.
\<close>

section \<open>Definitions\<close>

datatype requestKey = RequestKey (keyHop: u32) (keyEnd: u32) (keyCommand: u32) (keyApplication: u32)

record RequestWrite =
  rwKey :: requestKey
  rwCancelled :: bool
  rwPrevious :: "nat option"
  rwFailed :: bool

record PendingRequests =
  prClosing :: bool
  prPending :: "(requestKey \<times> nat) list"
  prReserved :: "(requestKey \<times> nat) list"
  prTickets :: "RequestWrite list"

definition newPendingRequests :: PendingRequests where
  "newPendingRequests = \<lparr>prClosing = False, prPending = [], prReserved = [], prTickets = []\<rparr>"

datatype pr_error = ErrConnectionClosing | ErrRequestCompleted

definition DisconnectPeer :: u32 where "DisconnectPeer = 282"

definition keyForRequest :: "Header \<Rightarrow> requestKey" where
  "keyForRequest h = RequestKey (HopByHopID h) (EndToEndID h) (CommandCode h) (ApplicationID h)"

definition publicationHeader :: "bytes \<Rightarrow> Header option" where
  "publicationHeader b =
     (case Header_DecodeFromBytes zeroHeader b of
        (h, e) \<Rightarrow>
          if e \<noteq> None \<or> unat (MessageLength h) \<noteq> length b \<or> CommandFlags h AND RequestFlag = 0 \<or>
             ApplicationID h = 0 \<and> CommandCode h = DisconnectPeer
          then None else Some h)"

abbreviation ticket :: "PendingRequests \<Rightarrow> nat \<Rightarrow> RequestWrite" where
  "ticket p r \<equiv> prTickets p ! r"

definition newTicket :: "PendingRequests \<Rightarrow> requestKey \<Rightarrow> nat \<times> PendingRequests" where
  "newTicket p key =
     (length (prTickets p),
      p\<lparr>prTickets := prTickets p @ [\<lparr>rwKey = key, rwCancelled = False, rwPrevious = None, rwFailed = False\<rparr>]\<rparr>)"

definition setTicket :: "nat \<Rightarrow> (RequestWrite \<Rightarrow> RequestWrite) \<Rightarrow> PendingRequests \<Rightarrow> PendingRequests" where
  "setTicket r f p = p\<lparr>prTickets := (prTickets p)[r := f (ticket p r)]\<rparr>"

definition own :: "requestKey \<Rightarrow> nat \<Rightarrow> PendingRequests \<Rightarrow> PendingRequests" where
  "own key r p = p\<lparr>prPending := AList.update key r (prPending p)\<rparr>"

definition disown :: "requestKey \<Rightarrow> PendingRequests \<Rightarrow> PendingRequests" where
  "disown key p = p\<lparr>prPending := AList.delete key (prPending p)\<rparr>"

definition PrepareWrite :: "PendingRequests \<Rightarrow> Header \<Rightarrow> nat \<times> PendingRequests" where
  "PrepareWrite p h =
     (let key = keyForRequest h; (r, p) = newTicket p key
      in (r, p\<lparr>prReserved := AList.update key r (prReserved p)\<rparr>))"

definition Cancel :: "PendingRequests \<Rightarrow> nat \<Rightarrow> PendingRequests" where
  "Cancel p r =
     (let p = setTicket r (\<lambda>t. t\<lparr>rwCancelled := True\<rparr>) p; key = rwKey (ticket p r)
      in if map_of (prPending p) key = Some r then disown key p else p)"

definition Release :: "PendingRequests \<Rightarrow> nat \<Rightarrow> PendingRequests" where
  "Release p r =
     (let key = rwKey (ticket p r)
      in if map_of (prReserved p) key = Some r
         then p\<lparr>prReserved := AList.delete key (prReserved p)\<rparr> else p)"

definition publication :: "PendingRequests \<Rightarrow> bytes \<Rightarrow> nat option \<times> PendingRequests" where
  "publication p b =
     (case publicationHeader b of
        None \<Rightarrow> (None, p)
      | Some h \<Rightarrow>
          (let key = keyForRequest h
           in case map_of (prReserved p) key of
               Some r \<Rightarrow> (Some r, p)
             | None \<Rightarrow> (let (r, p) = newTicket p key in (Some r, p))))"

definition admit :: "PendingRequests \<Rightarrow> nat \<Rightarrow> pr_error option \<times> PendingRequests" where
  "admit p r =
     (if rwCancelled (ticket p r) then (Some ErrRequestCompleted, p)
      else if prClosing p then (Some ErrConnectionClosing, p)
      else (None, own (rwKey (ticket p r)) r p))"

text \<open>\<open>BeginWrite\<close> returns the ticket whose completion function the caller must run, if any;
  \<open>FinishWrite\<close> is that function.\<close>

definition BeginWrite :: "PendingRequests \<Rightarrow> bytes \<Rightarrow> nat option \<times> PendingRequests" where
  "BeginWrite p b =
     (case publicationHeader b of
        None \<Rightarrow> (None, p)
      | Some h \<Rightarrow>
          if prClosing p then (None, p)
          else
            let key = keyForRequest h
            in case map_of (prReserved p) key of
                Some r \<Rightarrow>
                  if rwCancelled (ticket p r) then (None, p)
                  else
                    let p = (if map_of (prPending p) key \<noteq> Some r
                             then setTicket r (\<lambda>t. t\<lparr>rwPrevious := map_of (prPending p) key\<rparr>) p else p)
                    in (Some r, own key r p)
              | None \<Rightarrow>
                  (let (r, p) = newTicket p key;
                       p = setTicket r (\<lambda>t. t\<lparr>rwPrevious := map_of (prPending p) key\<rparr>) p
                   in (Some r, own key r p)))"

text \<open>The walk down the overlapped tickets; \<open>None\<close> if the fuel runs out.\<close>

fun rollback :: "nat \<Rightarrow> RequestWrite list \<Rightarrow> nat option \<Rightarrow> nat option option" where
  "rollback 0 ts prev = None"
| "rollback (Suc n) ts None = Some None"
| "rollback (Suc n) ts (Some i) =
     (if rwFailed (ts ! i) \<or> rwCancelled (ts ! i) then rollback n ts (rwPrevious (ts ! i)) else Some (Some i))"

definition FinishWrite :: "PendingRequests \<Rightarrow> nat \<Rightarrow> bool \<Rightarrow> PendingRequests" where
  "FinishWrite p r written =
     (if written then setTicket r (\<lambda>t. t\<lparr>rwPrevious := None\<rparr>) p
      else
        let p = setTicket r (\<lambda>t. t\<lparr>rwFailed := True\<rparr>) p; key = rwKey (ticket p r)
        in if map_of (prPending p) key = Some r then
             (case rollback (Suc (length (prTickets p))) (prTickets p) (rwPrevious (ticket p r)) of
                None \<Rightarrow> p
              | Some None \<Rightarrow> disown key p
              | Some (Some previous) \<Rightarrow> own key previous p)
           else p)"

definition CloseAdmission :: "PendingRequests \<Rightarrow> PendingRequests" where
  "CloseAdmission p = p\<lparr>prClosing := True\<rparr>"

definition HasPending :: "PendingRequests \<Rightarrow> bool" where
  "HasPending p \<longleftrightarrow> prPending p \<noteq> []"

definition MatchAnswer :: "PendingRequests \<Rightarrow> Message option \<Rightarrow> bool \<Rightarrow> bool \<times> PendingRequests" where
  "MatchAnswer p m consume =
     (case m of
        None \<Rightarrow> (False, p)
      | Some m \<Rightarrow>
          if CommandFlags (msgHeader m) AND RequestFlag \<noteq> 0 then (False, p)
          else
            let key = keyForRequest (msgHeader m)
            in if map_of (prPending p) key = None then (False, p)
               else (True, if consume then disown key p else p))"

section \<open>The write gate\<close>

record WriteState =
  tracker :: PendingRequests
  held :: bool

datatype attempt_result = Locked | WaitReady | Refused pr_error

definition attempt :: "WriteState \<Rightarrow> nat option \<Rightarrow> attempt_result \<times> WriteState" where
  "attempt g r =
     (if held g then (WaitReady, g)
      else case r of
          None \<Rightarrow> (Locked, g\<lparr>held := True\<rparr>)
        | Some r \<Rightarrow>
            (case admit (tracker g) r of
               (Some e, p) \<Rightarrow> (Refused e, g\<lparr>tracker := p\<rparr>)
             | (None, p) \<Rightarrow> (Locked, g\<lparr>tracker := p, held := True\<rparr>)))"

definition unlock :: "WriteState \<Rightarrow> WriteState" where
  "unlock g = g\<lparr>held := False\<rparr>"

section \<open>Histories\<close>

datatype pr_op =
    OpPrepare Header | OpCancel nat | OpRelease nat | OpPublication bytes | OpAttempt "nat option" | OpUnlock
  | OpBegin bytes | OpFinish nat bool | OpClose | OpMatch "Message option" bool

datatype pr_out = OutTicket "nat option" | OutAttempt attempt_result | OutMatch bool

text \<open>An operation on a ticket that was never made does not occur in Go; it does nothing here.\<close>

fun prStep :: "WriteState \<Rightarrow> pr_op \<Rightarrow> WriteState \<times> pr_out list" where
  "prStep g (OpPrepare h) = (let (r, p) = PrepareWrite (tracker g) h in (g\<lparr>tracker := p\<rparr>, [OutTicket (Some r)]))"
| "prStep g (OpCancel r) =
     (if r < length (prTickets (tracker g)) then g\<lparr>tracker := Cancel (tracker g) r\<rparr> else g, [])"
| "prStep g (OpRelease r) =
     (if r < length (prTickets (tracker g)) then g\<lparr>tracker := Release (tracker g) r\<rparr> else g, [])"
| "prStep g (OpPublication b) = (let (r, p) = publication (tracker g) b in (g\<lparr>tracker := p\<rparr>, [OutTicket r]))"
| "prStep g (OpAttempt r) =
     (if (case r of None \<Rightarrow> True | Some r \<Rightarrow> r < length (prTickets (tracker g)))
      then let (a, g) = attempt g r in (g, [OutAttempt a]) else (g, []))"
| "prStep g OpUnlock = (unlock g, [])"
| "prStep g (OpBegin b) = (let (r, p) = BeginWrite (tracker g) b in (g\<lparr>tracker := p\<rparr>, [OutTicket r]))"
| "prStep g (OpFinish r written) =
     (if r < length (prTickets (tracker g)) then g\<lparr>tracker := FinishWrite (tracker g) r written\<rparr> else g, [])"
| "prStep g OpClose = (g\<lparr>tracker := CloseAdmission (tracker g)\<rparr>, [])"
| "prStep g (OpMatch m consume) = (let (b, p) = MatchAnswer (tracker g) m consume in (g\<lparr>tracker := p\<rparr>, [OutMatch b]))"

definition initialWriteState :: WriteState where
  "initialWriteState = \<lparr>tracker = newPendingRequests, held = False\<rparr>"

text \<open>
  The invariant: owners and reservations are existing tickets of their key; an owner is not
  cancelled; a reserved ticket is the newest of its key; overlapped tickets are older.
\<close>

definition sameKey :: "RequestWrite list \<Rightarrow> nat \<Rightarrow> nat \<Rightarrow> bool" where
  "sameKey ts i j \<longleftrightarrow> rwKey (ts ! i) = rwKey (ts ! j)"

definition prInv :: "PendingRequests \<Rightarrow> bool" where
  "prInv p \<longleftrightarrow>
     (\<forall>k r. map_of (prPending p) k = Some r \<longrightarrow>
        r < length (prTickets p) \<and> rwKey (ticket p r) = k \<and> \<not> rwCancelled (ticket p r)) \<and>
     (\<forall>k r. map_of (prReserved p) k = Some r \<longrightarrow>
        r < length (prTickets p) \<and> rwKey (ticket p r) = k \<and>
        (\<forall>t < length (prTickets p). rwKey (ticket p t) = k \<longrightarrow> t \<le> r)) \<and>
     (\<forall>i < length (prTickets p). \<forall>j. rwPrevious (ticket p i) = Some j \<longrightarrow>
        j < i \<and> sameKey (prTickets p) j i)"


text \<open>The keys with an owner; the tickets a walk visits.\<close>

abbreviation ownedKeys :: "WriteState \<Rightarrow> requestKey set" where
  "ownedKeys g \<equiv> dom (map_of (prPending (tracker g)))"

fun chain :: "nat \<Rightarrow> RequestWrite list \<Rightarrow> nat option \<Rightarrow> nat list" where
  "chain 0 ts prev = []"
| "chain (Suc n) ts None = []"
| "chain (Suc n) ts (Some i) = i # chain n ts (rwPrevious (ts ! i))"

text \<open>A frame of a request with no AVPs, and the answer to it.\<close>

definition sampleHeader :: Header where
  "sampleHeader = \<lparr>Version = 1, MessageLength = 20, CommandFlags = 128, CommandCode = 272, ApplicationID = 4,
     HopByHopID = 7, EndToEndID = 9\<rparr>"

definition sampleFrame :: bytes where "sampleFrame = headerBytes sampleHeader"

section \<open>The invariant\<close>


lemmas map_simps = update_conv' delete_conv'

lemma prInv_pending: "prInv p \<Longrightarrow> map_of (prPending p) k = Some r \<Longrightarrow>
    r < length (prTickets p) \<and> rwKey (ticket p r) = k \<and> \<not> rwCancelled (ticket p r)"
  by (simp add: prInv_def)

lemma prInv_reserved: "prInv p \<Longrightarrow> map_of (prReserved p) k = Some r \<Longrightarrow>
    r < length (prTickets p) \<and> rwKey (ticket p r) = k \<and> (\<forall>t < length (prTickets p). rwKey (ticket p t) = k \<longrightarrow> t \<le> r)"
  by (simp add: prInv_def)

lemma prInv_previous: "prInv p \<Longrightarrow> i < length (prTickets p) \<Longrightarrow> rwPrevious (ticket p i) = Some j \<Longrightarrow>
    j < i \<and> sameKey (prTickets p) j i"
  by (simp add: prInv_def)

lemma prInv_own:
  assumes "prInv p" "r < length (prTickets p)" "rwKey (ticket p r) = k" "\<not> rwCancelled (ticket p r)"
  shows "prInv (own k r p)"
  using assms by (auto simp: prInv_def own_def map_simps)

lemma prInv_disown: "prInv p \<Longrightarrow> prInv (disown k p)"
  by (auto simp: prInv_def disown_def map_simps restrict_map_def split: if_splits)

lemma prInv_newTicket:
  assumes "prInv p" "map_of (prReserved p) k = None"
  shows "prInv (snd (newTicket p k))"
  unfolding prInv_def
proof (intro conjI allI impI)
  fix k' r
  assume "map_of (prPending (snd (newTicket p k))) k' = Some r"
  then show "r < length (prTickets (snd (newTicket p k)))" "rwKey (ticket (snd (newTicket p k)) r) = k'"
    "\<not> rwCancelled (ticket (snd (newTicket p k)) r)"
    using prInv_pending [OF assms(1), of k' r] by (auto simp: newTicket_def nth_append)
next
  fix k' r
  assume "map_of (prReserved (snd (newTicket p k))) k' = Some r"
  then have r: "map_of (prReserved p) k' = Some r" "k' \<noteq> k"
    using assms(2) by (auto simp: newTicket_def)
  then show "r < length (prTickets (snd (newTicket p k)))" "rwKey (ticket (snd (newTicket p k)) r) = k'"
    using prInv_reserved [OF assms(1) r(1)] by (auto simp: newTicket_def nth_append)
  fix t
  assume "t < length (prTickets (snd (newTicket p k)))" "rwKey (ticket (snd (newTicket p k)) t) = k'"
  then show "t \<le> r"
    using prInv_reserved [OF assms(1) r(1)] r(2) by (auto simp: newTicket_def nth_append split: if_splits)
next
  fix i j
  assume "i < length (prTickets (snd (newTicket p k)))" "rwPrevious (ticket (snd (newTicket p k)) i) = Some j"
  then have "i < length (prTickets p)" "rwPrevious (ticket p i) = Some j"
    by (auto simp: newTicket_def nth_append split: if_splits)
  then show "j < i" "sameKey (prTickets (snd (newTicket p k))) j i"
    using prInv_previous [OF assms(1), of i j] by (auto simp: newTicket_def nth_append sameKey_def)
qed

lemma prInv_setTicket:
  assumes "prInv p" "\<And>t. rwKey (f t) = rwKey t" "\<And>t. rwCancelled (f t) \<longrightarrow> rwCancelled t"
    "\<And>j. rwPrevious (f (ticket p r)) = Some j \<Longrightarrow> j < r \<and> sameKey (prTickets p) j r"
  shows "prInv (setTicket r f p)"
proof (cases "r < length (prTickets p)")
  case False
  then have "setTicket r f p = p"
    by (simp add: setTicket_def list_update_beyond not_less)
  with assms show ?thesis by simp
next
  case True
  have key: "rwKey (ticket (setTicket r f p) i) = rwKey (ticket p i)" for i
    using True assms(2) by (simp add: setTicket_def nth_list_update)
  have canc: "rwCancelled (ticket (setTicket r f p) i) \<Longrightarrow> rwCancelled (ticket p i)" for i
    using True assms(3) by (auto simp: setTicket_def nth_list_update split: if_splits)
  have len: "length (prTickets (setTicket r f p)) = length (prTickets p)"
    "prPending (setTicket r f p) = prPending p" "prReserved (setTicket r f p) = prReserved p"
    by (simp_all add: setTicket_def)
  have same: "sameKey (prTickets (setTicket r f p)) i j = sameKey (prTickets p) i j" for i j
    by (simp add: sameKey_def key)
  have prev: "j < i \<and> sameKey (prTickets p) j i"
    if "i < length (prTickets p)" "rwPrevious (ticket (setTicket r f p) i) = Some j" for i j
    using that True assms(4) prInv_previous [OF assms(1), of i j]
    by (auto simp: setTicket_def nth_list_update split: if_splits)
  show ?thesis
    unfolding prInv_def key len same
    using prInv_pending [OF assms(1)] prInv_reserved [OF assms(1)] prev canc by blast
qed


lemma prInv_setReserved:
  assumes "prInv p"
    "\<And>k r. map_of R k = Some r \<Longrightarrow> r < length (prTickets p) \<and> rwKey (ticket p r) = k \<and>
      (\<forall>t < length (prTickets p). rwKey (ticket p t) = k \<longrightarrow> t \<le> r)"
  shows "prInv (p\<lparr>prReserved := R\<rparr>)"
proof -
  have sel: "prPending (p\<lparr>prReserved := R\<rparr>) = prPending p" "prReserved (p\<lparr>prReserved := R\<rparr>) = R"
    "prTickets (p\<lparr>prReserved := R\<rparr>) = prTickets p"
    by simp_all
  show ?thesis
    unfolding prInv_def sel
    using prInv_pending [OF assms(1)] assms(2) prInv_previous [OF assms(1)] by blast
qed

lemma prInv_Prepare:
  assumes "prInv p"
  shows "prInv (snd (PrepareWrite p h))"
proof -
  let ?k = "keyForRequest h"
  let ?q = "p\<lparr>prReserved := []\<rparr>"
  let ?p = "snd (newTicket ?q ?k)"
  have p: "snd (PrepareWrite p h) = ?p\<lparr>prReserved := AList.update ?k (length (prTickets p)) (prReserved p)\<rparr>"
    by (simp add: PrepareWrite_def newTicket_def Let_def)
  have q: "prInv ?q"
    by (rule prInv_setReserved [OF assms]) simp
  have "prInv ?p"
    by (rule prInv_newTicket [OF q]) simp
  moreover have "r < length (prTickets ?p) \<and> rwKey (ticket ?p r) = k \<and>
      (\<forall>t < length (prTickets ?p). rwKey (ticket ?p t) = k \<longrightarrow> t \<le> r)"
    if "map_of (AList.update ?k (length (prTickets p)) (prReserved p)) k = Some r" for k r
  proof (cases "k = ?k")
    case True
    then show ?thesis
      using that by (auto simp: newTicket_def map_simps less_Suc_eq_le nth_append)
  next
    case False
    then have "map_of (prReserved p) k = Some r"
      using that by (simp add: map_simps)
    then show ?thesis
      using prInv_reserved [OF assms, of k r] False by (auto simp: newTicket_def nth_append less_Suc_eq)
  qed
  ultimately show ?thesis
    unfolding p by (rule prInv_setReserved)
qed

lemma prInv_cancelTicket:
  assumes "prInv p" "\<And>k. map_of (prPending p) k \<noteq> Some r"
  shows "prInv (setTicket r (\<lambda>t. t\<lparr>rwCancelled := True\<rparr>) p)"
proof -
  let ?p = "setTicket r (\<lambda>t. t\<lparr>rwCancelled := True\<rparr>) p"
  have key: "rwKey (ticket ?p i) = rwKey (ticket p i) \<and> rwPrevious (ticket ?p i) = rwPrevious (ticket p i)" for i
    by (cases "r < length (prTickets p)") (simp_all add: setTicket_def nth_list_update list_update_beyond)
  have same: "sameKey (prTickets ?p) i j = sameKey (prTickets p) i j" for i j
    using key by (simp add: sameKey_def)
  have canc: "rwCancelled (ticket ?p i) = rwCancelled (ticket p i)" if "i \<noteq> r" for i
    using that by (simp add: setTicket_def)
  have len: "length (prTickets ?p) = length (prTickets p)" "prPending ?p = prPending p" "prReserved ?p = prReserved p"
    by (simp_all add: setTicket_def)
  have "\<not> rwCancelled (ticket ?p t)" if "map_of (prPending p) k = Some t" for k t
    using that assms(2) [of k] canc [of t] prInv_pending [OF assms(1) that] by auto
  then show ?thesis
    unfolding prInv_def len same using key prInv_pending [OF assms(1)] prInv_reserved [OF assms(1)] prInv_previous [OF assms(1)]
    by simp
qed

lemma prInv_Cancel:
  assumes inv: "prInv p"
  shows "prInv (Cancel p r)"
proof -
  let ?f = "\<lambda>t. t\<lparr>rwCancelled := True\<rparr>" and ?k = "rwKey (ticket p r)"
  have key: "rwKey (ticket (setTicket r ?f p) r) = ?k"
    by (cases "r < length (prTickets p)") (simp_all add: setTicket_def list_update_beyond)
  have "Cancel p r = setTicket r ?f (if map_of (prPending p) ?k = Some r then disown ?k p else p)"
    unfolding Cancel_def Let_def key by (simp add: setTicket_def disown_def)
  moreover have "map_of (prPending (if map_of (prPending p) ?k = Some r then disown ?k p else p)) k \<noteq> Some r" for k
    using prInv_pending [OF inv, of k r] by (auto simp: disown_def map_simps split: if_splits)
  ultimately show ?thesis
    using inv prInv_disown [OF inv] by (simp add: prInv_cancelTicket)
qed

lemma prInv_Release:
  assumes "prInv p"
  shows "prInv (Release p r)"
proof -
  have "prInv (p\<lparr>prReserved := AList.delete k (prReserved p)\<rparr>)" for k
  proof (rule prInv_setReserved [OF assms])
    fix k' t
    assume "map_of (AList.delete k (prReserved p)) k' = Some t"
    then have "map_of (prReserved p) k' = Some t"
      by (simp add: map_simps split: if_splits)
    then show "t < length (prTickets p) \<and> rwKey (ticket p t) = k' \<and>
        (\<forall>i < length (prTickets p). rwKey (ticket p i) = k' \<longrightarrow> i \<le> t)"
      by (rule prInv_reserved [OF assms])
  qed
  then show ?thesis
    using assms by (simp add: Release_def Let_def)
qed

lemma prInv_publication: "prInv p \<Longrightarrow> prInv (snd (publication p b))"
  using prInv_newTicket by (auto simp: publication_def Let_def newTicket_def split: option.splits)

lemma prInv_admit: "prInv p \<Longrightarrow> r < length (prTickets p) \<Longrightarrow> prInv (snd (admit p r))"
  by (simp add: admit_def prInv_own)

lemma prInv_Begin:
  assumes inv: "prInv p"
  shows "prInv (snd (BeginWrite p b))"
proof (cases "publicationHeader b")
  case (Some h)
  let ?k = "keyForRequest h"
  show ?thesis
  proof (cases "map_of (prReserved p) ?k")
    case (Some r)
    note res = prInv_reserved [OF inv Some]
    let ?f = "\<lambda>t. t\<lparr>rwPrevious := map_of (prPending p) ?k\<rparr>"
    have "prInv (setTicket r ?f p)" if "map_of (prPending p) ?k \<noteq> Some r"
    proof (rule prInv_setTicket [OF inv])
      fix j
      assume "rwPrevious (?f (ticket p r)) = Some j"
      then show "j < r \<and> sameKey (prTickets p) j r"
        using prInv_pending [OF inv, of ?k j] res that by (force simp: sameKey_def)
    qed simp_all
    then show ?thesis
      using inv \<open>publicationHeader b = Some h\<close> Some res
      by (auto simp: BeginWrite_def Let_def setTicket_def intro!: prInv_own)
  next
    case None
    let ?p = "snd (newTicket p ?k)" and ?r = "length (prTickets p)"
    let ?f = "\<lambda>t. t\<lparr>rwPrevious := map_of (prPending p) ?k\<rparr>"
    have new: "prInv ?p"
      by (rule prInv_newTicket [OF inv None])
    have "prInv (setTicket ?r ?f ?p)"
    proof (rule prInv_setTicket [OF new])
      fix j
      assume "rwPrevious (?f (ticket ?p ?r)) = Some j"
      then show "j < ?r \<and> sameKey (prTickets ?p) j ?r"
        using prInv_pending [OF inv, of ?k j] by (simp add: newTicket_def nth_append sameKey_def)
    qed simp_all
    then have "prInv (own ?k ?r (setTicket ?r ?f ?p))"
      by (rule prInv_own) (simp_all add: setTicket_def newTicket_def nth_append)
    then show ?thesis
      using inv \<open>publicationHeader b = Some h\<close> None by (simp add: BeginWrite_def Let_def newTicket_def)
  qed
qed (use inv in \<open>simp add: BeginWrite_def\<close>)


lemma rollback_ok:
  assumes inv: "prInv p" and prev: "\<And>i. prev = Some i \<Longrightarrow> i < n \<and> i < length (prTickets p) \<and> rwKey (ticket p i) = k"
  shows "\<exists>x. rollback (Suc n) (prTickets p) prev = Some x \<and>
    (\<forall>j. x = Some j \<longrightarrow> j < length (prTickets p) \<and> rwKey (ticket p j) = k \<and> \<not> rwCancelled (ticket p j))"
  using prev
proof (induction n arbitrary: prev)
  case 0
  then show ?case by (cases prev) auto
next
  case (Suc n)
  show ?case
  proof (cases prev)
    case (Some i)
    note i = Suc.prems [OF Some]
    have "\<exists>x. rollback (Suc n) (prTickets p) (rwPrevious (ticket p i)) = Some x \<and>
      (\<forall>j. x = Some j \<longrightarrow> j < length (prTickets p) \<and> rwKey (ticket p j) = k \<and> \<not> rwCancelled (ticket p j))"
    proof (rule Suc.IH)
      fix j
      assume "rwPrevious (ticket p i) = Some j"
      then show "j < n \<and> j < length (prTickets p) \<and> rwKey (ticket p j) = k"
        using i prInv_previous [OF inv, of i j] by (auto simp: sameKey_def)
    qed
    then show ?thesis
      using i by (auto simp: Some simp del: rollback.simps simp: rollback.simps(3) [of "Suc n"])
  qed simp
qed

lemma prInv_Finish:
  assumes inv: "prInv p" and r: "r < length (prTickets p)"
  shows "prInv (FinishWrite p r written)"
proof (cases written)
  case True
  then show ?thesis
    using prInv_setTicket [OF inv, of "\<lambda>t. t\<lparr>rwPrevious := None\<rparr>" r] by (simp add: FinishWrite_def)
next
  case False
  let ?p = "setTicket r (\<lambda>t. t\<lparr>rwFailed := True\<rparr>) p"
  have inv': "prInv ?p"
    using prInv_previous [OF inv r] by (intro prInv_setTicket [OF inv]) simp_all
  have len: "length (prTickets ?p) = length (prTickets p)" "rwKey (ticket ?p r) = rwKey (ticket p r)"
    using r by (simp_all add: setTicket_def)
  have "\<exists>x. rollback (Suc (length (prTickets ?p))) (prTickets ?p) (rwPrevious (ticket ?p r)) = Some x \<and>
    (\<forall>j. x = Some j \<longrightarrow> j < length (prTickets ?p) \<and> rwKey (ticket ?p j) = rwKey (ticket ?p r) \<and> \<not> rwCancelled (ticket ?p j))"
    using prInv_previous [OF inv', of r] r len by (intro rollback_ok [OF inv']) (force simp: sameKey_def)
  then obtain x where x: "rollback (Suc (length (prTickets ?p))) (prTickets ?p) (rwPrevious (ticket ?p r)) = Some x"
    "\<And>j. x = Some j \<Longrightarrow> j < length (prTickets ?p) \<and> rwKey (ticket ?p j) = rwKey (ticket ?p r) \<and> \<not> rwCancelled (ticket ?p j)"
    by blast
  show ?thesis
    using False x(1) inv' prInv_disown [OF inv'] prInv_own [OF inv'] x(2)
    by (cases x) (auto simp: FinishWrite_def Let_def simp del: rollback.simps)
qed

lemma prInv_Match: "prInv p \<Longrightarrow> prInv (snd (MatchAnswer p m consume))"
  by (auto simp: MatchAnswer_def Let_def prInv_disown split: option.splits)

lemma prInv_Close: "prInv p \<Longrightarrow> prInv (CloseAdmission p)"
  unfolding prInv_def CloseAdmission_def by simp

interpretation writes: step_machine prStep "\<lambda>g. prInv (tracker g)"
proof
  fix g :: WriteState and i
  assume inv: "prInv (tracker g)"
  show "prInv (tracker (fst (prStep g i)))"
  proof (cases i)
    case (OpAttempt r)
    then show ?thesis
      using inv prInv_admit [OF inv]
      by (auto simp: attempt_def Let_def split: option.splits prod.splits) (metis snd_conv)+
  qed (use inv in \<open>simp_all add: Let_def case_prod_unfold prInv_Prepare prInv_Cancel prInv_Release prInv_publication
      prInv_Begin prInv_Finish prInv_Match prInv_Close unlock_def\<close>)
qed

lemma prInv_initial: "prInv (tracker initialWriteState)"
  by (simp add: prInv_def initialWriteState_def newPendingRequests_def)


section \<open>What the tracker and the gate promise\<close>

lemma Finish_keys:
  "prClosing (FinishWrite p r w) = prClosing p"
  "dom (map_of (prPending (FinishWrite p r w))) \<subseteq> dom (map_of (prPending p))"
  by (auto simp: FinishWrite_def Let_def setTicket_def own_def disown_def map_simps split: option.splits if_splits)

lemma closing_step:
  assumes "prClosing (tracker g)"
  shows "prClosing (tracker (fst (prStep g i))) \<and> ownedKeys (fst (prStep g i)) \<subseteq> ownedKeys g"
proof (cases i)
  case (OpFinish r w)
  then show ?thesis using assms Finish_keys [of "tracker g" r w] by simp
next
  case (OpMatch m c)
  then show ?thesis
    using assms by (auto simp: MatchAnswer_def Let_def disown_def map_simps split: option.splits if_splits)
next
  case (OpAttempt r)
  then show ?thesis
    using assms by (auto simp: attempt_def admit_def Let_def split: option.splits if_splits)
qed (use assms in \<open>auto simp: Let_def PrepareWrite_def newTicket_def Cancel_def setTicket_def disown_def map_simps
    Release_def publication_def unlock_def BeginWrite_def CloseAdmission_def split: option.splits if_splits\<close>)

lemma closing_run:
  "prClosing (tracker g) \<Longrightarrow>
     prClosing (tracker (fst (run prStep g ops))) \<and> ownedKeys (fst (run prStep g ops)) \<subseteq> ownedKeys g"
proof (induction ops arbitrary: g)
  case (Cons i ops)
  show ?case
    using closing_step [OF Cons.prems, of i] Cons.IH [of "fst (prStep g i)"] unfolding run_Cons by blast
qed simp

lemma rollback_older:
  assumes inv: "prInv p" and prev: "\<And>i. prev = Some i \<Longrightarrow> i < r" and r: "r < length (prTickets p)"
  shows "rollback n ((prTickets p)[r := t]) prev = rollback n (prTickets p) prev"
  using prev
proof (induction n arbitrary: prev)
  case (Suc n)
  show ?case
  proof (cases prev)
    case (Some i)
    have "i < r" using Suc.prems Some by blast
    moreover have "rollback n ((prTickets p)[r := t]) (rwPrevious (ticket p i)) = rollback n (prTickets p) (rwPrevious (ticket p i))"
      using prInv_previous [OF inv, of i] \<open>i < r\<close> r by (intro Suc.IH) force
    ultimately show ?thesis using Some by simp
  qed simp
qed simp

lemma rollback_find:
  "rollback n ts prev = Some x \<Longrightarrow> x = find (\<lambda>i. \<not> rwFailed (ts ! i) \<and> \<not> rwCancelled (ts ! i)) (chain n ts prev)"
  by (induction n ts prev rule: rollback.induct) (auto split: if_splits)

lemma Finish_owner:
  assumes inv: "prInv p" and k: "map_of (prPending p) k = Some r"
  shows "map_of (prPending (FinishWrite p r False)) k =
    find (\<lambda>i. \<not> rwFailed (ticket p i) \<and> \<not> rwCancelled (ticket p i))
      (chain (Suc (length (prTickets p))) (prTickets p) (rwPrevious (ticket p r)))"
proof -
  have r: "r < length (prTickets p)" "rwKey (ticket p r) = k"
    using prInv_pending [OF inv k] by simp_all
  have "\<exists>x. rollback (Suc (length (prTickets p))) (prTickets p) (rwPrevious (ticket p r)) = Some x \<and>
    (\<forall>j. x = Some j \<longrightarrow> j < length (prTickets p) \<and> rwKey (ticket p j) = k \<and> \<not> rwCancelled (ticket p j))"
    using prInv_previous [OF inv r(1)] r by (intro rollback_ok [OF inv]) (force simp: sameKey_def)
  then obtain x where x: "rollback (Suc (length (prTickets p))) (prTickets p) (rwPrevious (ticket p r)) = Some x"
    by blast
  have older: "\<And>j. rwPrevious (ticket p r) = Some j \<Longrightarrow> j < r"
    using prInv_previous [OF inv r(1)] by blast
  have "rollback (Suc (length (prTickets p))) ((prTickets p)[r := (ticket p r)\<lparr>rwFailed := True\<rparr>]) (rwPrevious (ticket p r)) = Some x"
    using rollback_older [OF inv _ r(1), of "rwPrevious (ticket p r)"] older x by simp
  then show ?thesis
    using k r rollback_find [OF x]
    by (auto simp: FinishWrite_def Let_def setTicket_def own_def disown_def map_simps simp del: rollback.simps chain.simps
        split: option.splits)
qed

lemma publicationHeader_headerBytes:
  assumes "Header_ok h" "MessageLength h = 20" "CommandFlags h AND RequestFlag \<noteq> 0" "ApplicationID h \<noteq> 0"
  shows "publicationHeader (headerBytes h) = Some h"
proof -
  have "DecodeHeader (headerBytes h @ []) = Inr h"
    by (rule DecodeHeader_headerBytes [OF assms(1)])
  then have "Header_DecodeFromBytes zeroHeader (headerBytes h) = (h, None)"
    by (auto simp: DecodeHeader_def split: prod.splits option.splits)
  then show ?thesis
    using assms by (simp add: publicationHeader_def length_headerBytes)
qed

lemma sampleFrame_header: "publicationHeader sampleFrame = Some sampleHeader"
  unfolding sampleFrame_def
  by (rule publicationHeader_headerBytes) (simp_all add: sampleHeader_def Header_ok_def RequestFlag_def MaxMessageLength_def)

lemmas history_eval = run_Cons sampleFrame_header initialWriteState_def newPendingRequests_def PrepareWrite_def
  newTicket_def BeginWrite_def FinishWrite_def own_def disown_def setTicket_def Release_def Cancel_def
  CloseAdmission_def Let_def


text \<open>C17. Closing freezes the answers a connection may still receive: from the moment admission is
  closed, no sequence of writes, cancellations, answers or retries ever adds a request key to the set
  of owned ones, and closing is permanent.\<close>

theorem closing_freezes_requests:
  "prClosing (tracker g) \<Longrightarrow>
     prClosing (tracker (fst (run prStep g ops))) \<and> ownedKeys (fst (run prStep g ops)) \<subseteq> ownedKeys g"
  by (rule closing_run)

theorem closing_freezes_requests_witness:
  "ownedKeys (fst (run prStep (fst (run prStep initialWriteState [OpBegin sampleFrame, OpClose]))
     [OpFinish 0 True, OpBegin sampleFrame, OpPrepare (sampleHeader\<lparr>HopByHopID := 8\<rparr>), OpAttempt (Some 1)])) \<subseteq>
   {RequestKey 7 9 272 4}"
proof -
  let ?g = "fst (run prStep initialWriteState [OpBegin sampleFrame, OpClose])"
  have "prClosing (tracker ?g)" "ownedKeys ?g = {RequestKey 7 9 272 4}"
    by (simp_all add: history_eval keyForRequest_def sampleHeader_def del: run.simps(2))
  then show ?thesis
    using closing_freezes_requests [of ?g] by metis
qed

text \<open>C13. In every history of a connection, whoever owns a request key is a ticket made for exactly
  that key and not a cancelled one: an answer is never credited to a completed request.\<close>

theorem owners_are_live:
  "map_of (prPending (tracker (fst (run prStep initialWriteState ops)))) k = Some r \<Longrightarrow>
     r < length (prTickets (tracker (fst (run prStep initialWriteState ops)))) \<and>
     rwKey (ticket (tracker (fst (run prStep initialWriteState ops))) r) = k \<and>
     \<not> rwCancelled (ticket (tracker (fst (run prStep initialWriteState ops))) r)"
  by (rule prInv_pending [OF writes.run_inv [OF prInv_initial]])

theorem owners_are_live_witness:
  "\<not> rwCancelled (ticket (tracker (fst (run prStep initialWriteState [OpPrepare sampleHeader, OpCancel 0, OpRelease 0, OpBegin sampleFrame]))) 1)"
proof -
  let ?ops = "[OpPrepare sampleHeader, OpCancel 0, OpRelease 0, OpBegin sampleFrame]"
  have "map_of (prPending (tracker (fst (run prStep initialWriteState ?ops)))) (keyForRequest sampleHeader) = Some 1"
    by (simp add: history_eval del: run.simps(2))
  then show ?thesis
    using owners_are_live [of ?ops "keyForRequest sampleHeader" 1] by blast
qed

text \<open>C35. A failed write gives the key back: in every history, when the owner of a key reports failure,
  the walk over the tickets it overlapped ends, and the key goes to the newest of them that neither
  failed nor was cancelled, or to nobody if there is none.\<close>

theorem failed_write_restores:
  assumes "p = tracker (fst (run prStep initialWriteState ops))" "map_of (prPending p) k = Some r"
  shows "map_of (prPending (FinishWrite p r False)) k =
    find (\<lambda>i. \<not> rwFailed (ticket p i) \<and> \<not> rwCancelled (ticket p i))
      (chain (Suc (length (prTickets p))) (prTickets p) (rwPrevious (ticket p r)))"
proof -
  have inv: "prInv p" using writes.run_inv [OF prInv_initial] assms(1) by simp
  show ?thesis by (rule Finish_owner [OF inv assms(2)])
qed

theorem failed_write_restores_witness:
  "map_of (prPending (FinishWrite (tracker (fst (run prStep initialWriteState
      [OpBegin sampleFrame, OpBegin sampleFrame, OpBegin sampleFrame, OpFinish 1 False]))) 2 False))
     (keyForRequest sampleHeader) = Some 0"
proof -
  let ?p = "tracker (fst (run prStep initialWriteState [OpBegin sampleFrame, OpBegin sampleFrame, OpBegin sampleFrame, OpFinish 1 False]))"
  have p: "?p = \<lparr>prClosing = False, prPending = [(keyForRequest sampleHeader, 2)], prReserved = [],
    prTickets = [\<lparr>rwKey = keyForRequest sampleHeader, rwCancelled = False, rwPrevious = None, rwFailed = False\<rparr>,
      \<lparr>rwKey = keyForRequest sampleHeader, rwCancelled = False, rwPrevious = Some 0, rwFailed = True\<rparr>,
      \<lparr>rwKey = keyForRequest sampleHeader, rwCancelled = False, rwPrevious = Some 1, rwFailed = False\<rparr>]\<rparr>"
    by (simp add: history_eval del: run.simps(2))
  have "map_of (prPending ?p) (keyForRequest sampleHeader) = Some 2" unfolding p by simp
  from failed_write_restores [OF refl this] show ?thesis unfolding p by simp
qed

text \<open>C36. The write gate admits a tracked request exactly when nobody holds the gate, the request is not
  completed and the connection is not Closing; the request then owns its key before a byte is
  written. Otherwise nothing changes.\<close>

theorem gate_admission:
  "if \<not> held g \<and> \<not> rwCancelled (ticket (tracker g) r) \<and> \<not> prClosing (tracker g)
   then fst (attempt g (Some r)) = Locked \<and> held (snd (attempt g (Some r))) \<and>
     map_of (prPending (tracker (snd (attempt g (Some r))))) (rwKey (ticket (tracker g) r)) = Some r
   else fst (attempt g (Some r)) \<noteq> Locked \<and> snd (attempt g (Some r)) = g"
  by (auto simp: attempt_def admit_def own_def map_simps)

text \<open>C37. An answer is matched on command, application and both identifiers, and a consumed answer is
  gone: the same answer does not match again, while all other requests keep their owners.\<close>

theorem answer_consumed_once:
  assumes "MatchAnswer p (Some m) True = (True, p')"
  shows "CommandFlags (msgHeader m) AND RequestFlag = 0 \<and>
    map_of (prPending p) (keyForRequest (msgHeader m)) \<noteq> None \<and>
    (\<forall>m' c. keyForRequest (msgHeader m') = keyForRequest (msgHeader m) \<longrightarrow> MatchAnswer p' (Some m') c = (False, p')) \<and>
    (\<forall>k. k \<noteq> keyForRequest (msgHeader m) \<longrightarrow> map_of (prPending p') k = map_of (prPending p) k)"
  using assms by (auto simp: MatchAnswer_def disown_def map_simps Let_def split: if_splits)

theorem answer_consumed_once_witness:
  "let p = tracker (fst (run prStep initialWriteState [OpBegin sampleFrame]));
       m = (blankMessage sampleDict)\<lparr>msgHeader := sampleHeader\<lparr>CommandFlags := 0\<rparr>\<rparr>
   in fst (MatchAnswer p (Some m) True) \<and> \<not> fst (MatchAnswer (snd (MatchAnswer p (Some m) True)) (Some m) True)"
proof -
  let ?p = "tracker (fst (run prStep initialWriteState [OpBegin sampleFrame]))"
  let ?m = "(blankMessage sampleDict)\<lparr>msgHeader := sampleHeader\<lparr>CommandFlags := 0\<rparr>\<rparr>"
  have "fst (MatchAnswer ?p (Some ?m) True)"
    by (simp add: history_eval MatchAnswer_def keyForRequest_def del: run.simps(2))
  then have "MatchAnswer ?p (Some ?m) True = (True, snd (MatchAnswer ?p (Some ?m) True))"
    by (simp add: prod_eq_iff)
  from answer_consumed_once [OF this] show ?thesis
    unfolding Let_def using \<open>fst (MatchAnswer ?p (Some ?m) True)\<close> by simp
qed

text \<open>C38. A defect: the failure mark of a reserved ticket survives a later success. After a first write
  that failed and a retry that succeeded, a further retransmission that fails takes the key away,
  although the request was transmitted; without the first failure the key is kept.\<close>

theorem retried_request_loses_owner:
  assumes "publicationHeader b = Some h"
  shows "map_of (prPending (tracker (fst (run prStep initialWriteState
      [OpPrepare h, OpBegin b, OpFinish 0 False, OpBegin b, OpFinish 0 True, OpRelease 0, OpBegin b, OpFinish 1 False]))))
      (keyForRequest h) = None \<and>
    map_of (prPending (tracker (fst (run prStep initialWriteState
      [OpPrepare h, OpBegin b, OpFinish 0 True, OpRelease 0, OpBegin b, OpFinish 1 False])))) (keyForRequest h) = Some 0"
  using assms by (simp_all add: history_eval del: run.simps(2))

theorem retried_request_loses_owner_witness:
  "map_of (prPending (tracker (fst (run prStep initialWriteState
      [OpPrepare sampleHeader, OpBegin sampleFrame, OpFinish 0 False, OpBegin sampleFrame, OpFinish 0 True,
       OpRelease 0, OpBegin sampleFrame, OpFinish 1 False])))) (keyForRequest sampleHeader) = None"
  by (rule conjunct1 [OF retried_request_loses_owner [OF sampleFrame_header]])

end
