(* ===== verification/Base.thy ===== *)
theory Base
  imports Validation Pending
begin

text \<open>
  The base protocol commands: \<open>src/diam/internal/base\<close>. Header checks, the grammar and data type check
  of the six base messages, the parsers of CER, CEA, DWR and DWA with the part of
  \<open>src/diam/reflect.go\<close> they use, the application negotiation and the validation of requests. The
  canonical base dictionary, which the code loads from an embedded file, is the argument \<open>canonical\<close>.
  Cloning is the identity on values; error texts are left out.
\<close>

section \<open>Codes\<close>

definition CapabilitiesExchange :: u32 where "CapabilitiesExchange = 257"
definition DeviceWatchdog :: u32 where "DeviceWatchdog = 280"

definition HostIPAddressCode :: u32 where "HostIPAddressCode = 257"
definition SessionIDCode :: u32 where "SessionIDCode = 263"
definition OriginHostCode :: u32 where "OriginHostCode = 264"
definition SupportedVendorIDCode :: u32 where "SupportedVendorIDCode = 265"
definition VendorIDCode :: u32 where "VendorIDCode = 266"
definition FirmwareRevisionCode :: u32 where "FirmwareRevisionCode = 267"
definition ProductNameCode :: u32 where "ProductNameCode = 269"
definition DisconnectCauseCode :: u32 where "DisconnectCauseCode = 273"
definition OriginStateIDCode :: u32 where "OriginStateIDCode = 278"
definition OriginRealmCode :: u32 where "OriginRealmCode = 296"
definition InbandSecurityIDCode :: u32 where "InbandSecurityIDCode = 299"

definition Success :: u32 where "Success = 2001"
definition ApplicationUnsupported :: u32 where "ApplicationUnsupported = 3007"
definition AVPUnsupported :: u32 where "AVPUnsupported = 5001"
definition NoCommonApplication :: u32 where "NoCommonApplication = 5010"
definition UnableToComply :: u32 where "UnableToComply = 5012"
definition NoCommonSecurity :: u32 where "NoCommonSecurity = 5017"

definition relayID :: u32 where "relayID = 0xffffffff"

datatype ProtocolErrorKind =
    NoKind | ProtocolReplyFailure | ProtocolMalformedMessage | ProtocolInvalidHeader | ProtocolUnsupportedAVP
  | ProtocolInvalidRequest | ProtocolUnsupportedCommand | ProtocolUnsupportedApplication | ProtocolInvalidDWR
  | ProtocolInvalidDWA | ProtocolRejectedDWA | ProtocolInvalidDPR | ProtocolInvalidDPA | ProtocolUnexpectedMessage
  | ProtocolHandshakeState | ProtocolCERRejected | ProtocolHandshakeTimeout | ProtocolCEARejected
  | ProtocolPeerRejected | ProtocolDisconnectTimeout | ProtocolWatchdogTimeout

text \<open>A \<open>*diam.MessageError\<close>: Result-Code, Failed-AVP, and whether the connection lost its framing.\<close>

datatype message_error = MessageErr (meResultCode: u32) (meFailedAVP: "avp option") (meFatal: bool)

section \<open>Headers\<close>

definition FatalHeaderError :: "message_error option \<Rightarrow> bool" where
  "FatalHeaderError err \<longleftrightarrow>
     (case err of
        None \<Rightarrow> False
      | Some e \<Rightarrow> meFatal e \<and> (meResultCode e = UnsupportedVersion \<or> meResultCode e = InvalidMessageLength))"

definition IsCommand :: "Message \<Rightarrow> bool" where
  "IsCommand m \<longleftrightarrow> CommandCode (msgHeader m) \<in> {CapabilitiesExchange, DeviceWatchdog, DisconnectPeer}"

definition ValidateHeader :: "Message \<Rightarrow> message_error option" where
  "ValidateHeader m =
     (let h = msgHeader m; flags = CommandFlags h
      in if \<not> IsCommand m then None
         else if ApplicationID h \<noteq> 0 then Some (MessageErr InvalidHDRBits None False)
         else if flags AND ProxiableFlag \<noteq> 0 \<and> flags AND ErrorFlag = 0 \<or>
                 flags AND RequestFlag \<noteq> 0 \<and> flags AND ErrorFlag \<noteq> 0 \<or>
                 flags AND RequestFlag = 0 \<and> flags AND RetransmittedFlag \<noteq> 0
         then Some (MessageErr InvalidHDRBits None False) else None)"

definition AnswerErrorKind :: "Message \<Rightarrow> ProtocolErrorKind" where
  "AnswerErrorKind m =
     (if CommandCode (msgHeader m) = DeviceWatchdog then ProtocolInvalidDWA
      else if CommandCode (msgHeader m) = DisconnectPeer then ProtocolInvalidDPA
      else ProtocolCEARejected)"

section \<open>Types of the base AVPs\<close>

text \<open>\<open>utf8.Valid\<close>.\<close>

definition isCont :: "byte \<Rightarrow> bool" where "isCont b \<longleftrightarrow> 0x80 \<le> b \<and> b \<le> 0xBF"

fun utf8Valid :: "bytes \<Rightarrow> bool" where
  "utf8Valid [] = True"
| "utf8Valid (b0 # r) =
     (if b0 < 0x80 then utf8Valid r
      else if 0xC2 \<le> b0 \<and> b0 \<le> 0xDF then
        (case r of b1 # r' \<Rightarrow> isCont b1 \<and> utf8Valid r' | _ \<Rightarrow> False)
      else if 0xE0 \<le> b0 \<and> b0 \<le> 0xEF then
        (case r of
           b1 # b2 # r' \<Rightarrow>
             (if b0 = 0xE0 then 0xA0 \<le> b1 \<and> b1 \<le> 0xBF else if b0 = 0xED then 0x80 \<le> b1 \<and> b1 \<le> 0x9F else isCont b1) \<and>
             isCont b2 \<and> utf8Valid r'
         | _ \<Rightarrow> False)
      else if 0xF0 \<le> b0 \<and> b0 \<le> 0xF4 then
        (case r of
           b1 # b2 # b3 # r' \<Rightarrow>
             (if b0 = 0xF0 then 0x90 \<le> b1 \<and> b1 \<le> 0xBF else if b0 = 0xF4 then 0x80 \<le> b1 \<and> b1 \<le> 0x8F else isCont b1) \<and>
             isCont b2 \<and> isCont b3 \<and> utf8Valid r'
         | _ \<Rightarrow> False)
      else False)"

declare utf8Valid.simps(2) [simp del]

text \<open>A decoded group has its own type identifier, \<open>GroupedAVPType\<close>.\<close>

definition payload_Type :: "payload \<Rightarrow> TypeID" where
  "payload_Type p = (case p of Typ d \<Rightarrow> dt_Type d | GroupedAVP as \<Rightarrow> OtherType 50)"

definition typeProblem :: "dictAVP \<Rightarrow> avp \<Rightarrow> u32 option" where
  "typeProblem d a =
     (let t = dataType (avpData d);
          invalid = (case Data a of None \<Rightarrow> True | Some p \<Rightarrow> payload_Type p \<noteq> t);
          invalid = (if t = GroupedType then (case Data a of Some (GroupedAVP as) \<Rightarrow> False | _ \<Rightarrow> True) else invalid);
          (code, invalid) =
            (case Data a of
               None \<Rightarrow> (InvalidAVPValue, invalid)
             | Some p \<Rightarrow>
                 if t = Unsigned32Type \<or> t = EnumeratedType then
                   (if payload_Len p \<noteq> 4 then (InvalidAVPLength, True) else (InvalidAVPValue, invalid))
                 else if t = AddressType then
                   (case DecodeAddress (payload_Serialize p) of
                      Inl e \<Rightarrow> (if payload_Len p < 2 then InvalidAVPLength else InvalidAVPValue, True)
                    | Inr v \<Rightarrow> (InvalidAVPValue, invalid))
                 else if t = DiameterIdentityType then
                   (InvalidAVPValue,
                    if invalid then True
                    else \<not> DiameterIdentity_Valid (case p of Typ (DiameterIdentity s) \<Rightarrow> s | _ \<Rightarrow> payload_Serialize p))
                 else if t = UTF8StringType then (InvalidAVPValue, invalid \<or> \<not> utf8Valid (payload_Serialize p))
                 else (InvalidAVPValue, invalid));
          invalid = (if Code a = DisconnectCauseCode \<and> VendorID a = 0
                     then (case Data a of Some (Typ (Enumerated v)) \<Rightarrow> invalid \<or> sint v < 0 \<or> sint v > 2 | _ \<Rightarrow> invalid) else invalid);
          invalid = (if Code a = SupportedVendorIDCode \<and> VendorID a = 0
                     then (case Data a of Some (Typ (Unsigned32 v)) \<Rightarrow> invalid \<or> v = 0 | _ \<Rightarrow> invalid) else invalid)
      in if invalid then Some code else None)"

function validateTypes :: "avp list \<Rightarrow> Snapshot \<Rightarrow> (u32 \<times> avp) option" where
  "validateTypes [] dict = None"
| "validateTypes (a # as) dict =
     (case (case FindAVP dict 0 (Code a) (VendorID a) of
              None \<Rightarrow> None
            | Some d \<Rightarrow>
                if isFailedAVP a then None
                else case typeProblem d a of
                    Some code \<Rightarrow> Some (code, a)
                  | None \<Rightarrow>
                      (case Data a of
                         Some (GroupedAVP gs) \<Rightarrow>
                           map_option (\<lambda>(code, f). (code, withPayload a (GroupedAVP [f]))) (validateTypes gs dict)
                       | _ \<Rightarrow> None)) of
        Some e \<Rightarrow> Some e
      | None \<Rightarrow> validateTypes as dict)"
  by pat_completeness auto
termination
  by (relation "measure (\<lambda>(items, _). size_list size items)") (auto dest: size_Data)

declare validateTypes.simps(2) [simp del]

definition protocolResultWithoutE :: "Message \<Rightarrow> bool" where
  "protocolResultWithoutE m \<longleftrightarrow>
     CommandFlags (msgHeader m) AND RequestFlag = 0 \<and> CommandFlags (msgHeader m) AND ErrorFlag = 0 \<and>
     (case resultCode (msgAVP m) of Some v \<Rightarrow> 3000 \<le> v \<and> v < 4000 | None \<Rightarrow> False)"

definition ValidateMessage :: "Snapshot \<Rightarrow> Message \<Rightarrow> message_error option" where
  "ValidateMessage canonical m =
     (case ValidateHeader m of
        Some e \<Rightarrow> Some e
      | None \<Rightarrow>
          if \<not> IsCommand m then None
          else
            let message = (NewMessage (CommandCode (msgHeader m)) (CommandFlags (msgHeader m)) 0 1 1 canonical 0 0)
                            \<lparr>msgHeader := msgHeader m, msgAVP := msgAVP m\<rparr>
            in case Validate message of
                Some e \<Rightarrow> Some (MessageErr (vResultCode e) (vFailedAVP e) False)
              | None \<Rightarrow>
                  if protocolResultWithoutE m then Some (MessageErr InvalidHDRBits None False)
                  else map_option (\<lambda>(code, f). MessageErr code (Some f) False) (validateTypes (msgAVP m) canonical))"

section \<open>Requests\<close>

record RequestError =
  reKind :: ProtocolErrorKind
  reCode :: u32
  reFailed :: "avp list"

definition SupportsApplication :: "u32 list \<Rightarrow> u32 \<Rightarrow> bool" where
  "SupportsApplication applications aid \<longleftrightarrow> aid = 0 \<or> aid \<in> set applications \<or> relayID \<in> set applications"

definition ValidateRequest :: "Message \<Rightarrow> u32 list \<Rightarrow> bool \<Rightarrow> bool \<Rightarrow> message_error option \<Rightarrow> RequestError option" where
  "ValidateRequest m applications validate rejectUnknown decodeError =
     (if CommandFlags (msgHeader m) AND RequestFlag = 0 then None
      else if validate \<and> \<not> SupportsApplication applications (ApplicationID (msgHeader m))
      then Some \<lparr>reKind = ProtocolUnsupportedApplication, reCode = ApplicationUnsupported, reFailed = []\<rparr>
      else if rejectUnknown \<and> relayID \<notin> set applications \<and> unknownMandatoryAVPs m \<noteq> []
      then Some \<lparr>reKind = ProtocolUnsupportedAVP, reCode = AVPUnsupported, reFailed = unknownMandatoryAVPs m\<rparr>
      else case decodeError of
          Some e \<Rightarrow> Some \<lparr>reKind = ProtocolMalformedMessage, reCode = meResultCode e,
                          reFailed = (case meFailedAVP e of None \<Rightarrow> [] | Some f \<Rightarrow> [f])\<rparr>
        | None \<Rightarrow>
            if validate then
              map_option (\<lambda>e. \<lparr>reKind = ProtocolInvalidRequest, reCode = vResultCode e,
                               reFailed = (case vFailedAVP e of None \<Rightarrow> [] | Some f \<Rightarrow> [f])\<rparr>) (Validate m)
            else None)"

section \<open>Disconnection\<close>

definition identityPresent :: "avp \<Rightarrow> bool" where
  "identityPresent a \<longleftrightarrow> (case Data a of Some (Typ (DiameterIdentity v)) \<Rightarrow> v \<noteq> [] | _ \<Rightarrow> False)"

text \<open>The loops of \<open>ValidateDPR\<close> and \<open>ValidateDPA\<close>: counts of Origin-Host, Origin-Realm and of the third
  AVP, and its value; \<open>None\<close> is the early return.\<close>

fun scanDPR :: "avp list \<Rightarrow> nat \<times> nat \<times> nat \<times> u32 \<Rightarrow> (nat \<times> nat \<times> nat \<times> u32) option" where
  "scanDPR [] s = Some s"
| "scanDPR (a # as) (host, realm, cause, value) =
     (if VendorID a \<noteq> 0 then scanDPR as (host, realm, cause, value)
      else if Code a = OriginHostCode then
        (if identityPresent a then scanDPR as (host + 1, realm, cause, value) else None)
      else if Code a = OriginRealmCode then
        (if identityPresent a then scanDPR as (host, realm + 1, cause, value) else None)
      else if Code a = DisconnectCauseCode then
        (case Data a of
           Some (Typ (Enumerated v)) \<Rightarrow>
             (if sint v < 0 \<or> sint v > 2 then None else scanDPR as (host, realm, cause + 1, v))
         | _ \<Rightarrow> None)
      else scanDPR as (host, realm, cause, value))"

definition ValidateDPR :: "Message \<Rightarrow> u32 option" where
  "ValidateDPR m =
     (let h = msgHeader m
      in if ApplicationID h \<noteq> 0 \<or> CommandCode h \<noteq> DisconnectPeer \<or> CommandFlags h AND RequestFlag = 0 then None
         else case scanDPR (msgAVP m) (0, 0, 0, 0) of
             None \<Rightarrow> None
           | Some (host, realm, cause, value) \<Rightarrow>
               if host \<noteq> 1 \<or> realm \<noteq> 1 \<or> cause \<noteq> 1 then None else Some value)"

fun scanDPA :: "avp list \<Rightarrow> nat \<times> nat \<times> nat \<times> u32 \<Rightarrow> (nat \<times> nat \<times> nat \<times> u32) option" where
  "scanDPA [] s = Some s"
| "scanDPA (a # as) (host, realm, result, code) =
     (if VendorID a \<noteq> 0 then scanDPA as (host, realm, result, code)
      else if Code a = OriginHostCode then
        (if identityPresent a then scanDPA as (host + 1, realm, result, code) else None)
      else if Code a = OriginRealmCode then
        (if identityPresent a then scanDPA as (host, realm + 1, result, code) else None)
      else if Code a = ResultCode then
        (case Data a of
           Some (Typ (Unsigned32 v)) \<Rightarrow> scanDPA as (host, realm, result + 1, v)
         | _ \<Rightarrow> None)
      else scanDPA as (host, realm, result, code))"

definition ValidateDPA :: "Message \<Rightarrow> u32 option" where
  "ValidateDPA m =
     (let h = msgHeader m
      in if ApplicationID h \<noteq> 0 \<or> CommandCode h \<noteq> DisconnectPeer \<or> CommandFlags h AND RequestFlag \<noteq> 0 then None
         else case scanDPA (msgAVP m) (0, 0, 0, 0) of
             None \<Rightarrow> None
           | Some (host, realm, result, code) \<Rightarrow>
               if host \<noteq> 1 \<or> realm \<noteq> 1 \<or> result \<noteq> 1 then None else Some code)"

end
