(* ===== verification/Capabilities.thy ===== *)
theory Capabilities
  imports Base
begin

text \<open>
  Capabilities of \<open>src/diam/internal/base\<close>: the common applications of a received offer (\<open>app.go\<close>),
  the parsers of CER, CEA, DWR and DWA (\<open>cer.go\<close>, \<open>cea.go\<close>, \<open>dwr.go\<close>, \<open>dwa.go\<close>) with the
  cases of \<open>Unmarshal\<close> (\<open>src/diam/reflect.go\<close>) their fields need, the local offer
  (\<open>capabilities.go\<close>) and the message builders (\<open>builders.go\<close>). A Go slice whose nil value differs
  from the empty one is an option of a list.
\<close>

section \<open>Common applications\<close>

datatype Role = Server | Client

datatype base_error =
    BMessage message_error | ErrMissingResultCode | ErrMissingOriginHost | ErrMissingOriginRealm
  | ErrMissingApplication | ErrNoCommonSecurity | ErrNoCommonApplication | ErrUnexpectedAVP avp
  | ErrFailedResultCode u32 | ErrUnmarshal | GoPanic

record Application =
  AcctApplications :: "avp list"
  AuthApplications :: "avp list"
  VendorSpecificApplications :: "avp list"
  appIDs :: "u32 list"
  advertised :: "u32 set option"

type_synonym verdict = "avp option \<times> base_error option"

definition chooseErr :: "avp option \<Rightarrow> base_error option \<Rightarrow> bool \<Rightarrow> avp option \<Rightarrow> base_error option
    \<Rightarrow> avp option \<times> base_error option \<times> bool" where
  "chooseErr curAVP curErr oneFound newAVP newErr =
     (if newErr = None then (curAVP, curErr, True)
      else if curErr = None \<or> curAVP = None \<and> newAVP \<noteq> None then (newAVP, newErr, oneFound)
      else (curAVP, curErr, oneFound))"

definition appTypeName :: "u32 \<Rightarrow> string" where
  "appTypeName t = (if t = AcctApplicationID then ''acct'' else if t = AuthApplicationID then ''auth'' else [])"

definition Application_validate :: "Snapshot \<Rightarrow> u32 \<Rightarrow> avp \<Rightarrow> Application \<Rightarrow> verdict \<times> Application" where
  "Application_validate d kind a app =
     (let found = (\<lambda>i. ((None, None), app\<lparr>appIDs := appIDs app @ [i]\<rparr>))
      in if Code a \<noteq> kind then ((Some a, Some (ErrUnexpectedAVP a)), app)
         else case Data a of
             Some (Typ (Unsigned32 i)) \<Rightarrow>
               if i = 0 then ((Some a, Some ErrNoCommonApplication), app)
               else if i = relayID then found i
               else (case advertised app of
                   Some ids \<Rightarrow>
                     if i \<notin> ids \<and> relayID \<notin> ids then ((Some a, Some ErrNoCommonApplication), app) else found i
                 | None \<Rightarrow>
                     if Snapshot_App d i (Some (appTypeName kind)) = None
                     then ((Some a, Some ErrNoCommonApplication), app) else found i)
           | _ \<Rightarrow> ((Some a, Some (ErrUnexpectedAVP a)), app))"

fun validateEach :: "Snapshot \<Rightarrow> u32 \<Rightarrow> avp list \<Rightarrow> avp option \<times> base_error option \<times> bool \<Rightarrow> Application
    \<Rightarrow> (avp option \<times> base_error option \<times> bool) \<times> Application" where
  "validateEach d kind [] s app = (s, app)"
| "validateEach d kind (a # as) (failed, err, oneFound) app =
     (case Application_validate d kind a app of
        ((f, e), app) \<Rightarrow> validateEach d kind as (chooseErr failed err oneFound f e) app)"

definition validateAll :: "Snapshot \<Rightarrow> u32 \<Rightarrow> avp list \<Rightarrow> Role \<Rightarrow> Application \<Rightarrow> verdict \<times> Application" where
  "validateAll d kind as role app =
     (if as \<noteq> [] then
        (case validateEach d kind as (None, None, False) app of
           ((failed, err, oneFound), app) \<Rightarrow> (if oneFound then (None, None) else (failed, err), app))
      else ((None, Some (if role = Client then ErrMissingApplication else ErrNoCommonApplication)), app))"

fun groupEach :: "Snapshot \<Rightarrow> avp list \<Rightarrow> verdict \<Rightarrow> bool \<Rightarrow> Application \<Rightarrow> (verdict \<times> bool) \<times> Application" where
  "groupEach d [] v success app = ((v, success), app)"
| "groupEach d (a # as) v success app =
     (case (if Code a = AcctApplicationID \<or> Code a = AuthApplicationID
            then Application_validate d (Code a) a app else (v, app)) of
        (v, app) \<Rightarrow> groupEach d as v (success \<or> snd v = None) app)"

definition handleGroup :: "Snapshot \<Rightarrow> avp \<Rightarrow> Application \<Rightarrow> verdict \<times> Application" where
  "handleGroup d g app =
     (case Data g of
        Some (GroupedAVP as) \<Rightarrow>
          (case groupEach d as (None, None) False app of
             ((v, success), app) \<Rightarrow> (if success then (None, None) else v, app))
      | _ \<Rightarrow> ((Some g, Some (ErrUnexpectedAVP g)), app))"

fun groupsEach :: "Snapshot \<Rightarrow> avp list \<Rightarrow> avp option \<times> base_error option \<times> bool \<Rightarrow> Application
    \<Rightarrow> (avp option \<times> base_error option \<times> bool) \<times> Application" where
  "groupsEach d [] s app = (s, app)"
| "groupsEach d (g # gs) (failed, err, oneFound) app =
     (case handleGroup d g app of
        ((f, e), app) \<Rightarrow> groupsEach d gs (chooseErr failed err oneFound f e) app)"

definition ParseWithApplicationIDs :: "Snapshot \<Rightarrow> Role \<Rightarrow> u32 list option \<Rightarrow> Application \<Rightarrow> verdict \<times> Application" where
  "ParseWithApplicationIDs d role localIDs app =
     (case validateAll d AcctApplicationID (AcctApplications app) role
             (app\<lparr>advertised := map_option set localIDs\<rparr>) of
        ((failed, err), app) \<Rightarrow>
          (case validateAll d AuthApplicationID (AuthApplications app) role app of
             ((f, e), app) \<Rightarrow>
               (case groupsEach d (VendorSpecificApplications app) (chooseErr failed err (err = None) f e) app of
                  ((failed, err, oneFound), app) \<Rightarrow>
                    (if \<not> oneFound then (failed, err)
                     else if appIDs app = []
                     then (failed, Some (if role = Client then ErrMissingApplication else ErrNoCommonApplication))
                     else (None, None), app))))"

section \<open>Reading messages into structures\<close>

text \<open>\<open>reflect\<close> converts an integer to a string as Go does: the UTF-8 encoding of the code point.\<close>

definition utf8Encode :: "int \<Rightarrow> bytes" where
  "utf8Encode r =
     (if r < 0 \<or> r > 0x10FFFF \<or> 0xD800 \<le> r \<and> r \<le> 0xDFFF then [0xEF, 0xBF, 0xBD]
      else if r < 0x80 then [word_of_int r]
      else if r < 0x800 then [0xC0 OR word_of_int (r div 64), 0x80 OR word_of_int (r mod 64)]
      else if r < 0x10000 then
        [0xE0 OR word_of_int (r div 4096), 0x80 OR word_of_int (r div 64 mod 64), 0x80 OR word_of_int (r mod 64)]
      else
        [0xF0 OR word_of_int (r div 262144), 0x80 OR word_of_int (r div 4096 mod 64),
         0x80 OR word_of_int (r div 64 mod 64), 0x80 OR word_of_int (r mod 64)])"

text \<open>A string field keeps its value when the payload does not convert.\<close>

definition stringOf :: "payload \<Rightarrow> bytes option" where
  "stringOf p =
     (case p of
        GroupedAVP as \<Rightarrow> None
      | Typ d \<Rightarrow>
          (case d of
             Unknown b \<Rightarrow> Some b | DiameterIdentity b \<Rightarrow> Some b | DiameterURI b \<Rightarrow> Some b | Grouped b \<Rightarrow> Some b
           | IPFilterRule b \<Rightarrow> Some b | IPv4 b \<Rightarrow> Some b | IPv6 b \<Rightarrow> Some b | OctetString b \<Rightarrow> Some b
           | QoSFilterRule b \<Rightarrow> Some b | UTF8String b \<Rightarrow> Some b
           | Enumerated v \<Rightarrow> Some (utf8Encode (sint v)) | Integer32 v \<Rightarrow> Some (utf8Encode (sint v))
           | Integer64 v \<Rightarrow> Some (utf8Encode (sint v)) | Unsigned32 v \<Rightarrow> Some (utf8Encode (uint v))
           | Unsigned64 v \<Rightarrow> Some (utf8Encode (uint v))
           | _ \<Rightarrow> None))"

text \<open>The integer part of an IEEE number with \<open>eb\<close> exponent and \<open>mb\<close> fraction bits; Go leaves values
  outside the target's range to the implementation.\<close>

definition floatTrunc :: "nat \<Rightarrow> nat \<Rightarrow> nat \<Rightarrow> int" where
  "floatTrunc eb mb bits =
     (let e = bits div 2 ^ mb mod 2 ^ eb; f = bits mod 2 ^ mb; bias = 2 ^ (eb - 1) - 1;
          magnitude = (if e < bias then 0 else (2 ^ mb + f) * 2 ^ (e - bias) div 2 ^ mb)
      in if bits div 2 ^ (mb + eb) = 1 then - int magnitude else int magnitude)"

definition uint32Of :: "payload \<Rightarrow> u32 option" where
  "uint32Of p =
     (case p of
        Typ (Enumerated v) \<Rightarrow> Some v | Typ (Integer32 v) \<Rightarrow> Some v | Typ (Unsigned32 v) \<Rightarrow> Some v
      | Typ (Integer64 v) \<Rightarrow> Some (ucast v) | Typ (Unsigned64 v) \<Rightarrow> Some (ucast v)
      | Typ (Float32 v) \<Rightarrow> Some (word_of_int (floatTrunc 8 23 (unat v)))
      | Typ (Float64 v) \<Rightarrow> Some (word_of_int (floatTrunc 11 52 (unat v)))
      | _ \<Rightarrow> None)"

definition isAddress :: "avp \<Rightarrow> bool" where
  "isAddress a \<longleftrightarrow> (case Data a of Some (Typ (AddressV v)) \<Rightarrow> True | _ \<Rightarrow> False)"

text \<open>The field kinds of the base structures. A scalar field rejects Address data, and reflection panics
  on a scalar AVP without data.\<close>

definition scalarField :: "(payload \<Rightarrow> 'v option) \<Rightarrow> ('v \<Rightarrow> 'r \<Rightarrow> 'r) \<Rightarrow> TypeID \<Rightarrow> avp list \<Rightarrow> 'r \<Rightarrow> base_error + 'r" where
  "scalarField conv put expected avps r =
     (if expected = AddressType \<or> isAddress (hd avps) then Inl ErrUnmarshal
      else case Data (hd avps) of
          None \<Rightarrow> Inl GoPanic
        | Some p \<Rightarrow> (case conv p of None \<Rightarrow> Inr r | Some v \<Rightarrow> Inr (put v r)))"

definition rawField :: "(avp option \<Rightarrow> 'r \<Rightarrow> 'r) \<Rightarrow> TypeID \<Rightarrow> avp list \<Rightarrow> 'r \<Rightarrow> base_error + 'r" where
  "rawField put expected avps r = Inr (put (Some (hd avps)) r)"

definition rawList :: "(avp list \<Rightarrow> 'r \<Rightarrow> 'r) \<Rightarrow> TypeID \<Rightarrow> avp list \<Rightarrow> 'r \<Rightarrow> base_error + 'r" where
  "rawList put expected avps r = Inr (put avps r)"

fun unmarshalAddresses :: "avp list \<Rightarrow> (base_error + Address list)" where
  "unmarshalAddresses [] = Inr []"
| "unmarshalAddresses (a # as) =
     (case Data a of
        Some (Typ (AddressV v)) \<Rightarrow>
          if Address_Valid v \<noteq> None then Inl ErrUnmarshal
          else (case unmarshalAddresses as of Inl e \<Rightarrow> Inl e | Inr vs \<Rightarrow> Inr (v # vs))
      | _ \<Rightarrow> Inl ErrUnmarshal)"

definition addressField :: "(Address list \<Rightarrow> 'r \<Rightarrow> 'r) \<Rightarrow> TypeID \<Rightarrow> avp list \<Rightarrow> 'r \<Rightarrow> base_error + 'r" where
  "addressField put expected avps r =
     (if expected \<noteq> AddressType \<and> \<not> isAddress (hd avps) \<and> Data (hd avps) = None then Inl GoPanic
      else case unmarshalAddresses avps of Inl e \<Rightarrow> Inl e | Inr vs \<Rightarrow> Inr (put vs r))"

fun scanStruct :: "Message \<Rightarrow> (string \<times> (TypeID \<Rightarrow> avp list \<Rightarrow> 'r \<Rightarrow> base_error + 'r)) list \<Rightarrow> 'r \<Rightarrow> base_error + 'r" where
  "scanStruct m [] r = Inr r"
| "scanStruct m ((name, f) # fs) r =
     (case FindAVPByName (dictionary m) (ApplicationID (msgHeader m)) name of
        None \<Rightarrow> Inl ErrUnmarshal
      | Some d \<Rightarrow>
          (case filter (\<lambda>a. Code a = avpCode d \<and> VendorID a = avpVendorID d) (msgAVP m) of
             [] \<Rightarrow> scanStruct m fs r
           | avps \<Rightarrow>
               (case f (dataType (avpData d)) avps r of
                  Inl e \<Rightarrow> Inl e
                | Inr r \<Rightarrow> scanStruct m fs r)))"

section \<open>CER and CEA\<close>

record CER =
  cerHostIPAddresses :: "Address list"
  cerOriginHost :: bytes
  cerOriginRealm :: bytes
  cerOriginStateID :: "avp option"
  cerInbandSecurityID :: "avp option"
  cerAcctApplicationID :: "avp list"
  cerAuthApplicationID :: "avp list"
  cerVendorSpecificApplicationID :: "avp list"
  cerAppID :: "u32 list"

definition zeroCER :: CER where
  "zeroCER = \<lparr>cerHostIPAddresses = [], cerOriginHost = [], cerOriginRealm = [], cerOriginStateID = None,
     cerInbandSecurityID = None, cerAcctApplicationID = [], cerAuthApplicationID = [],
     cerVendorSpecificApplicationID = [], cerAppID = []\<rparr>"

record ParseOptions =
  optRole :: Role
  optTLS :: bool
  optDictionary :: "Snapshot option"
  optLocalApplications :: "u32 list option"

definition CER_Unmarshal :: "Message \<Rightarrow> base_error + CER" where
  "CER_Unmarshal m = scanStruct m
     [(''Host-IP-Address'', addressField (\<lambda>v r. r\<lparr>cerHostIPAddresses := v\<rparr>)),
      (''Origin-Host'', scalarField stringOf (\<lambda>v r. r\<lparr>cerOriginHost := v\<rparr>)),
      (''Origin-Realm'', scalarField stringOf (\<lambda>v r. r\<lparr>cerOriginRealm := v\<rparr>)),
      (''Origin-State-Id'', rawField (\<lambda>v r. r\<lparr>cerOriginStateID := v\<rparr>)),
      (''Inband-Security-Id'', rawField (\<lambda>v r. r\<lparr>cerInbandSecurityID := v\<rparr>)),
      (''Acct-Application-Id'', rawList (\<lambda>v r. r\<lparr>cerAcctApplicationID := v\<rparr>)),
      (''Auth-Application-Id'', rawList (\<lambda>v r. r\<lparr>cerAuthApplicationID := v\<rparr>)),
      (''Vendor-Specific-Application-Id'', rawList (\<lambda>v r. r\<lparr>cerVendorSpecificApplicationID := v\<rparr>))] zeroCER"

definition rawHostIPAddress :: "avp \<Rightarrow> bool" where
  "rawHostIPAddress a \<longleftrightarrow> Code a = HostIPAddressCode \<and> VendorID a = 0 \<and>
     (case Data a of Some (Typ (Unknown b)) \<Rightarrow> True | _ \<Rightarrow> False)"

definition rawAddressError :: "avp \<Rightarrow> message_error" where
  "rawAddressError a =
     MessageErr (if (case Data a of Some p \<Rightarrow> payload_Len p | None \<Rightarrow> 0) < 2 then InvalidAVPLength else InvalidAVPValue)
       (Some a) False"

definition isInbandSecurityID :: "avp \<Rightarrow> bool" where
  "isInbandSecurityID a \<longleftrightarrow> Code a = InbandSecurityIDCode \<and> VendorID a = 0"

fun securityScan :: "bool \<Rightarrow> avp list \<Rightarrow> bool \<Rightarrow> bool \<Rightarrow> avp + bool \<times> bool" where
  "securityScan tls [] offered common = Inr (offered, common)"
| "securityScan tls (a # as) offered common =
     (if \<not> isInbandSecurityID a then securityScan tls as offered common
      else case Data a of
          Some (Typ (Unsigned32 v)) \<Rightarrow> securityScan tls as True (common \<or> v = 0 \<or> v = 1 \<and> tls)
        | _ \<Rightarrow> Inl a)"

definition offeredApplications :: "avp list \<Rightarrow> avp list \<Rightarrow> avp list \<Rightarrow> Application" where
  "offeredApplications acct auth vendorSpecific =
     \<lparr>AcctApplications = acct, AuthApplications = auth, VendorSpecificApplications = vendorSpecific,
      appIDs = [], advertised = None\<rparr>"

definition optDict :: "Message \<Rightarrow> ParseOptions \<Rightarrow> Snapshot" where
  "optDict m options = (case optDictionary options of None \<Rightarrow> dictionary m | Some d \<Rightarrow> d)"

definition CER_sanityCheck :: "CER \<Rightarrow> (u32 \<times> base_error) option" where
  "CER_sanityCheck cer =
     (if cerOriginHost cer = [] then Some (OriginHostCode, ErrMissingOriginHost)
      else if cerOriginRealm cer = [] then Some (OriginRealmCode, ErrMissingOriginRealm)
      else None)"

definition CER_Parse :: "Message \<Rightarrow> ParseOptions \<Rightarrow> (avp option \<times> base_error) + CER" where
  "CER_Parse m options =
     (case ValidateHeader m of
        Some e \<Rightarrow> Inl (None, BMessage e)
      | None \<Rightarrow>
     (case find rawHostIPAddress (msgAVP m) of
        Some a \<Rightarrow> Inl (Some a, BMessage (rawAddressError a))
      | None \<Rightarrow>
     (case CER_Unmarshal m of
        Inl e \<Rightarrow> Inl (None, e)
      | Inr cer \<Rightarrow>
     (case CER_sanityCheck cer of
        Some (code, e) \<Rightarrow>
          let failed = NewAVP code Mbit 0 (Typ (DiameterIdentity [0]))
          in Inl (Some failed, BMessage (MessageErr MissingAVP (Some failed) False))
      | None \<Rightarrow>
     (case securityScan (optTLS options) (msgAVP m) False False of
        Inl a \<Rightarrow> Inl (Some a, BMessage (MessageErr InvalidAVPLength (Some a) False))
      | Inr (offered, common) \<Rightarrow>
          if offered \<and> \<not> common then Inl (None, ErrNoCommonSecurity)
          else case ParseWithApplicationIDs (optDict m options) (optRole options) (optLocalApplications options)
                 (offeredApplications (cerAcctApplicationID cer) (cerAuthApplicationID cer)
                   (cerVendorSpecificApplicationID cer)) of
              ((failed, Some e), app) \<Rightarrow> Inl (failed, e)
            | ((failed, None), app) \<Rightarrow> Inr (cer\<lparr>cerAppID := appIDs app\<rparr>))))))"

record CEA =
  ceaHostIPAddresses :: "Address list"
  ceaResultCode :: u32
  ceaOriginHost :: bytes
  ceaOriginRealm :: bytes
  ceaOriginStateID :: u32
  ceaVendorID :: u32
  ceaProductName :: bytes
  ceaSupportedVendorID :: "avp list"
  ceaAcctApplicationID :: "avp list"
  ceaAuthApplicationID :: "avp list"
  ceaVendorSpecificApplicationID :: "avp list"
  ceaFailedAVP :: "avp list"
  ceaErrorMessage :: bytes
  ceaAppID :: "u32 list"

definition zeroCEA :: CEA where
  "zeroCEA = \<lparr>ceaHostIPAddresses = [], ceaResultCode = 0, ceaOriginHost = [], ceaOriginRealm = [],
     ceaOriginStateID = 0, ceaVendorID = 0, ceaProductName = [], ceaSupportedVendorID = [],
     ceaAcctApplicationID = [], ceaAuthApplicationID = [], ceaVendorSpecificApplicationID = [],
     ceaFailedAVP = [], ceaErrorMessage = [], ceaAppID = []\<rparr>"

definition CEA_Unmarshal :: "Message \<Rightarrow> base_error + CEA" where
  "CEA_Unmarshal m = scanStruct m
     [(''Host-IP-Address'', addressField (\<lambda>v r. r\<lparr>ceaHostIPAddresses := v\<rparr>)),
      (''Result-Code'', scalarField uint32Of (\<lambda>v r. r\<lparr>ceaResultCode := v\<rparr>)),
      (''Origin-Host'', scalarField stringOf (\<lambda>v r. r\<lparr>ceaOriginHost := v\<rparr>)),
      (''Origin-Realm'', scalarField stringOf (\<lambda>v r. r\<lparr>ceaOriginRealm := v\<rparr>)),
      (''Origin-State-Id'', scalarField uint32Of (\<lambda>v r. r\<lparr>ceaOriginStateID := v\<rparr>)),
      (''Vendor-Id'', scalarField uint32Of (\<lambda>v r. r\<lparr>ceaVendorID := v\<rparr>)),
      (''Product-Name'', scalarField stringOf (\<lambda>v r. r\<lparr>ceaProductName := v\<rparr>)),
      (''Supported-Vendor-Id'', rawList (\<lambda>v r. r\<lparr>ceaSupportedVendorID := v\<rparr>)),
      (''Acct-Application-Id'', rawList (\<lambda>v r. r\<lparr>ceaAcctApplicationID := v\<rparr>)),
      (''Auth-Application-Id'', rawList (\<lambda>v r. r\<lparr>ceaAuthApplicationID := v\<rparr>)),
      (''Vendor-Specific-Application-Id'', rawList (\<lambda>v r. r\<lparr>ceaVendorSpecificApplicationID := v\<rparr>)),
      (''Failed-AVP'', rawList (\<lambda>v r. r\<lparr>ceaFailedAVP := v\<rparr>)),
      (''Error-Message'', scalarField stringOf (\<lambda>v r. r\<lparr>ceaErrorMessage := v\<rparr>))] zeroCEA"

definition CEA_sanityCheck :: "CEA \<Rightarrow> base_error option" where
  "CEA_sanityCheck cea =
     (if ceaResultCode cea = 0 then Some ErrMissingResultCode
      else if ceaOriginHost cea = [] then Some ErrMissingOriginHost
      else if ceaOriginRealm cea = [] then Some ErrMissingOriginRealm
      else None)"

definition CEA_Parse :: "Message \<Rightarrow> ParseOptions \<Rightarrow> base_error + CEA" where
  "CEA_Parse m options =
     (case ValidateHeader m of
        Some e \<Rightarrow> Inl (BMessage e)
      | None \<Rightarrow>
     (case find rawHostIPAddress (msgAVP m) of
        Some a \<Rightarrow> Inl (BMessage (rawAddressError a))
      | None \<Rightarrow>
     (case CEA_Unmarshal m of
        Inl e \<Rightarrow> Inl e
      | Inr cea \<Rightarrow>
     (case CEA_sanityCheck cea of
        Some e \<Rightarrow> Inl e
      | None \<Rightarrow>
          if ceaResultCode cea \<noteq> Success then Inl (ErrFailedResultCode (ceaResultCode cea))
          else case ParseWithApplicationIDs (optDict m options) (optRole options) (optLocalApplications options)
                 (offeredApplications (ceaAcctApplicationID cea) (ceaAuthApplicationID cea)
                   (ceaVendorSpecificApplicationID cea)) of
              ((failed, Some e), app) \<Rightarrow> Inl e
            | ((failed, None), app) \<Rightarrow> Inr (cea\<lparr>ceaAppID := appIDs app\<rparr>)))))"

section \<open>DWR and DWA\<close>

record DWR =
  dwrOriginHost :: bytes
  dwrOriginRealm :: bytes
  dwrOriginStateID :: "avp option"

definition DWR_sanityCheck :: "DWR \<Rightarrow> base_error option" where
  "DWR_sanityCheck dwr =
     (if dwrOriginHost dwr = [] then Some ErrMissingOriginHost
      else if dwrOriginRealm dwr = [] then Some ErrMissingOriginRealm
      else None)"

definition DWR_Parse :: "Message \<Rightarrow> base_error + DWR" where
  "DWR_Parse m =
     (case scanStruct m
        [(''Origin-Host'', scalarField stringOf (\<lambda>v r. r\<lparr>dwrOriginHost := v\<rparr>)),
         (''Origin-Realm'', scalarField stringOf (\<lambda>v r. r\<lparr>dwrOriginRealm := v\<rparr>)),
         (''Origin-State-Id'', rawField (\<lambda>v r. r\<lparr>dwrOriginStateID := v\<rparr>))]
        \<lparr>dwrOriginHost = [], dwrOriginRealm = [], dwrOriginStateID = None\<rparr> of
        Inl e \<Rightarrow> Inl e
      | Inr dwr \<Rightarrow> (case DWR_sanityCheck dwr of Some e \<Rightarrow> Inl e | None \<Rightarrow> Inr dwr))"

record DWA =
  dwaResultCode :: u32
  dwaOriginStateID :: u32

definition DWA_Parse :: "Message \<Rightarrow> base_error + DWA" where
  "DWA_Parse m = scanStruct m
     [(''Result-Code'', scalarField uint32Of (\<lambda>v r. r\<lparr>dwaResultCode := v\<rparr>)),
      (''Origin-State-Id'', scalarField uint32Of (\<lambda>v r. r\<lparr>dwaOriginStateID := v\<rparr>))]
     \<lparr>dwaResultCode = 0, dwaOriginStateID = 0\<rparr>"

end
