(* ===== verification/Builders.thy ===== *)
theory Builders
  imports Capabilities
begin

text \<open>
  The sending side of \<open>src/diam/internal/base\<close>: the local application offer (\<open>capabilities.go\<close>), the
  builders of the base messages (\<open>builders.go\<close>) and of error answers (\<open>error_answer.go\<close>,
  \<open>error_answer_copy.go\<close>). The random identifiers of a new request are arguments; the address
  resolver of the settings is the result of its call.
\<close>

section \<open>Settings\<close>

record LocalApplication =
  laID :: u32
  laType :: string
  laVendor :: u32
  laSupportedVendors :: "u32 list"

record Settings =
  cfgOriginHost :: bytes
  cfgOriginRealm :: bytes
  cfgVendorID :: u32
  cfgProductName :: bytes
  cfgOriginStateID :: u32
  cfgFirmwareRevision :: u32
  cfgHostIPAddresses :: "Address list"
  cfgResolveHostIPAddresses :: "(unit + Address list) option"
  cfgSupportedVendorID :: "avp list option"
  cfgAcctApplicationID :: "avp list option"
  cfgAuthApplicationID :: "avp list option"
  cfgVendorSpecificApplicationID :: "avp list option"
  cfgInbandSecurityID :: u32
  cfgApplications :: "LocalApplication list"

abbreviation listOf :: "'a list option \<Rightarrow> 'a list" where
  "listOf v \<equiv> (case v of None \<Rightarrow> [] | Some as \<Rightarrow> as)"

section \<open>The local offer\<close>

definition suppliers :: "LocalApplication \<Rightarrow> u32 list" where
  "suppliers app = laSupportedVendors app @ (if laVendor app \<noteq> 0 then [laVendor app] else [])"

definition firstDeclaration :: "LocalApplication \<Rightarrow> LocalApplication" where
  "firstDeclaration app = app\<lparr>laSupportedVendors := suppliers app,
     laVendor := (if IsVendorSpecificApplication (laID app) then laVendor app else 0),
     laType := (if laType app = ''acct'' then ''acct'' else ''auth'')\<rparr>"

text \<open>A further declaration only extends the suppliers of the first one.\<close>

definition mergeOne :: "LocalApplication list \<Rightarrow> LocalApplication \<Rightarrow> LocalApplication list" where
  "mergeOne result app =
     (if laID app = 0 then result
      else if laID app \<in> laID ` set result
      then map (\<lambda>r. if laID r = laID app then r\<lparr>laSupportedVendors := laSupportedVendors r @ suppliers app\<rparr> else r) result
      else result @ [firstDeclaration app])"

definition mergeApplications :: "LocalApplication list \<Rightarrow> LocalApplication list" where
  "mergeApplications apps = sort_key laID (foldl mergeOne [] apps)"

definition explicitApplications :: "Settings \<Rightarrow> bool" where
  "explicitApplications cfg \<longleftrightarrow> cfgAuthApplicationID cfg \<noteq> None \<or> cfgAcctApplicationID cfg \<noteq> None \<or>
     cfgVendorSpecificApplicationID cfg \<noteq> None"

definition offer :: "LocalApplication list \<Rightarrow> u32 \<Rightarrow> string \<Rightarrow> u32 \<Rightarrow> LocalApplication" where
  "offer available i kind vendor =
     (let app = (case find (\<lambda>a. laID a = i) available of
                   Some a \<Rightarrow> a
                 | None \<Rightarrow> \<lparr>laID = 0, laType = [], laVendor = 0, laSupportedVendors = []\<rparr>);
          app = app\<lparr>laID := i, laType := kind\<rparr>
      in if vendor \<noteq> 0
         then app\<lparr>laSupportedVendors := laSupportedVendors app @ [laVendor app], laVendor := vendor\<rparr>
         else app)"

definition offerAll :: "LocalApplication list \<Rightarrow> string \<Rightarrow> avp list \<Rightarrow> LocalApplication list" where
  "offerAll available kind values =
     concat (map (\<lambda>a. case Data a of Some (Typ (Unsigned32 i)) \<Rightarrow> [offer available i kind 0] | _ \<Rightarrow> []) values)"

text \<open>Application, kind and vendor of a Vendor-Specific-Application-Id: the last member of each kind counts.\<close>

definition groupMember :: "u32 \<times> string \<times> u32 \<Rightarrow> avp \<Rightarrow> u32 \<times> string \<times> u32" where
  "groupMember = (\<lambda>(i, kind, vendor) child.
     if VendorID child \<noteq> 0 \<or> Flags child AND Vbit \<noteq> 0 then (i, kind, vendor)
     else case Data child of
         Some (Typ (Unsigned32 v)) \<Rightarrow>
           if Code child = VendorIDCode then (i, kind, v)
           else if Code child = AuthApplicationID then (v, kind, vendor)
           else if Code child = AcctApplicationID then (v, ''acct'', vendor)
           else (i, kind, vendor)
       | _ \<Rightarrow> (i, kind, vendor))"

definition offerGroup :: "LocalApplication list \<Rightarrow> avp \<Rightarrow> LocalApplication list" where
  "offerGroup available a =
     (case Data a of
        Some (GroupedAVP as) \<Rightarrow>
          (case foldl groupMember (0, ''auth'', 0) as of (i, kind, vendor) \<Rightarrow> [offer available i kind vendor])
      | _ \<Rightarrow> [])"

definition advertisedApplications :: "Settings \<Rightarrow> LocalApplication list" where
  "advertisedApplications cfg =
     (let available = mergeApplications (cfgApplications cfg)
      in if \<not> explicitApplications cfg then available
         else offerAll available ''auth'' (listOf (cfgAuthApplicationID cfg)) @
              offerAll available ''acct'' (listOf (cfgAcctApplicationID cfg)) @
              concat (map (offerGroup available) (listOf (cfgVendorSpecificApplicationID cfg))))"

definition AdvertisedApplicationIDs :: "Settings \<Rightarrow> u32 list" where
  "AdvertisedApplicationIDs cfg = remdups_adj (sort (map laID (advertisedApplications cfg)))"

definition ietfUnsigned32 :: "u32 \<Rightarrow> avp \<Rightarrow> bool" where
  "ietfUnsigned32 code a \<longleftrightarrow> (case Data a of Some (Typ (Unsigned32 v)) \<Rightarrow> True | _ \<Rightarrow> False) \<and>
     Code a = code \<and> VendorID a = 0 \<and> Flags a AND Vbit = 0"

fun countMembers :: "avp list \<Rightarrow> nat \<Rightarrow> nat \<Rightarrow> (nat \<times> nat) option" where
  "countMembers [] vendors apps = Some (vendors, apps)"
| "countMembers (c # cs) vendors apps =
     (if VendorID c \<noteq> 0 \<or> Flags c AND Vbit \<noteq> 0 then countMembers cs vendors apps
      else if Code c \<noteq> VendorIDCode \<and> Code c \<noteq> AuthApplicationID \<and> Code c \<noteq> AcctApplicationID
      then countMembers cs vendors apps
      else case Data c of
          Some (Typ (Unsigned32 v)) \<Rightarrow>
            if Code c = VendorIDCode then countMembers cs (vendors + 1) apps else countMembers cs vendors (apps + 1)
        | _ \<Rightarrow> None)"

definition validVSAI :: "avp \<Rightarrow> bool" where
  "validVSAI a \<longleftrightarrow>
     (case Data a of
        Some (GroupedAVP as) \<Rightarrow>
          Code a = VendorSpecificApplicationID \<and> VendorID a = 0 \<and> Flags a AND Vbit = 0 \<and>
          countMembers as 0 0 = Some (1, 1)
      | _ \<Rightarrow> False)"

definition ValidateCapabilities :: "Settings \<Rightarrow> bool" where
  "ValidateCapabilities cfg \<longleftrightarrow>
     list_all (ietfUnsigned32 AuthApplicationID) (listOf (cfgAuthApplicationID cfg)) \<and>
     list_all (ietfUnsigned32 AcctApplicationID) (listOf (cfgAcctApplicationID cfg)) \<and>
     list_all (ietfUnsigned32 SupportedVendorIDCode) (listOf (cfgSupportedVendorID cfg)) \<and>
     list_all validVSAI (listOf (cfgVendorSpecificApplicationID cfg)) \<and>
     list_all (\<lambda>app. laID app \<noteq> 0) (advertisedApplications cfg)"

section \<open>Capabilities AVPs\<close>

definition u32AVP :: "u32 \<Rightarrow> u32 \<Rightarrow> avp" where
  "u32AVP code v = NewAVP code Mbit 0 (Typ (Unsigned32 v))"

definition applicationAVP :: "LocalApplication \<Rightarrow> avp" where
  "applicationAVP app =
     (let i = u32AVP (if laType app = ''acct'' then AcctApplicationID else AuthApplicationID) (laID app)
      in if IsVendorSpecificApplication (laID app) \<and> laVendor app \<noteq> 0
         then NewAVP VendorSpecificApplicationID Mbit 0 (GroupedAVP [u32AVP VendorIDCode (laVendor app), i])
         else i)"

definition addApplications :: "Message \<Rightarrow> Settings \<Rightarrow> LocalApplication list \<Rightarrow> Message" where
  "addApplications m cfg apps =
     foldl Message_AddAVP m
       (if explicitApplications cfg
        then listOf (cfgAuthApplicationID cfg) @ listOf (cfgAcctApplicationID cfg) @ listOf (cfgVendorSpecificApplicationID cfg)
        else map applicationAVP apps)"

definition inferredVendors :: "Settings \<Rightarrow> LocalApplication list \<Rightarrow> u32 set" where
  "inferredVendors cfg apps =
     (let authors = {v \<in> laVendor ` set apps. v \<noteq> 0};
          vendors = authors \<union> {v \<in> \<Union> (set ` laSupportedVendors ` set apps). v \<noteq> 0}
      in if cfgVendorID cfg \<in> authors then vendors else vendors - {cfgVendorID cfg})"

definition addSupportedVendors :: "Message \<Rightarrow> Settings \<Rightarrow> LocalApplication list \<Rightarrow> Message" where
  "addSupportedVendors m cfg apps =
     foldl Message_AddAVP m
       (case cfgSupportedVendorID cfg of
          Some as \<Rightarrow> as
        | None \<Rightarrow> map (u32AVP SupportedVendorIDCode) (sorted_list_of_set (inferredVendors cfg apps)))"

section \<open>Base messages\<close>

datatype build_error =
  NoHostIPAddress | ResolverFailed | BadData dt_error | InvalidAnswer ValidationError | TooManyMissing

definition capabilityAddresses :: "Settings \<Rightarrow> build_error + Address list" where
  "capabilityAddresses cfg =
     (case (if cfgHostIPAddresses cfg = [] then cfgResolveHostIPAddresses cfg else None) of
        Some (Inl e) \<Rightarrow> Inl ResolverFailed
      | Some (Inr addresses) \<Rightarrow> if addresses = [] then Inl NoHostIPAddress else Inr addresses
      | None \<Rightarrow> if cfgHostIPAddresses cfg = [] then Inl NoHostIPAddress else Inr (cfgHostIPAddresses cfg))"

text \<open>A sequence of \<open>m.NewAVP\<close> calls that stops at the first error; vendors are zero.\<close>

type_synonym field = "u32 \<times> byte \<times> payload"

fun addFields :: "Message \<Rightarrow> field list \<Rightarrow> build_error + Message" where
  "addFields m [] = Inr m"
| "addFields m ((code, flags, p) # fs) =
     (case Message_NewAVP m code flags 0 p of
        Inl e \<Rightarrow> Inl (BadData e)
      | Inr (a, m) \<Rightarrow> addFields m fs)"

definition sbind :: "'e + 'a \<Rightarrow> ('a \<Rightarrow> 'e + 'b) \<Rightarrow> 'e + 'b" where
  "sbind r f = (case r of Inl e \<Rightarrow> Inl e | Inr x \<Rightarrow> f x)"

definition originFields :: "Settings \<Rightarrow> field list" where
  "originFields cfg =
     [(OriginHostCode, Mbit, Typ (DiameterIdentity (cfgOriginHost cfg))),
      (OriginRealmCode, Mbit, Typ (DiameterIdentity (cfgOriginRealm cfg)))]"

definition addressFields :: "Address list \<Rightarrow> field list" where
  "addressFields addresses = map (\<lambda>a. (HostIPAddressCode, Mbit, Typ (AddressV a))) addresses"

definition productFields :: "Settings \<Rightarrow> field list" where
  "productFields cfg =
     [(VendorIDCode, Mbit, Typ (Unsigned32 (cfgVendorID cfg))),
      (ProductNameCode, 0, Typ (UTF8String (cfgProductName cfg)))]"

definition u32Field :: "u32 \<Rightarrow> byte \<Rightarrow> u32 \<Rightarrow> field list" where
  "u32Field code flags v = (if v \<noteq> 0 then [(code, flags, Typ (Unsigned32 v))] else [])"

definition BuildCER :: "Snapshot \<Rightarrow> Settings \<Rightarrow> u32 \<Rightarrow> u32 \<Rightarrow> build_error + Message" where
  "BuildCER dict cfg r1 r2 =
     sbind (capabilityAddresses cfg) (\<lambda>addresses.
     let apps = advertisedApplications cfg;
         m = NewRequest CapabilitiesExchange 0 dict r1 r2
     in sbind (addFields m (originFields cfg @ addressFields addresses @ productFields cfg @
                 u32Field OriginStateIDCode Mbit (cfgOriginStateID cfg))) (\<lambda>m.
        sbind (addFields (addSupportedVendors m cfg apps)
                 (u32Field InbandSecurityIDCode Mbit (cfgInbandSecurityID cfg))) (\<lambda>m.
        addFields (addApplications m cfg apps) (u32Field FirmwareRevisionCode 0 (cfgFirmwareRevision cfg)))))"

text \<open>The answer header of the base commands: no flags, application zero.\<close>

definition baseAnswer :: "Message \<Rightarrow> u32 \<Rightarrow> Message" where
  "baseAnswer request result =
     (let a = Answer request result
      in a\<lparr>msgHeader := (msgHeader a)\<lparr>CommandFlags := 0, ApplicationID := 0\<rparr>\<rparr>)"

definition BuildDWR :: "Snapshot \<Rightarrow> Settings \<Rightarrow> u32 \<Rightarrow> u32 \<Rightarrow> u32 \<Rightarrow> build_error + Message" where
  "BuildDWR dict cfg osid r1 r2 =
     addFields (NewRequest DeviceWatchdog 0 dict r1 r2)
       (originFields cfg @
        (if cfgOriginStateID cfg \<noteq> 0 then [(OriginStateIDCode, Mbit, Typ (Unsigned32 osid))] else []))"

definition BuildDWA :: "Message \<Rightarrow> Settings \<Rightarrow> build_error + Message" where
  "BuildDWA request cfg =
     addFields (baseAnswer request Success)
       (originFields cfg @ u32Field OriginStateIDCode Mbit (cfgOriginStateID cfg))"

definition BuildDPR :: "Snapshot \<Rightarrow> Settings \<Rightarrow> u32 \<Rightarrow> u32 \<Rightarrow> u32 \<Rightarrow> build_error + Message" where
  "BuildDPR dict cfg cause r1 r2 =
     addFields (NewRequest DisconnectPeer 0 dict r1 r2)
       (originFields cfg @ [(DisconnectCauseCode, Mbit, Typ (Enumerated cause))])"

definition BuildDPAResult :: "Message \<Rightarrow> Settings \<Rightarrow> u32 \<Rightarrow> build_error + Message" where
  "BuildDPAResult request cfg result = addFields (baseAnswer request result) (originFields cfg)"

section \<open>Error answers\<close>

function answerEvidenceFits :: "avp \<Rightarrow> nat \<Rightarrow> nat \<Rightarrow> bool" where
  "answerEvidenceFits a depth limit =
     (case Data a of
        None \<Rightarrow> False
      | Some (GroupedAVP as) \<Rightarrow>
          if depth \<ge> limit then False else list_all (\<lambda>child. answerEvidenceFits child (depth + 1) limit) as
      | Some (Typ d) \<Rightarrow> True)"
  by pat_completeness auto
termination by (relation "measure (\<lambda>(a, depth, limit). limit - depth)") auto

declare answerEvidenceFits.simps [simp del]

definition rebuildFlags :: "avp \<Rightarrow> dictAVP option \<Rightarrow> byte" where
  "rebuildFlags a def =
     (case def of
        None \<Rightarrow> Flags a AND Mbit
      | Some d \<Rightarrow> (if CHR ''M'' \<in> set (avpMust d) then Mbit else 0) OR (if CHR ''P'' \<in> set (avpMust d) then Pbit else 0)) OR
     (if VendorID a \<noteq> 0 then Vbit else 0)"

text \<open>All elements, or nothing.\<close>

fun mapAll :: "('a \<Rightarrow> 'b option) \<Rightarrow> 'a list \<Rightarrow> 'b list option" where
  "mapAll f [] = Some []"
| "mapAll f (x # xs) =
     (case f x of None \<Rightarrow> None | Some y \<Rightarrow> (case mapAll f xs of None \<Rightarrow> None | Some ys \<Rightarrow> Some (y # ys)))"

lemma mapAll_cong [fundef_cong]:
  "xs = ys \<Longrightarrow> (\<And>x. x \<in> set ys \<Longrightarrow> f x = g x) \<Longrightarrow> mapAll f xs = mapAll g ys"
proof -
  have "(\<And>x. x \<in> set ys \<Longrightarrow> f x = g x) \<Longrightarrow> mapAll f ys = mapAll g ys" for ys
    by (induction ys) (simp_all split: option.split)
  then show "xs = ys \<Longrightarrow> (\<And>x. x \<in> set ys \<Longrightarrow> f x = g x) \<Longrightarrow> mapAll f xs = mapAll g ys"
    by simp
qed

text \<open>The members a Grouped payload stands for; undecoded Grouped bytes are decoded first.\<close>

definition groupOf :: "Snapshot \<Rightarrow> u32 \<Rightarrow> payload \<Rightarrow> avp list option option" where
  "groupOf dict app p =
     (case p of
        GroupedAVP as \<Rightarrow> Some (Some as)
      | Typ (Grouped b) \<Rightarrow>
          (case DecodeGroupedFromBytes b app dict of (as, None) \<Rightarrow> Some (Some as) | (as, Some e) \<Rightarrow> None)
      | Typ d \<Rightarrow> Some None)"

function rebuildAnswerAVP :: "avp \<Rightarrow> u32 \<Rightarrow> Snapshot \<Rightarrow> nat \<Rightarrow> avp option" where
  "rebuildAnswerAVP a app dict depth =
     (let def = FindAVP dict app (Code a) (VendorID a);
          build = (\<lambda>p. NewAVP (Code a) (rebuildFlags a def) (VendorID a) p)
      in case Data a of
          None \<Rightarrow> None
        | Some p \<Rightarrow>
            if def \<noteq> None \<and> (case p of Typ (Unknown b) \<Rightarrow> True | _ \<Rightarrow> False) then None
            else if isFailedAVP a then
              (if answerEvidenceFits a depth (MaxGroupedDepth dict) then Some (build p) else None)
            else case groupOf dict app p of
                None \<Rightarrow> None
              | Some None \<Rightarrow> Some (build p)
              | Some (Some as) \<Rightarrow>
                  if depth \<ge> MaxGroupedDepth dict then None
                  else map_option (\<lambda>cs. build (GroupedAVP cs))
                         (mapAll (\<lambda>child. rebuildAnswerAVP child app dict (depth + 1)) as))"
  by pat_completeness auto
termination by (relation "measure (\<lambda>(a, app, dict, depth). MaxGroupedDepth dict - depth)") auto

declare rebuildAnswerAVP.simps [simp del]

text \<open>Copying the Session-Id; the second component says that the request had none to copy.\<close>

fun copySession :: "avp list \<Rightarrow> Message \<Rightarrow> bool \<Rightarrow> Message \<times> bool" where
  "copySession [] answer without = (answer, without)"
| "copySession (s # ss) answer without =
     (if Code s \<noteq> SessionIDCode \<or> VendorID s \<noteq> 0 then copySession ss answer without
      else case Data s of
          Some (Typ (UTF8String b)) \<Rightarrow>
            if Message_Len answer + AVP_Len s > MaxMessageLength then (answer, False)
            else (case rebuildAnswerAVP s (ApplicationID (msgHeader answer)) (dictionary answer) 0 of
                None \<Rightarrow> copySession ss answer False
              | Some copied \<Rightarrow> (Message_InsertAVP answer copied, False))
        | _ \<Rightarrow> (answer, without))"

definition vendorMember :: "avp \<Rightarrow> bool" where
  "vendorMember child \<longleftrightarrow> Code child = VendorIDCode \<and> VendorID child = 0"

definition applicationMember :: "avp \<Rightarrow> bool" where
  "applicationMember child \<longleftrightarrow> VendorID child = 0 \<and> (Code child = AuthApplicationID \<or> Code child = AcctApplicationID)"

definition completeVSAI :: "Snapshot \<Rightarrow> u32 \<Rightarrow> bool \<Rightarrow> avp list \<Rightarrow> avp list" where
  "completeVSAI dict app synthesized as =
     (let as = (if synthesized
                then (case Snapshot_App dict app None of
                        None \<Rightarrow> as
                      | Some d \<Rightarrow> map (\<lambda>c. if vendorMember c then withPayload c (Typ (Unsigned32 (ApplicationVendor d))) else c) as)
                else as);
          code = (case Snapshot_App dict app None of
                    Some d \<Rightarrow> if appType d = ''acct'' then AcctApplicationID else AuthApplicationID
                  | None \<Rightarrow> AuthApplicationID)
      in if list_ex applicationMember as then as else as @ [u32AVP code app])"

text \<open>The field for a missing AVP: the request's own value where it can be reused, the example of the
  validator otherwise.\<close>

definition receivedField :: "Message \<Rightarrow> u32 \<Rightarrow> Snapshot \<Rightarrow> avp \<Rightarrow> avp option" where
  "receivedField request app dict example =
     (case filter (\<lambda>r. r \<noteq> None)
             (map (\<lambda>a. if Code a = Code example \<and> VendorID a = VendorID example \<and> Data a \<noteq> None
                       then rebuildAnswerAVP a app dict 0 else None) (msgAVP request)) of
        [] \<Rightarrow> None
      | r # _ \<Rightarrow> r)"

definition missingField :: "Message \<Rightarrow> u32 \<Rightarrow> Snapshot \<Rightarrow> avp \<Rightarrow> avp" where
  "missingField request app dict example =
     (let rebuilt = receivedField request app dict example;
          field = (case rebuilt of None \<Rightarrow> example | Some r \<Rightarrow> r)
      in if Code field = VendorSpecificApplicationID \<and> VendorID field = 0 then
           (case Data field of
              Some (GroupedAVP as) \<Rightarrow> withPayload field (GroupedAVP (completeVSAI dict app (rebuilt = None) as))
            | _ \<Rightarrow> field)
         else field)"

fun fillMissing :: "nat \<Rightarrow> Message \<Rightarrow> bool \<Rightarrow> Message \<Rightarrow> build_error + Message" where
  "fillMissing 0 request without answer = Inr answer"
| "fillMissing (Suc n) request without answer =
     (case ValidateErrorAnswer answer without of
        None \<Rightarrow> Inr answer
      | Some e \<Rightarrow>
          (case vFailedAVP e of
             None \<Rightarrow> Inl (InvalidAnswer e)
           | Some example \<Rightarrow>
               if vResultCode e \<noteq> MissingAVP then Inl (InvalidAnswer e)
               else
                 let answer = Message_AddAVP answer
                       (missingField request (ApplicationID (msgHeader answer)) (dictionary answer) example)
                 in if n = 0 then Inl TooManyMissing else fillMissing n request without answer))"

definition errorHeader :: "Message \<Rightarrow> bool \<Rightarrow> Message" where
  "errorHeader request protocolError =
     (let answer = Answer request 0;
          flags = CommandFlags (msgHeader request) AND ProxiableFlag;
          (flags, app) = (if IsCommand request then (if protocolError then flags else 0, 0)
                          else (flags, ApplicationID (msgHeader answer)));
          flags = (if protocolError then flags OR ErrorFlag else flags)
      in answer\<lparr>msgHeader := (msgHeader answer)\<lparr>CommandFlags := flags, ApplicationID := app\<rparr>\<rparr>)"

definition errorFields :: "Settings \<Rightarrow> u32 \<Rightarrow> avp list \<Rightarrow> bool \<Rightarrow> field list" where
  "errorFields cfg result failed protocolError =
     (let code = [(ResultCode, Mbit, Typ (Unsigned32 result))]
      in (if protocolError then [] else code) @ originFields cfg @ (if protocolError then code else []) @
         u32Field OriginStateIDCode Mbit (cfgOriginStateID cfg) @
         (if failed \<noteq> [] then [(FailedAVP, Mbit, GroupedAVP failed)] else []))"

definition BuildErrorAnswer :: "Message \<Rightarrow> Settings \<Rightarrow> u32 \<Rightarrow> avp list \<Rightarrow> bool \<Rightarrow> build_error + Message" where
  "BuildErrorAnswer request cfg result failed protocolError =
     sbind (addFields (errorHeader request protocolError) (errorFields cfg result failed protocolError)) (\<lambda>answer.
     sbind (if \<not> protocolError \<and> CommandCode (msgHeader request) = CapabilitiesExchange
            then sbind (capabilityAddresses cfg) (\<lambda>addresses.
                   addFields answer (addressFields addresses @ productFields cfg))
            else Inr answer) (\<lambda>answer.
     case copySession (msgAVP request) answer True of
       (answer, without) \<Rightarrow>
         sbind (if protocolError then Inr answer else fillMissing 32 request without answer) (\<lambda>answer.
         case ValidateErrorAnswer answer without of
             Some e \<Rightarrow> Inl (InvalidAnswer e)
           | None \<Rightarrow> Inr answer)))"

definition BuildCEA :: "Message \<Rightarrow> Settings \<Rightarrow> u32 \<Rightarrow> build_error + Message" where
  "BuildCEA request cfg result =
     (if 3000 \<le> result \<and> result < 4000 then BuildErrorAnswer request cfg result [] True
      else
        sbind (capabilityAddresses cfg) (\<lambda>addresses.
        sbind (addFields (baseAnswer request result)
                 (originFields cfg @ addressFields addresses @ productFields cfg @
                  u32Field OriginStateIDCode Mbit (cfgOriginStateID cfg))) (\<lambda>a.
        let apps = advertisedApplications cfg;
            a = (if result = Success then addApplications (addSupportedVendors a cfg apps) cfg apps else a)
        in addFields a (u32Field FirmwareRevisionCode 0 (cfgFirmwareRevision cfg)))))"

end
