(* ===== verification/Grammar.thy ===== *)
theory Grammar
  imports Validation
begin

text \<open>
  The validator against the grammar: the one-pass walk of \<open>validateAVPs\<close> accepts exactly the lists of
  AVPs that satisfy the declarative \<open>conforms\<close>; the flag rules of the validator and of the dictionary
  loader agree; a message that passes the outgoing checks has clean flags.
\<close>

section \<open>The walk against the declarative grammar\<close>

lemma find_in: "find P xs = Some x \<Longrightarrow> x \<in> set xs \<and> P x"
  by (induction xs) (auto split: if_splits)

lemma byKey_None: "byKey ordered key = None \<longleftrightarrow> key \<notin> entryKey ` set ordered"
  by (auto simp: byKey_def find_None_iff)

lemma entry_unique:
  "distinct (map (\<lambda>e. entryKey e) ordered) \<Longrightarrow> e \<in> set ordered \<Longrightarrow> e' \<in> set ordered \<Longrightarrow> entryKey e = entryKey e' \<Longrightarrow> e = e'"
  by (auto simp: distinct_map dest: inj_onD)

lemma byKey_Some:
  assumes "distinct (map (\<lambda>e. entryKey e) ordered)"
  shows "byKey ordered key = Some e \<longleftrightarrow> e \<in> set ordered \<and> entryKey e = key"
proof
  assume "byKey ordered key = Some e"
  then show "e \<in> set ordered \<and> entryKey e = key"
    by (auto simp: byKey_def dest: find_in)
next
  assume e: "e \<in> set ordered \<and> entryKey e = key"
  then obtain e' where e': "byKey ordered key = Some e'"
    using byKey_None [of ordered key] by (cases "byKey ordered key") auto
  then have "e' \<in> set ordered \<and> entryKey e' = key"
    by (auto simp: byKey_def dest: find_in)
  with e e' assms show "byKey ordered key = Some e"
    using entry_unique by metis
qed

lemma position_le: "position es key \<le> length es"
  by (induction es) auto

lemma position_lt: "position es key < length es \<Longrightarrow>
    entryKey (es ! position es key) = key \<and> ruleFixed (vrRule (es ! position es key))"
  by (induction es) auto

lemma position_nth:
  "distinct (map (\<lambda>e. entryKey e) es) \<Longrightarrow> i < length es \<Longrightarrow> ruleFixed (vrRule (es ! i)) \<Longrightarrow>
     position es (entryKey (es ! i)) = i"
proof (induction es arbitrary: i)
  case (Cons e es)
  then show ?case by (cases i) (auto simp: image_iff dest: nth_mem)
qed simp

lemma position_absent: "\<not> (\<exists>e \<in> set es. entryKey e = key \<and> ruleFixed (vrRule e)) \<Longrightarrow> position es key = length es"
  by (induction es) auto

lemma advanceFixed_eq:
  "advanceFixed es cnt key i =
     (if \<forall>n < position es key. ruleFixed (vrRule (es ! n)) \<longrightarrow> minimumCount (vrRule (es ! n)) \<le> cnt (entryKey (es ! n))
      then Some (i + position es key) else None)"
proof (induction es arbitrary: i)
  case (Cons c cs)
  show ?case by (auto simp: Cons.IH nth_Cons split: nat.splits)
qed simp

lemma position_drop:
  "fi \<le> position es key \<Longrightarrow> position (drop fi es) key = position es key - fi"
proof (induction es arbitrary: fi)
  case (Cons e es)
  then show ?case by (cases fi) (auto split: if_splits)
qed simp

lemma position_drop_past:
  assumes "distinct (map (\<lambda>e. entryKey e) es)" "position es key < fi"
  shows "fi + position (drop fi es) key \<ge> length es"
proof (rule ccontr)
  assume *: "\<not> length es \<le> fi + position (drop fi es) key"
  then have lt: "position (drop fi es) key < length (drop fi es)" by simp
  have "position es key < length es" using assms(2) * by simp
  note p = position_lt [OF this] position_lt [OF lt]
  have "fi + position (drop fi es) key = position es key"
    using p * position_nth [OF assms(1), of "fi + position (drop fi es) key"] by simp
  then show False using assms(2) by simp
qed

text \<open>When a fixed AVP is placed, and where.\<close>

lemma placeFixed_eq:
  assumes d: "distinct (map (\<lambda>e. entryKey e) ordered)" and e: "e \<in> set ordered" "entryKey e = avpKey a" "ruleFixed (vrRule e)"
  shows "placeFixed ordered e a st = Inr st' \<longleftrightarrow>
    int (counts st (avpKey a)) < fixedMax (vrRule e) \<and> \<not> fixedClosed st \<and> fixedIndex st \<le> position ordered (avpKey a) \<and>
    (\<forall>n. fixedIndex st \<le> n \<and> n < position ordered (avpKey a) \<and> ruleFixed (vrRule (ordered ! n)) \<longrightarrow>
       minimumCount (vrRule (ordered ! n)) \<le> counts st (entryKey (ordered ! n))) \<and>
    st' = st\<lparr>fixedIndex := (if int (counts st (avpKey a)) + 1 \<ge> fixedMax (vrRule e) then position ordered (avpKey a) + 1
                           else position ordered (avpKey a))\<rparr>"
proof -
  let ?p = "position ordered (avpKey a)" and ?fi = "fixedIndex st"
  obtain k where k: "k < length ordered" "ordered ! k = e"
    using e(1) by (auto simp: in_set_conv_nth)
  have pos: "?p = k" using position_nth [OF d k(1)] k e by simp
  show ?thesis
  proof (cases "?fi \<le> ?p")
    case True
    have drop: "position (drop ?fi ordered) (avpKey a) = ?p - ?fi"
      by (rule position_drop [OF True])
    have "(\<forall>n < ?p - ?fi. ruleFixed (vrRule (drop ?fi ordered ! n)) \<longrightarrow>
        minimumCount (vrRule (drop ?fi ordered ! n)) \<le> counts st (entryKey (drop ?fi ordered ! n))) \<longleftrightarrow>
      (\<forall>n. ?fi \<le> n \<and> n < ?p \<and> ruleFixed (vrRule (ordered ! n)) \<longrightarrow> minimumCount (vrRule (ordered ! n)) \<le> counts st (entryKey (ordered ! n)))"
      (is "?L \<longleftrightarrow> ?R")
    proof
      assume L: ?L
      show ?R
      proof (intro allI impI)
        fix n assume "?fi \<le> n \<and> n < ?p \<and> ruleFixed (vrRule (ordered ! n))"
        then show "minimumCount (vrRule (ordered ! n)) \<le> counts st (entryKey (ordered ! n))"
          using L [rule_format, of "n - ?fi"] k(1) pos by (auto simp: nth_drop)
      qed
    next
      assume ?R
      then show ?L using k(1) pos by (auto simp: nth_drop)
    qed
    then show ?thesis
      using True k e(2) pos
      by (auto simp: placeFixed_def Let_def advanceFixed_eq drop fixedMax_def not_le split: if_splits)
  next
    case False
    then have "length ordered \<le> ?fi + position (drop ?fi ordered) (avpKey a)"
      by (intro position_drop_past [OF d]) simp
    then show ?thesis
      using False by (auto simp: placeFixed_def Let_def advanceFixed_eq split: if_splits)
  qed
qed

lemma reached_snoc: "reached ordered pre fi \<Longrightarrow> reached ordered (pre @ [a]) fi"
  unfolding reached_def by force

lemma tracks_init: "tracks ordered wildcard app dict [] vInit"
  by (simp add: tracks_def vInit_def reached_def)

lemma listed_iff: "listed ordered a \<longleftrightarrow> (\<exists>e \<in> set ordered. entryKey e = avpKey a)"
  by (force simp: listed_def)

lemma position_unlisted: "\<not> listed ordered a \<Longrightarrow> position ordered (avpKey a) = length ordered"
  by (rule position_absent) (auto simp: listed_iff)

lemma position_loose:
  assumes "distinct (map (\<lambda>e. entryKey e) ordered)" "e \<in> set ordered" "entryKey e = avpKey a" "\<not> ruleFixed (vrRule e)"
  shows "position ordered (avpKey a) = length ordered"
proof (rule position_absent)
  show "\<not> (\<exists>e' \<in> set ordered. entryKey e' = avpKey a \<and> ruleFixed (vrRule e'))"
    using entry_unique [OF assms(1)] assms by metis
qed

lemma position_fixed:
  assumes "distinct (map (\<lambda>e. entryKey e) ordered)" "e \<in> set ordered" "entryKey e = avpKey a" "ruleFixed (vrRule e)"
  shows "position ordered (avpKey a) < length ordered"
proof -
  obtain i where "i < length ordered" "ordered ! i = e" using assms(2) by (auto simp: in_set_conv_nth)
  then show ?thesis using position_nth [OF assms(1), of i] assms by simp
qed

text \<open>The four ways an AVP is placed.\<close>

lemma flagsOk_place:
  "\<not> flagsOk dict app echoes a \<Longrightarrow> placeAVP ordered wildcard app dict echoes a st = Inl (ValidationError InvalidAVPBits (Some a))"
  by (auto simp: flagsOk_def placeAVP_def Let_def split: option.splits)

lemma place_unknown:
  assumes "flagsOk dict app echoes a" "\<not> listed ordered a" "\<not> known dict app a"
  shows "placeAVP ordered wildcard app dict echoes a st =
    Inr (if wildcard = None then st else st\<lparr>extensionMinimumCount := extensionMinimumCount st + 1\<rparr>, False)"
  using assms byKey_None [of ordered "avpKey a"]
  by (auto simp: placeAVP_def Let_def known_def listed_def split: option.splits)

lemma place_extension:
  assumes "flagsOk dict app echoes a" "\<not> listed ordered a" "known dict app a"
  shows "placeAVP ordered wildcard app dict echoes a st =
    (case wildcard of
       None \<Rightarrow> Inl (ValidationError AVPNotAllowed (Some a))
     | Some w \<Rightarrow>
         if hasMaximum w \<and> int (Suc (extensionCount st)) > ruleMax w then Inl (excess (ruleMax w) a)
         else Inr (st\<lparr>extensionMinimumCount := extensionMinimumCount st + 1, extensionCount := extensionCount st + 1,
                fixedClosed := True, counts := (counts st)(avpKey a := counts st (avpKey a) + 1)\<rparr>, True))"
  using assms byKey_None [of ordered "avpKey a"]
  by (auto simp: placeAVP_def Let_def known_def listed_def flagsOk_def split: option.splits)

lemma place_listed:
  assumes "distinct (map (\<lambda>e. entryKey e) ordered)" "flagsOk dict app echoes a" "e \<in> set ordered" "entryKey e = avpKey a"
  shows "placeAVP ordered wildcard app dict echoes a st =
    (case (if ruleFixed (vrRule e) then placeFixed ordered e a st else Inr (st\<lparr>fixedClosed := True\<rparr>)) of
       Inl err \<Rightarrow> Inl err
     | Inr st \<Rightarrow>
         if hasMaximum (vrRule e) \<and> int (Suc (counts st (avpKey a))) > ruleMax (vrRule e)
         then Inl (excess (ruleMax (vrRule e)) a)
         else Inr (st\<lparr>counts := (counts st)(avpKey a := Suc (counts st (avpKey a)))\<rparr>, True))"
proof -
  have "byKey ordered (avpKey a) = Some e" using byKey_Some [OF assms(1)] assms(3,4) by simp
  then show ?thesis
    using assms(2) by (auto simp: placeAVP_def Let_def flagsOk_def split: option.splits sum.splits)
qed


lemma tracks_unknown:
  assumes "tracks ordered wildcard app dict pre st" "\<not> listed ordered a" "\<not> known dict app a"
  shows "tracks ordered wildcard app dict (pre @ [a])
    (if wildcard = None then st else st\<lparr>extensionMinimumCount := extensionMinimumCount st + 1\<rparr>)"
proof -
  have "\<And>e. e \<in> set ordered \<Longrightarrow> entryKey e \<noteq> avpKey a \<and> avpKey a \<noteq> entryKey e" using assms(2) by (metis listed_iff)
  moreover have "\<not> placed ordered dict app a" using assms by (simp add: placed_def)
  moreover note position_unlisted [OF assms(2)]
  ultimately show ?thesis
    using assms unfolding tracks_def by (intro conjI) (auto intro: reached_snoc)
qed

lemma tracks_extension:
  assumes "tracks ordered (Some w) app dict pre st" "\<not> listed ordered a" "known dict app a"
  shows "tracks ordered (Some w) app dict (pre @ [a])
    (st\<lparr>extensionMinimumCount := extensionMinimumCount st + 1, extensionCount := extensionCount st + 1,
        fixedClosed := True, counts := (counts st)(avpKey a := counts st (avpKey a) + 1)\<rparr>)"
proof -
  have "\<And>e. e \<in> set ordered \<Longrightarrow> entryKey e \<noteq> avpKey a \<and> avpKey a \<noteq> entryKey e" using assms(2) by (metis listed_iff)
  moreover have "placed ordered dict app a" using assms by (simp add: placed_def)
  moreover note position_unlisted [OF assms(2)]
  ultimately show ?thesis
    using assms unfolding tracks_def by (intro conjI) (auto intro: reached_snoc)
qed

lemma tracks_listed:
  assumes "distinct (map (\<lambda>e. entryKey e) ordered)" "tracks ordered wildcard app dict pre st" "e \<in> set ordered" "entryKey e = avpKey a"
    "\<not> ruleFixed (vrRule e)"
  shows "tracks ordered wildcard app dict (pre @ [a])
    (st\<lparr>fixedClosed := True, counts := (counts st)(avpKey a := Suc (counts st (avpKey a)))\<rparr>)"
proof -
  have l: "listed ordered a" using assms by (auto simp: listed_iff)
  moreover have "placed ordered dict app a" using l by (simp add: placed_def)
  moreover note position_loose [OF assms(1,3,4,5)]
  ultimately show ?thesis
    using assms(2,3) unfolding tracks_def by (intro conjI) (auto intro: reached_snoc)
qed

lemma tracks_fixed:
  assumes d: "distinct (map (\<lambda>e. entryKey e) ordered)" and t: "tracks ordered wildcard app dict pre st"
    and e: "e \<in> set ordered" "entryKey e = avpKey a" "ruleFixed (vrRule e)"
    and fi: "fixedIndex st \<le> position ordered (avpKey a)"
  shows "tracks ordered wildcard app dict (pre @ [a])
    (st\<lparr>fixedIndex := (if int (counts st (avpKey a)) + 1 \<ge> fixedMax (vrRule e) then position ordered (avpKey a) + 1
                       else position ordered (avpKey a)),
        counts := (counts st)(avpKey a := Suc (counts st (avpKey a)))\<rparr>)"
proof -
  have l: "listed ordered a" using e by (auto simp: listed_iff)
  have n: "counts st (avpKey a) = occurrences pre (avpKey a)"
    using t e(1,2) unfolding tracks_def by metis
  note p = position_fixed [OF d e]
  show ?thesis
    unfolding tracks_def
  proof (intro conjI)
    let ?st = "st\<lparr>fixedIndex := (if int (counts st (avpKey a)) + 1 \<ge> fixedMax (vrRule e) then position ordered (avpKey a) + 1
                       else position ordered (avpKey a)),
        counts := (counts st)(avpKey a := Suc (counts st (avpKey a)))\<rparr>"
    show "reached ordered (pre @ [a]) (fixedIndex ?st)"
      unfolding reached_def using e n by auto
    show "\<forall>b \<in> set (pre @ [a]). position ordered (avpKey b) < length ordered \<longrightarrow> position ordered (avpKey b) \<le> fixedIndex ?st"
      using t fi unfolding tracks_def by auto
  qed (use t l p n in \<open>auto simp: tracks_def\<close>)
qed

lemma occurrences_snoc [simp]: "occurrences (pre @ [a]) (avpKey a) = Suc (occurrences pre (avpKey a))"
  by simp

lemma sound_unknown:
  assumes d: "distinct (map (\<lambda>e. entryKey e) ordered)" and t: "tracks ordered wildcard app dict pre st"
    and place: "placeAVP ordered wildcard app dict echoes a st = Inr (st', flag)" and f: "flagsOk dict app echoes a"
    and unknown: "\<not> listed ordered a" "\<not> known dict app a"
  shows "tracks ordered wildcard app dict (pre @ [a]) st' \<and> flag = placed ordered dict app a \<and>
    localOk ordered wildcard app dict echoes pre a"
proof -
  have "st' = (if wildcard = None then st else st\<lparr>extensionMinimumCount := extensionMinimumCount st + 1\<rparr>)" "\<not> flag"
    using place place_unknown [OF f unknown, of wildcard st] by simp_all
  moreover have "localOk ordered wildcard app dict echoes pre a"
    unfolding localOk_def using f unknown by (auto simp: placed_def listed_iff)
  ultimately show ?thesis using tracks_unknown [OF t unknown] unknown by (simp add: placed_def)
qed

lemma sound_ext:
  assumes d: "distinct (map (\<lambda>e. entryKey e) ordered)" and t: "tracks ordered wildcard app dict pre st"
    and place: "placeAVP ordered wildcard app dict echoes a st = Inr (st', flag)" and f: "flagsOk dict app echoes a"
    and ext: "\<not> listed ordered a" "known dict app a"
  shows "tracks ordered wildcard app dict (pre @ [a]) st' \<and> flag = placed ordered dict app a \<and>
    localOk ordered wildcard app dict echoes pre a"
proof -
  obtain w where w: "wildcard = Some w" using place place_extension [OF f ext] by (auto split: option.splits)
  have n: "extensionCount st = length (filter (\<lambda>b. \<not> listed ordered b \<and> known dict app b) pre)"
    using t w by (simp add: tracks_def)
  have mx: "\<not> (hasMaximum w \<and> int (Suc (extensionCount st)) > ruleMax w)" and
    st': "st' = st\<lparr>extensionMinimumCount := extensionMinimumCount st + 1, extensionCount := extensionCount st + 1,
      fixedClosed := True, counts := (counts st)(avpKey a := counts st (avpKey a) + 1)\<rparr>" "flag"
    using place place_extension [OF f ext, of wildcard st] w by (simp_all split: if_splits)
  have "localOk ordered wildcard app dict echoes pre a"
    unfolding localOk_def using f mx n w ext position_unlisted [OF ext(1)] position_le [of ordered]
    by (intro conjI) (auto simp: listed_iff)
  then show ?thesis using st' tracks_extension [OF t [unfolded w] ext] w ext by (simp add: placed_def)
qed

lemma sound_loose:
  assumes d: "distinct (map (\<lambda>e. entryKey e) ordered)" and t: "tracks ordered wildcard app dict pre st"
    and place: "placeAVP ordered wildcard app dict echoes a st = Inr (st', flag)" and f: "flagsOk dict app echoes a"
    and loose: "e \<in> set ordered" "entryKey e = avpKey a" "\<not> ruleFixed (vrRule e)"
  shows "tracks ordered wildcard app dict (pre @ [a]) st' \<and> flag = placed ordered dict app a \<and>
    localOk ordered wildcard app dict echoes pre a"
proof -
  have l: "listed ordered a" using loose by (auto simp: listed_iff)
  have n: "counts st (avpKey a) = occurrences pre (avpKey a)" using t loose(1,2) unfolding tracks_def by metis
  have u: "\<forall>e' \<in> set ordered. entryKey e' = avpKey a \<longrightarrow> e' = e"
    using entry_unique [OF d] loose by metis
  have mx: "\<not> (hasMaximum (vrRule e) \<and> int (Suc (counts st (avpKey a))) > ruleMax (vrRule e))" and
    st': "st' = st\<lparr>fixedClosed := True, counts := (counts st)(avpKey a := Suc (counts st (avpKey a)))\<rparr>" "flag"
    using place place_listed [OF d f loose(1,2), of wildcard st] loose(3) by (simp_all split: if_splits)
  have "withinMaximum (vrRule e) (Suc (occurrences pre (avpKey a)))"
    using mx loose(3) by (auto simp: withinMaximum_def n)
  then have "localOk ordered wildcard app dict echoes pre a"
    unfolding localOk_def using f l u position_loose [OF d loose] position_le [of ordered] by (intro conjI) auto
  then show ?thesis using st' tracks_listed [OF d t loose] l by (simp add: placed_def)
qed

lemma sound_fixed:
  assumes d: "distinct (map (\<lambda>e. entryKey e) ordered)" and t: "tracks ordered wildcard app dict pre st"
    and place: "placeAVP ordered wildcard app dict echoes a st = Inr (st', flag)" and f: "flagsOk dict app echoes a"
    and fixed: "e \<in> set ordered" "entryKey e = avpKey a" "ruleFixed (vrRule e)"
  shows "tracks ordered wildcard app dict (pre @ [a]) st' \<and> flag = placed ordered dict app a \<and>
    localOk ordered wildcard app dict echoes pre a"
proof -
  have l: "listed ordered a" using fixed by (auto simp: listed_iff)
  have n: "counts st (avpKey a) = occurrences pre (avpKey a)" using t fixed(1,2) unfolding tracks_def by metis
  have u: "\<forall>e' \<in> set ordered. entryKey e' = avpKey a \<longrightarrow> e' = e"
    using entry_unique [OF d] fixed by metis
  obtain st1 where st1: "placeFixed ordered e a st = Inr st1"
    using place place_listed [OF d f fixed(1,2), of wildcard st] fixed(3) by (auto split: sum.splits)
  note pf = st1 [unfolded placeFixed_eq [OF d fixed]]
  have pre: "\<forall>b \<in> set pre. placed ordered dict app b \<longrightarrow> position ordered (avpKey b) \<le> position ordered (avpKey a)"
  proof (intro ballI impI)
    fix b assume b: "b \<in> set pre" "placed ordered dict app b"
    then have "position ordered (avpKey b) \<noteq> length ordered"
      using t pf unfolding tracks_def by blast
    then have "position ordered (avpKey b) < length ordered" using position_le [of ordered "avpKey b"] by simp
    then show "position ordered (avpKey b) \<le> position ordered (avpKey a)"
      using t pf b unfolding tracks_def by (meson order_trans)
  qed
  have c: "counts st1 = counts st" using pf by simp
  have st': "st' = st1\<lparr>counts := (counts st)(avpKey a := Suc (counts st (avpKey a)))\<rparr>" "flag" and
    mx: "\<not> (hasMaximum (vrRule e) \<and> int (Suc (counts st (avpKey a))) > ruleMax (vrRule e))"
    using place place_listed [OF d f fixed(1,2), of wildcard st] fixed(3) st1 c by (simp_all split: if_splits)
  have "withinMaximum (vrRule e) (Suc (occurrences pre (avpKey a)))"
    using mx pf by (auto simp: withinMaximum_def n fixedMax_def split: if_splits)
  then have "localOk ordered wildcard app dict echoes pre a"
    unfolding localOk_def using f l u pre by (intro conjI) auto
  moreover have "fixedIndex st \<le> position ordered (avpKey a)" using pf by blast
  ultimately show ?thesis using st' pf tracks_fixed [OF d t fixed] l by (simp add: placed_def)
qed

lemma placement_cases:
  obtains "\<not> listed ordered a" "\<not> known dict app a" | "\<not> listed ordered a" "known dict app a"
    | e where "e \<in> set ordered" "entryKey e = avpKey a" "\<not> ruleFixed (vrRule e)"
    | e where "e \<in> set ordered" "entryKey e = avpKey a" "ruleFixed (vrRule e)"
  unfolding listed_iff by blast

lemma placeAVP_sound:
  assumes d: "distinct (map (\<lambda>e. entryKey e) ordered)" and t: "tracks ordered wildcard app dict pre st"
    and place: "placeAVP ordered wildcard app dict echoes a st = Inr (st', flag)"
  shows "tracks ordered wildcard app dict (pre @ [a]) st' \<and> flag = placed ordered dict app a \<and>
    localOk ordered wildcard app dict echoes pre a"
proof -
  have f: "flagsOk dict app echoes a" using place flagsOk_place by (metis Inl_Inr_False)
  note * = d t place f
  show ?thesis
    by (cases rule: placement_cases [of ordered a dict app])
      (rule sound_unknown [OF *] sound_ext [OF *] sound_loose [OF *] sound_fixed [OF *]; assumption)+
qed

lemma reachedD:
  assumes "reached ordered pre fi" "fi \<noteq> 0"
  obtains b e where "b \<in> set pre" "e \<in> set ordered" "entryKey e = avpKey b" "ruleFixed (vrRule e)"
    "fi = position ordered (avpKey b) \<or> fi = Suc (position ordered (avpKey b)) \<and> fixedMax (vrRule e) \<le> int (occurrences pre (avpKey b))"
proof -
  have "\<exists>b \<in> set pre. \<exists>e \<in> set ordered. entryKey e = avpKey b \<and> ruleFixed (vrRule e) \<and>
        (fi = position ordered (avpKey b) \<or>
         fi = Suc (position ordered (avpKey b)) \<and> fixedMax (vrRule e) \<le> int (occurrences pre (avpKey b)))"
    using assms unfolding reached_def by simp
  then show thesis
    by (elim bexE conjE) (rule that; assumption)
qed
text \<open>\<open>fixedIndex\<close> never runs past a fixed AVP that is still allowed.\<close>

lemma reached_before:
  assumes d: "distinct (map (\<lambda>e. entryKey e) ordered)" and t: "tracks ordered wildcard app dict pre st"
    and e: "e \<in> set ordered" "entryKey e = avpKey a" "ruleFixed (vrRule e)"
    and wm: "withinMaximum (vrRule e) (Suc (occurrences pre (avpKey a)))"
    and before: "\<And>b. b \<in> set pre \<Longrightarrow> placed ordered dict app b \<Longrightarrow> position ordered (avpKey b) \<le> position ordered (avpKey a)"
  shows "fixedIndex st \<le> position ordered (avpKey a)"
proof -
  have "reached ordered pre (fixedIndex st)" using t by (simp add: tracks_def)
  then show ?thesis
  proof (cases "fixedIndex st = 0")
    case False
    from \<open>reached ordered pre (fixedIndex st)\<close> False obtain b e' where b: "b \<in> set pre"
      and e': "e' \<in> set ordered" "entryKey e' = avpKey b" "ruleFixed (vrRule e')"
      and fi: "fixedIndex st = position ordered (avpKey b) \<or>
        fixedIndex st = Suc (position ordered (avpKey b)) \<and> fixedMax (vrRule e') \<le> int (occurrences pre (avpKey b))"
      by (rule reachedD)
    have "placed ordered dict app b" unfolding placed_def listed_iff using e' by (intro disjI1 bexI)
    then have le: "position ordered (avpKey b) \<le> position ordered (avpKey a)" by (rule before [OF b])
    have "fixedMax (vrRule e') \<le> int (occurrences pre (avpKey b)) \<Longrightarrow> position ordered (avpKey b) \<noteq> position ordered (avpKey a)"
    proof
      assume mx: "fixedMax (vrRule e') \<le> int (occurrences pre (avpKey b))"
      assume "position ordered (avpKey b) = position ordered (avpKey a)"
      then have key: "avpKey b = avpKey a"
        using position_lt [OF position_fixed [OF d e']] position_lt [OF position_fixed [OF d e]] by metis
      then have "e' = e" by (intro entry_unique [OF d e'(1) e(1)]) (simp add: e e')
      with key mx wm e(3) show False
        by (simp add: withinMaximum_def fixedMax_def split: if_splits)
    qed
    then show ?thesis using fi le by linarith
  qed simp
qed

lemma complete_fixed:
  assumes d: "distinct (map (\<lambda>e. entryKey e) ordered)" and t: "tracks ordered wildcard app dict pre st"
    and ok: "localOk ordered wildcard app dict echoes pre a"
    and mins: "\<And>n. n < position ordered (avpKey a) \<Longrightarrow> position ordered (avpKey a) < length ordered \<Longrightarrow>
      ruleFixed (vrRule (ordered ! n)) \<Longrightarrow> minimumCount (vrRule (ordered ! n)) \<le> occurrences pre (entryKey (ordered ! n))"
    and fixed: "e \<in> set ordered" "entryKey e = avpKey a" "ruleFixed (vrRule e)"
  shows "\<exists>st'. placeAVP ordered wildcard app dict echoes a st = Inr (st', placed ordered dict app a)"
proof -
  have f: "flagsOk dict app echoes a" using ok by (simp add: localOk_def)
  let ?p = "position ordered (avpKey a)"
  have l: "listed ordered a" using fixed by (auto simp: listed_iff)
  have pl: "placed ordered dict app a" using l by (simp add: placed_def)
  have n: "counts st (avpKey a) = occurrences pre (avpKey a)" using t fixed(1,2) unfolding tracks_def by metis
  have p: "?p < length ordered" by (rule position_fixed [OF d fixed])
  have wm: "withinMaximum (vrRule e) (Suc (occurrences pre (avpKey a)))"
    using ok fixed unfolding localOk_def by blast
  then have mx: "int (counts st (avpKey a)) < fixedMax (vrRule e)"
    using fixed(3) by (auto simp: withinMaximum_def fixedMax_def n split: if_splits)
  have before: "\<And>b. b \<in> set pre \<Longrightarrow> placed ordered dict app b \<Longrightarrow> position ordered (avpKey b) \<le> ?p"
    using ok pl unfolding localOk_def by blast
  have open': "\<not> fixedClosed st"
  proof
    assume "fixedClosed st"
    then obtain b where "b \<in> set pre" "placed ordered dict app b" "position ordered (avpKey b) = length ordered"
      using t unfolding tracks_def by blast
    with before p show False by force
  qed
  have fi: "fixedIndex st \<le> ?p"
    by (rule reached_before [OF d t fixed wm before]) 
  have "\<forall>n. fixedIndex st \<le> n \<and> n < ?p \<and> ruleFixed (vrRule (ordered ! n)) \<longrightarrow>
     minimumCount (vrRule (ordered ! n)) \<le> counts st (entryKey (ordered ! n))"
    using mins p t unfolding tracks_def by (metis order_less_trans nth_mem)
  with mx open' fi obtain st1 where st1: "placeFixed ordered e a st = Inr st1" "counts st1 = counts st"
    using placeFixed_eq [OF d fixed, of st] by simp
  then show ?thesis
    using place_listed [OF d f fixed(1,2), of wildcard st] fixed(3) wm n l
    by (auto simp: placed_def withinMaximum_def)
qed

lemma placeAVP_complete:
  assumes d: "distinct (map (\<lambda>e. entryKey e) ordered)" and t: "tracks ordered wildcard app dict pre st"
    and ok: "localOk ordered wildcard app dict echoes pre a"
    and mins: "\<And>n. n < position ordered (avpKey a) \<Longrightarrow> position ordered (avpKey a) < length ordered \<Longrightarrow>
      ruleFixed (vrRule (ordered ! n)) \<Longrightarrow> minimumCount (vrRule (ordered ! n)) \<le> occurrences pre (entryKey (ordered ! n))"
  shows "\<exists>st'. placeAVP ordered wildcard app dict echoes a st = Inr (st', placed ordered dict app a)"
proof -
  have f: "flagsOk dict app echoes a" using ok by (simp add: localOk_def)
  consider (unknown) "\<not> listed ordered a" "\<not> known dict app a" | (ext) "\<not> listed ordered a" "known dict app a"
    | (loose) e where "e \<in> set ordered" "entryKey e = avpKey a" "\<not> ruleFixed (vrRule e)"
    | (fixed) e where "e \<in> set ordered" "entryKey e = avpKey a" "ruleFixed (vrRule e)"
    by (rule placement_cases)
  then show ?thesis
  proof cases
    case unknown
    then show ?thesis using place_unknown [OF f unknown, of wildcard st] by (simp add: placed_def)
  next
    case ext
    obtain w where w: "wildcard = Some w" "hasMaximum w \<longrightarrow>
        int (Suc (length (filter (\<lambda>b. \<not> listed ordered b \<and> known dict app b) pre))) \<le> ruleMax w"
      using ok ext unfolding localOk_def by blast
    have "extensionCount st = length (filter (\<lambda>b. \<not> listed ordered b \<and> known dict app b) pre)"
      using t w by (simp add: tracks_def)
    then show ?thesis
      using place_extension [OF f ext, of wildcard st] w ext by (auto simp: placed_def)
  next
    case loose
    have l: "listed ordered a" using loose by (auto simp: listed_iff)
    have n: "counts st (avpKey a) = occurrences pre (avpKey a)" using t loose(1,2) unfolding tracks_def by metis
    have "withinMaximum (vrRule e) (Suc (occurrences pre (avpKey a)))"
      using ok loose unfolding localOk_def by blast
    then show ?thesis
      using place_listed [OF d f loose(1,2), of wildcard st] loose(3) n l
      by (auto simp: placed_def withinMaximum_def)
  next
    case fixed
    show ?thesis by (rule complete_fixed [OF d t ok mins fixed])
  qed
qed

lemma validateItems_sound:
  assumes "distinct (map (\<lambda>e. entryKey e) ordered)" "tracks ordered wildcard app dict pre st"
    "validateItems items ordered wildcard app dict echoes st = Inr st'"
  shows "tracks ordered wildcard app dict (pre @ items) st' \<and>
    (\<forall>xs a ys. items = xs @ a # ys \<longrightarrow> localOk ordered wildcard app dict echoes (pre @ xs) a \<and>
       (placed ordered dict app a \<longrightarrow> contentsOk app dict echoes a))"
  using assms(2,3)
proof (induction items arbitrary: pre st)
  case (Cons a as)
  obtain st1 flag where p: "placeAVP ordered wildcard app dict echoes a st = Inr (st1, flag)"
    using Cons.prems(2) by (auto simp: validateItems.simps split: sum.splits)
  note s = placeAVP_sound [OF assms(1) Cons.prems(1) p]
  have v: "validateItems as ordered wildcard app dict echoes st1 = Inr st'" and c: "flag \<longrightarrow> contentsOk app dict echoes a"
    using Cons.prems(2) p by (auto simp: validateItems.simps contentsOk_def split: bool.splits option.splits if_splits)
  have IH: "tracks ordered wildcard app dict ((pre @ [a]) @ as) st'"
    "\<And>xs b ys. as = xs @ b # ys \<Longrightarrow> localOk ordered wildcard app dict echoes ((pre @ [a]) @ xs) b \<and>
       (placed ordered dict app b \<longrightarrow> contentsOk app dict echoes b)"
    using Cons.IH [OF conjunct1 [OF s] v] by blast+
  show ?case
  proof (intro conjI allI impI)
    show "tracks ordered wildcard app dict (pre @ a # as) st'" using IH(1) by simp
  next
    fix xs b ys
    assume "a # as = xs @ b # ys"
    then consider "xs = []" "b = a" | xs' where "xs = a # xs'" "as = xs' @ b # ys" by (cases xs) auto
    note cs = this
    show "localOk ordered wildcard app dict echoes (pre @ xs) b"
      using cs by cases (use s IH(2) in auto)
    show "contentsOk app dict echoes b" if "placed ordered dict app b"
      using cs by cases (use s c that IH(2) in auto)
  qed
qed simp

lemma validateItems_complete:
  assumes "distinct (map (\<lambda>e. entryKey e) ordered)" "tracks ordered wildcard app dict pre st"
    "\<And>xs a ys. items = xs @ a # ys \<Longrightarrow> localOk ordered wildcard app dict echoes (pre @ xs) a"
    "\<And>xs a ys. items = xs @ a # ys \<Longrightarrow> placed ordered dict app a \<Longrightarrow> contentsOk app dict echoes a"
    "\<And>xs a ys n. items = xs @ a # ys \<Longrightarrow> n < position ordered (avpKey a) \<Longrightarrow> position ordered (avpKey a) < length ordered \<Longrightarrow>
      ruleFixed (vrRule (ordered ! n)) \<Longrightarrow> minimumCount (vrRule (ordered ! n)) \<le> occurrences (pre @ xs) (entryKey (ordered ! n))"
  shows "\<exists>st'. validateItems items ordered wildcard app dict echoes st = Inr st'"
  using assms(2-)
proof (induction items arbitrary: pre st)
  case (Cons a as)
  have lo: "localOk ordered wildcard app dict echoes pre a" using Cons.prems(2) [of "[]"] by simp
  obtain st1 where p: "placeAVP ordered wildcard app dict echoes a st = Inr (st1, placed ordered dict app a)"
    using placeAVP_complete [OF assms(1) Cons.prems(1) lo] Cons.prems(4) [of "[]" a as] by auto
  have "tracks ordered wildcard app dict (pre @ [a]) st1"
    using placeAVP_sound [OF assms(1) Cons.prems(1) p] by blast
  then obtain st' where v: "validateItems as ordered wildcard app dict echoes st1 = Inr st'"
    using Cons.IH [of "pre @ [a]" st1] Cons.prems(2-4) [of "a # xs" for xs] by auto
  have "placed ordered dict app a \<Longrightarrow> contentsOk app dict echoes a" using Cons.prems(3) [of "[]"] by simp
  then show ?case using p v
    by (auto simp: validateItems.simps contentsOk_def split: bool.splits)
qed simp

lemma splits_Cons:
  "(\<forall>xs a ys. x # items = xs @ a # ys \<longrightarrow> Q xs a) \<longleftrightarrow> Q [] x \<and> (\<forall>xs a ys. items = xs @ a # ys \<longrightarrow> Q (x # xs) a)"
  by (auto simp: Cons_eq_append_conv)

lemma splits_mem: "(\<forall>xs a ys. items = xs @ a # ys \<longrightarrow> Q a) \<longleftrightarrow> (\<forall>a \<in> set items. Q a)"
  by (metis in_set_conv_decomp)

lemma sorted_splits:
  "sorted (map f (filter P items)) \<longleftrightarrow> (\<forall>xs a ys. items = xs @ a # ys \<longrightarrow> P a \<longrightarrow> (\<forall>b \<in> set xs. P b \<longrightarrow> f b \<le> f a))"
proof (induction items)
  case (Cons x items)
  have "(\<forall>xs a ys. x # items = xs @ a # ys \<longrightarrow> P a \<longrightarrow> (\<forall>b \<in> set xs. P b \<longrightarrow> f b \<le> f a)) \<longleftrightarrow>
      (\<forall>xs a ys. items = xs @ a # ys \<longrightarrow> P a \<longrightarrow> (P x \<longrightarrow> f x \<le> f a)) \<and>
      (\<forall>xs a ys. items = xs @ a # ys \<longrightarrow> P a \<longrightarrow> (\<forall>b \<in> set xs. P b \<longrightarrow> f b \<le> f a))"
    unfolding splits_Cons [of x items "\<lambda>xs a. P a \<longrightarrow> (\<forall>b \<in> set xs. P b \<longrightarrow> f b \<le> f a)"] by simp blast
  also have "\<dots> \<longleftrightarrow> (\<forall>a \<in> set items. P a \<longrightarrow> P x \<longrightarrow> f x \<le> f a) \<and> sorted (map f (filter P items))"
    unfolding splits_mem [of items "\<lambda>a. P a \<longrightarrow> P x \<longrightarrow> f x \<le> f a"] Cons.IH ..
  finally show ?case by auto
qed simp


lemma withinMaximum_mono: "withinMaximum rule n \<Longrightarrow> m \<le> n \<Longrightarrow> withinMaximum rule m"
  by (auto simp: withinMaximum_def split: if_splits)

lemma last_split:
  assumes "filter P items \<noteq> []"
  obtains xs a ys where "items = xs @ a # ys" "P a" "filter P ys = []"
proof -
  have "\<exists>x \<in> set items. P x" using assms by (simp add: filter_empty_conv)
  then obtain xs a ys where "items = xs @ a # ys" "P a" "\<forall>y \<in> set ys. \<not> P y"
    using split_list_last_prop [of items P] by blast
  then show thesis using that by (simp add: filter_empty_conv)
qed

text \<open>The local conditions along a list and the global ones.\<close>

lemma local_imp_bounded:
  assumes L: "\<And>xs a ys. items = xs @ a # ys \<Longrightarrow> localOk ordered wildcard app dict echoes xs a"
  shows "extensionsBounded items ordered wildcard dict app"
proof (cases "filter (\<lambda>b. \<not> listed ordered b \<and> known dict app b) items = []")
  case False
  from last_split [OF this] obtain xs a ys where *: "items = xs @ a # ys" "\<not> listed ordered a \<and> known dict app a"
    "filter (\<lambda>b. \<not> listed ordered b \<and> known dict app b) ys = []" .
  then obtain w where "wildcard = Some w" "hasMaximum w \<longrightarrow>
      int (Suc (length (filter (\<lambda>b. \<not> listed ordered b \<and> known dict app b) xs))) \<le> ruleMax w"
    using L [OF *(1)] unfolding localOk_def by blast
  then show ?thesis using * by (simp add: extensionsBounded_def)
qed (simp add: extensionsBounded_def split: option.splits)

lemma local_imp_maxima:
  assumes L: "\<And>xs a ys. items = xs @ a # ys \<Longrightarrow> localOk ordered wildcard app dict echoes xs a" and e: "e \<in> set ordered"
  shows "withinMaximum (vrRule e) (occurrences items (entryKey e))"
proof (cases "filter (\<lambda>a. avpKey a = entryKey e) items = []")
  case False
  from last_split [OF this] obtain xs a ys where *: "items = xs @ a # ys" "avpKey a = entryKey e"
    "filter (\<lambda>a. avpKey a = entryKey e) ys = []" .
  then have "withinMaximum (vrRule e) (Suc (occurrences xs (avpKey a)))"
    using L [OF *(1)] e unfolding localOk_def by metis
  then show ?thesis using * by simp
qed (simp add: withinMaximum_def)

lemma local_imp_order:
  assumes L: "\<And>xs a ys. items = xs @ a # ys \<Longrightarrow> localOk ordered wildcard app dict echoes xs a"
  shows "inOrder items ordered dict app"
  unfolding inOrder_def sorted_splits using L unfolding localOk_def by blast

lemma global_imp_local:
  assumes items: "items = xs @ a # ys" and F: "\<forall>a \<in> set items. flagsOk dict app echoes a"
    and X: "extensionsBounded items ordered wildcard dict app"
    and M: "\<forall>e \<in> set ordered. withinMaximum (vrRule e) (occurrences items (entryKey e))"
    and S: "inOrder items ordered dict app"
  shows "localOk ordered wildcard app dict echoes xs a"
  unfolding localOk_def
proof (intro conjI impI)
  show "flagsOk dict app echoes a" using F items by simp
  show "\<exists>w. wildcard = Some w \<and> (hasMaximum w \<longrightarrow>
      int (Suc (length (filter (\<lambda>b. \<not> listed ordered b \<and> known dict app b) xs))) \<le> ruleMax w)"
    if "known dict app a \<and> \<not> listed ordered a"
    using X that items by (auto simp: extensionsBounded_def split: option.splits)
  show "\<forall>e \<in> set ordered. entryKey e = avpKey a \<longrightarrow> withinMaximum (vrRule e) (Suc (occurrences xs (avpKey a)))"
  proof (intro ballI impI)
    fix e
    assume "e \<in> set ordered" and e: "entryKey e = avpKey a"
    then have "withinMaximum (vrRule e) (occurrences items (entryKey e))" using M by blast
    then show "withinMaximum (vrRule e) (Suc (occurrences xs (avpKey a)))"
      by (rule withinMaximum_mono) (simp add: items e)
  qed
  show "\<forall>b \<in> set xs. placed ordered dict app b \<longrightarrow> position ordered (avpKey b) \<le> position ordered (avpKey a)"
    if "placed ordered dict app a"
    using S items that unfolding inOrder_def sorted_splits by blast
qed

text \<open>In an ordered list the occurrences of an earlier fixed AVP are all behind.\<close>

lemma earlier_fixed_seen:
  assumes d: "distinct (map (\<lambda>e. entryKey e) ordered)" and S: "inOrder items ordered dict app"
    and items: "items = xs @ a # ys" and n: "n < position ordered (avpKey a)" "position ordered (avpKey a) < length ordered"
      "ruleFixed (vrRule (ordered ! n))"
  shows "occurrences xs (entryKey (ordered ! n)) = occurrences items (entryKey (ordered ! n))"
proof -
  have mem: "ordered ! n \<in> set ordered" using n by simp
  have pos: "position ordered (entryKey (ordered ! n)) = n" by (rule position_nth [OF d _ n(3)]) (use n in simp)
  have a: "placed ordered dict app a"
    using position_lt [OF n(2)] n(2) unfolding placed_def listed_iff by (metis nth_mem)
  have "avpKey b \<noteq> entryKey (ordered ! n)" if b: "b \<in> set (a # ys)" for b
  proof
    assume key: "avpKey b = entryKey (ordered ! n)"
    then have p: "placed ordered dict app b" using mem unfolding placed_def listed_iff by metis
    have "b \<noteq> a" using key pos n(1) by auto
    then obtain us vs where "ys = us @ b # vs" using b by (auto dest: split_list)
    then have "items = (xs @ a # us) @ b # vs" using items by simp
    then have "position ordered (avpKey a) \<le> position ordered (avpKey b)"
      using S p a unfolding inOrder_def sorted_splits by (metis in_set_conv_decomp)
    then show False using key pos n(1) by simp
  qed
  then have "filter (\<lambda>b. avpKey b = entryKey (ordered ! n)) (a # ys) = []" by (simp add: filter_empty_conv)
  then show ?thesis unfolding items filter_append length_append by simp
qed

lemma extensionsOk_iff:
  "extensionsOk items ordered wildcard dict app \<longleftrightarrow>
     extensionsBounded items ordered wildcard dict app \<and>
     (\<forall>w. wildcard = Some w \<longrightarrow> minimumCount w \<le> length (filter (\<lambda>a. \<not> listed ordered a) items))"
  by (auto simp: extensionsOk_def extensionsBounded_def Let_def filter_empty_conv split: option.splits)

lemma count_list_occurrences: "count_list (map avpKey items) k = occurrences items k"
  by (induction items) auto

lemma finalCheck_None:
  assumes "tracks ordered wildcard app dict items st"
  shows "finalCheck ordered wildcard app dict st = None \<longleftrightarrow>
    (\<forall>e \<in> set ordered. minimumCount (vrRule e) \<le> occurrences items (entryKey e)) \<and>
    (\<forall>w. wildcard = Some w \<longrightarrow> minimumCount w \<le> length (filter (\<lambda>a. \<not> listed ordered a) items))"
proof -
  have t: "\<forall>e \<in> set ordered. counts st (entryKey e) = occurrences items (entryKey e)"
    "wildcard \<noteq> None \<longrightarrow> extensionMinimumCount st = length (filter (\<lambda>a. \<not> listed ordered a) items)"
    using assms unfolding tracks_def by blast+
  have "finalCheck ordered wildcard app dict st = None \<longleftrightarrow>
      find (\<lambda>e. counts st (entryKey e) < minimumCount (vrRule e)) ordered = None \<and>
      (\<forall>w. wildcard = Some w \<longrightarrow> minimumCount w \<le> extensionMinimumCount st)"
    by (auto simp: finalCheck_def split: option.splits)
  also have "find (\<lambda>e. counts st (entryKey e) < minimumCount (vrRule e)) ordered = None \<longleftrightarrow>
      (\<forall>e \<in> set ordered. minimumCount (vrRule e) \<le> occurrences items (entryKey e))"
    using t(1) by (force simp: find_None_iff not_less)
  finally show ?thesis using t(2) by auto
qed

lemma fixedMissing_None:
  "fixedMissing items ordered = None \<longleftrightarrow>
     (\<forall>e \<in> set ordered. ruleFixed (vrRule e) \<longrightarrow> minimumCount (vrRule e) \<le> occurrences items (entryKey e))"
  by (auto simp: fixedMissing_def find_None_iff count_list_occurrences not_less)

lemma walk_sound:
  assumes d: "distinct (map (\<lambda>e. entryKey e) ordered)"
    and walk: "\<exists>st. validateItems items ordered w app dict echoes vInit = Inr st \<and> finalCheck ordered w app dict st = None"
  shows "goodList items ordered w app dict echoes"
proof -
  obtain st where v: "validateItems items ordered w app dict echoes vInit = Inr st"
    and f: "finalCheck ordered w app dict st = None" using walk by blast
  have t: "tracks ordered w app dict items st" and
    l: "\<And>xs a ys. items = xs @ a # ys \<Longrightarrow> localOk ordered w app dict echoes xs a" and
    c: "\<And>xs a ys. items = xs @ a # ys \<Longrightarrow> placed ordered dict app a \<Longrightarrow> contentsOk app dict echoes a"
    using validateItems_sound [OF d tracks_init v] unfolding append_Nil by blast+
  have "\<forall>a \<in> set items. flagsOk dict app echoes a" using l unfolding localOk_def by (metis split_list)
  moreover have "cardinalities items ordered"
    using f [unfolded finalCheck_None [OF t]] local_imp_maxima [OF l] by (simp add: cardinalities_def)
  moreover have "extensionsOk items ordered w dict app"
    using f [unfolded finalCheck_None [OF t]] local_imp_bounded [OF l] by (simp add: extensionsOk_iff)
  moreover have "inOrder items ordered dict app" using l by (rule local_imp_order)
  moreover have "\<forall>a \<in> set items. placed ordered dict app a \<longrightarrow> contentsOk app dict echoes a"
    using c by (metis split_list)
  ultimately show ?thesis unfolding goodList_def by blast
qed

lemma walk_complete:
  assumes d: "distinct (map (\<lambda>e. entryKey e) ordered)" and good: "goodList items ordered w app dict echoes"
  shows "fixedMissing items ordered = None \<and>
    (\<exists>st. validateItems items ordered w app dict echoes vInit = Inr st \<and> finalCheck ordered w app dict st = None)"
proof -
  have F: "\<forall>a \<in> set items. flagsOk dict app echoes a" and C: "cardinalities items ordered"
    and X: "extensionsOk items ordered w dict app" and S: "inOrder items ordered dict app"
    and O: "\<forall>a \<in> set items. placed ordered dict app a \<longrightarrow> contentsOk app dict echoes a"
    using good unfolding goodList_def by blast+
  have l: "localOk ordered w app dict echoes xs a" if "items = xs @ a # ys" for xs a ys
    using C X by (intro global_imp_local [OF that F _ _ S]) (simp_all add: extensionsOk_iff cardinalities_def)
  have "\<exists>st. validateItems items ordered w app dict echoes vInit = Inr st"
  proof (rule validateItems_complete [OF d tracks_init])
    fix xs a ys n
    assume *: "items = xs @ a # ys" "n < position ordered (avpKey a)" "position ordered (avpKey a) < length ordered"
      "ruleFixed (vrRule (ordered ! n))"
    then have "ordered ! n \<in> set ordered" by simp
    then have "minimumCount (vrRule (ordered ! n)) \<le> occurrences items (entryKey (ordered ! n))"
      using C unfolding cardinalities_def by blast
    then show "minimumCount (vrRule (ordered ! n)) \<le> occurrences ([] @ xs) (entryKey (ordered ! n))"
      unfolding append_Nil earlier_fixed_seen [OF d S *] .
  qed (use l O in auto)
  then obtain st where v: "validateItems items ordered w app dict echoes vInit = Inr st" by blast
  have t: "tracks ordered w app dict items st"
    using validateItems_sound [OF d tracks_init v] by simp
  show ?thesis
    using v C X finalCheck_None [OF t] unfolding fixedMissing_None by (auto simp: cardinalities_def extensionsOk_iff)
qed

lemma validateAVPs_None:
  assumes "distinct (map (\<lambda>e. entryKey e) (orderedRules rules app dict))"
  shows "validateAVPs items rules app dict echoes = None \<longleftrightarrow>
    goodList items (orderedRules rules app dict) (wildcardRule rules) app dict echoes"
proof -
  have "validateAVPs items rules app dict echoes = None \<longleftrightarrow> fixedMissing items (orderedRules rules app dict) = None \<and>
      (\<exists>st. validateItems items (orderedRules rules app dict) (wildcardRule rules) app dict echoes vInit = Inr st \<and>
        finalCheck (orderedRules rules app dict) (wildcardRule rules) app dict st = None)"
    by (auto simp: validateAVPs.simps [of items] Let_def split: option.splits sum.splits)
  then show ?thesis using walk_sound [OF assms] walk_complete [OF assms] by blast
qed

lemma groupRules_distinct:
  assumes "grammarsDistinct dict app" "groupRules dict app a = Some (d, rs)"
  shows "distinct (map (\<lambda>e. entryKey e) (orderedRules rs app dict))"
proof -
  have "FindAVP dict app (Code a) (VendorID a) = Some d" "rs = dataRule (avpData d)"
    using assms(2) by (auto simp: groupRules_def split: option.splits if_splits)
  then obtain k where "(k, d) \<in> set (avpcode dict)"
    by (auto simp: FindAVP_def lookupAVP_def split: option.splits dest!: map_of_SomeD)
  then show ?thesis
    using assms(1) \<open>rs = _\<close> by (auto simp: grammarsDistinct_def rulesDistinct_def list_all_iff)
qed

lemma contentsOk_iff:
  "validateContents a app dict = None \<longleftrightarrow>
     (if isFailedAVP a then \<exists>as. Data a = Some (GroupedAVP as) \<and> as \<noteq> []
      else \<forall>d rs. groupRules dict app a = Some (d, rs) \<longrightarrow>
        (\<forall>as. Data a = Some (GroupedAVP as) \<longrightarrow>
          validateAVPs as rs app dict [] = None \<and> (isVSAI d \<longrightarrow> length (filter isApplicationID as) = 1)))"
  by (auto simp: validateContents.simps validateFailedEvidence_def validateVendorApplicationChoice_def Let_def
      split: option.splits payload.splits)

lemma validateAVPs_conforms:
  assumes "grammarsDistinct dict app" "distinct (map (\<lambda>e. entryKey e) (orderedRules rules app dict))"
  shows "validateAVPs items rules app dict echoes = None \<longleftrightarrow> conforms items rules app dict echoes"
  using assms(2)
proof (induction "size_list size items" arbitrary: items rules echoes rule: less_induct)
  case less
  have IH: "validateAVPs as rs app dict [] = None \<longleftrightarrow> conforms as rs app dict []"
    if "a \<in> set items" "Data a = Some (GroupedAVP as)" "groupRules dict app a = Some (d, rs)" for a as d rs
    using size_Data [OF that(2)] size_list_estimation' [OF that(1), of "size a" size]
    by (intro less.hyps groupRules_distinct [OF assms(1) that(3)]) simp
  have "contentsOk app dict echoes a \<longleftrightarrow> isEchoedProxy a echoes \<or>
      (if isFailedAVP a then \<exists>as. Data a = Some (GroupedAVP as) \<and> as \<noteq> []
       else \<forall>d rs. groupRules dict app a = Some (d, rs) \<longrightarrow>
         (\<forall>as. Data a = Some (GroupedAVP as) \<longrightarrow>
           conforms as rs app dict [] \<and> (isVSAI d \<longrightarrow> length (filter isApplicationID as) = 1)))"
    if "a \<in> set items" for a
    unfolding contentsOk_def contentsOk_iff using IH [OF that] by (auto split: if_splits)
  then show ?case
    unfolding validateAVPs_None [OF less.prems] goodList_def conforms.simps [of items] Let_def by blast
qed

section \<open>Flags\<close>

lemma or_exp_and_exp: "(f OR 2 ^ i) AND 2 ^ j \<noteq> 0 \<longleftrightarrow> f AND 2 ^ j \<noteq> 0 \<or> i = j" for f :: nat
  unfolding and_exp_eq_0_iff_not_bit by (auto simp: bit_or_iff bit_exp_iff)

lemma flag_or:
  assumes "c \<in> {CHR ''M'', CHR ''P'', CHR ''V''}" "fl \<in> {CHR ''M'', CHR ''P'', CHR ''V''}"
  shows "(f OR flagBit c) AND flagBit fl \<noteq> 0 \<longleftrightarrow> f AND flagBit fl \<noteq> 0 \<or> c = fl"
proof -
  define pos :: "char \<Rightarrow> nat" where "pos = (\<lambda>c. if c = CHR ''M'' then 0 else if c = CHR ''P'' then 1 else 2)"
  have "flagBit x = 2 ^ pos x" for x
    by (simp add: flagBit_def pos_def flagM_def flagP_def flagV_def)
  moreover have "pos c = pos fl \<longleftrightarrow> c = fl" using assms by (auto simp: pos_def)
  ultimately show ?thesis using or_exp_and_exp [of f "pos c" "pos fl"] by metis
qed

lemma flagChars_parse:
  assumes "fl \<in> {CHR ''M'', CHR ''P'', CHR ''V''}"
  shows "flagChars fl (f AND flagBit fl \<noteq> 0) cs = map_option (\<lambda>g. g AND flagBit fl \<noteq> 0) (parseFlagChars f cs)"
proof (induction cs arbitrary: f)
  case (Cons c cs)
  show ?case
  proof (cases "c \<in> {CHR ''M'', CHR ''P'', CHR ''V''}")
    case True
    have "parseFlagChars f (c # cs) = parseFlagChars (f OR flagBit c) cs" using True by (auto simp: flagBit_def)
    then show ?thesis using True Cons.IH [of "f OR flagBit c"] flag_or [OF True assms, of f] by auto
  next
    case False
    then show ?thesis by auto
  qed
qed simp

lemma flagItems_parse:
  assumes "fl \<in> {CHR ''M'', CHR ''P'', CHR ''V''}"
  shows "flagItems fl (f AND flagBit fl \<noteq> 0) items \<longleftrightarrow> (\<exists>g. parseFlagItems f items = Some g \<and> g AND flagBit fl \<noteq> 0)"
  by (induction items arbitrary: f) (auto simp: Let_def flagChars_parse [OF assms] simp del: neq0_conv split: option.splits)

section \<open>Outgoing messages\<close>

lemma sentAVPs_Nil: "sentAVPs [] echoes = []"
  by (subst sentAVPs.simps) simp

lemma sentAVPs_Cons:
  "sentAVPs (a # as) echoes =
     (if isEchoedProxy a echoes then []
      else a # (if isFailedAVP a then [] else case Data a of Some (GroupedAVP gs) \<Rightarrow> sentAVPs gs [] | _ \<Rightarrow> [])) @
     sentAVPs as echoes"
  by (subst (1 3) sentAVPs.simps) simp

lemma walkOutgoing_clean:
  "walkOutgoingFlags items app dict rules echoes = None \<Longrightarrow> a \<in> set (sentAVPs items echoes) \<Longrightarrow> cleanFlags a"
proof (induction items app dict rules echoes arbitrary: a rule: walkOutgoingFlags.induct)
  case (1 app dict rules echoes)
  then show ?case by (simp add: sentAVPs_Nil)
next
  case (2 b bs app dict rules echoes)
  have rest: "walkOutgoingFlags bs app dict rules echoes = None"
    using "2.prems"(1) by (auto simp: walkOutgoingFlags.simps split: option.splits)
  show ?case
  proof (cases "a \<in> set (sentAVPs bs echoes)")
    case True
    then show ?thesis using "2.prems"(1) rest "2.IH"(2) by (auto simp: walkOutgoingFlags.simps(2) split: option.splits)
  next
    case False
    then have ne: "\<not> isEchoedProxy b echoes" and a: "a = b \<or> \<not> isFailedAVP b \<and> (\<exists>as. Data b = Some (GroupedAVP as) \<and> a \<in> set (sentAVPs as []))"
      using "2.prems"(2) by (auto simp: sentAVPs_Cons split: if_splits option.splits payload.splits)
    have inv: "\<not> outgoingFlagsInvalid dict app rules b"
      using "2.prems"(1) ne by (auto simp: walkOutgoingFlags.simps split: if_splits)
    from a show ?thesis
    proof
      assume "a = b"
      then show ?thesis using inv by (simp add: outgoingFlagsInvalid_def cleanFlags_def Let_def)
    next
      assume "\<not> isFailedAVP b \<and> (\<exists>as. Data b = Some (GroupedAVP as) \<and> a \<in> set (sentAVPs as []))"
      then obtain as where f: "\<not> isFailedAVP b" and as: "Data b = Some (GroupedAVP as)" "a \<in> set (sentAVPs as [])" by blast
      have "walkOutgoingFlags as app dict (case FindAVP dict app (Code b) (VendorID b) of None \<Rightarrow> [] | Some d \<Rightarrow> dataRule (avpData d)) [] = None"
        using "2.prems"(1) ne inv f as(1) by (simp add: walkOutgoingFlags.simps(2) split: option.splits if_splits)
      then show ?thesis using "2.IH"(1) [OF ne inv f as(1) refl] as(2) by blast
    qed
  qed
qed


section \<open>Result codes\<close>

definition grammarCodes :: "u32 set" where
  "grammarCodes = {InvalidAVPBits, InvalidAVPValue, MissingAVP, AVPNotAllowed, AVPOccursTooManyTimes}"

lemmas codes_defs = excess_def missing_def validateFailedEvidence_def validateVendorApplicationChoice_def wrapChild_def

lemma code_members [simp]:
  "InvalidAVPBits \<in> grammarCodes" "InvalidAVPValue \<in> grammarCodes" "MissingAVP \<in> grammarCodes"
  "AVPNotAllowed \<in> grammarCodes" "AVPOccursTooManyTimes \<in> grammarCodes"
  by (simp_all add: grammarCodes_def)

lemma placeFixed_codes: "placeFixed ordered e a st = Inl err \<Longrightarrow> vResultCode err \<in> grammarCodes"
  by (auto simp: placeFixed_def Let_def codes_defs split: if_splits option.splits)

lemma placeAVP_codes: "placeAVP ordered wildcard app dict echoes a st = Inl err \<Longrightarrow> vResultCode err \<in> grammarCodes"
  by (auto simp: placeAVP_def Let_def codes_defs split: if_splits option.splits sum.splits dest: placeFixed_codes)

lemma evidence_codes:
  "validateFailedEvidence a = Some e \<Longrightarrow> vResultCode e \<in> grammarCodes"
  "validateVendorApplicationChoice a as = Some e \<Longrightarrow> vResultCode e \<in> grammarCodes"
  by (auto simp: codes_defs Let_def split: option.splits payload.splits if_splits)

lemma finalCheck_codes: "finalCheck ordered wildcard app dict st = Some e \<Longrightarrow> vResultCode e \<in> grammarCodes"
  by (auto simp: finalCheck_def codes_defs split: option.splits if_splits)

lemma validate_codes:
  "validateAVPs items rules app dict echoes = Some e \<Longrightarrow> vResultCode e \<in> grammarCodes"
  "validateItems items ordered wildcard app dict echoes st = Inl e \<Longrightarrow> vResultCode e \<in> grammarCodes"
  "validateContents a app dict = Some e \<Longrightarrow> vResultCode e \<in> grammarCodes"
proof (induction items rules app dict echoes and items ordered wildcard app dict echoes st and a app dict
    arbitrary: e and e and e rule: validateAVPs_validateItems_validateContents.induct)
  case (1 items rules app dict echoes)
  then show ?case
    by (auto simp: validateAVPs.simps [of items] Let_def missing_def split: option.splits sum.splits dest: finalCheck_codes)
next
  case (3 a as ordered wildcard app dict echoes st)
  then show ?case
    by (auto simp: validateItems.simps split: sum.splits bool.splits option.splits if_splits dest: placeAVP_codes)
next
  case (4 a app dict)
  then show ?case
    by (auto simp: validateContents.simps [of a] wrapChild_def split: if_splits option.splits payload.splits dest: evidence_codes)
qed simp

lemma walkOutgoing_codes: "walkOutgoingFlags items app dict rules echoes = Some e \<Longrightarrow> vResultCode e \<in> grammarCodes"
proof (induction items app dict rules echoes arbitrary: e rule: walkOutgoingFlags.induct)
  case (2 a as app dict rules echoes)
  then show ?case
    by (auto simp: walkOutgoingFlags.simps(2) outgoingParent_def split: if_splits option.splits payload.splits
        dest: evidence_codes)
qed simp

lemmas grammar_eval = orderedRules_def wildcardRule_def sampleRules_def sampleItems_def simpleRule_def grammarDict_def sample_defs
  FindAVPByName_def FindAVP_def defKey_def avpKey_def validateAVPs.simps validateItems.simps validateContents.simps
  fixedMissing_def finalCheck_def placeAVP_def placeFixed_def byKey_def vInit_def minimumCount_def hasMaximum_def
  ruleApplies_def TrimSpace_def isSpace_def isEchoedProxy_def invalidAVPFlags_def zeroHeader_def DestinationHost_def DestinationRealm_def
  RequestFlag_def ErrorFlag_def RetransmittedFlag_def ProxiableFlag_def blankMessage_def flagListed_def Pbit_def groupRules_def excess_def ProxyInfo_def FailedAVP_def Let_def

section \<open>Properties\<close>

text \<open>C4. The validator is exactly the grammar: for rules that name each AVP once, the one-pass walk with
  its counters and its moving fixed prefix accepts a list of AVPs if and only if the list satisfies
  the declarative grammar, at every level of nesting.\<close>

theorem validator_is_grammar:
  assumes "grammarsDistinct dict app" "rulesDistinct rules app dict"
  shows "validateAVPs items rules app dict echoes = None \<longleftrightarrow> conforms items rules app dict echoes"
  using validateAVPs_conforms [OF assms(1) assms(2) [unfolded rulesDistinct_def]] .

theorem validator_is_grammar_witness:
  "conforms sampleItems sampleRules 0 grammarDict [] \<and> \<not> conforms (rev sampleItems) sampleRules 0 grammarDict []"
proof -
  have d: "grammarsDistinct grammarDict 0" "rulesDistinct sampleRules 0 grammarDict"
    by (simp_all add: grammarsDistinct_def rulesDistinct_def grammar_eval)
  have "validateAVPs sampleItems sampleRules 0 grammarDict [] = None"
    "validateAVPs (rev sampleItems) sampleRules 0 grammarDict [] \<noteq> None"
    by (simp_all add: grammar_eval)
  then show ?thesis
    using validator_is_grammar [OF d, of sampleItems "[]"] validator_is_grammar [OF d, of "rev sampleItems" "[]"] by simp
qed

text \<open>The two readers of flag rules agree: the validator finds a flag in a rule text exactly when the
  dictionary loader accepts the text and has the flag's bit.\<close>

lemma flagListed_is_parseFlags:
  "flagListed list fl \<longleftrightarrow>
     (fl = CHR ''M'' \<or> fl = CHR ''P'' \<or> fl = CHR ''V'') \<and> (\<exists>g. parseFlags list = Some g \<and> g AND flagBit fl \<noteq> 0)"
  using flagItems_parse [of fl 0 "splitComma [] list"] by (auto simp: flagListed_def parseFlags_def)

text \<open>C19. What is sent is clean: a message that passes the outgoing check has no reserved command or AVP
  flag set and the V bit exactly on AVPs with a vendor, at every depth, apart from echoed Proxy-Info
  and the contents of Failed-AVPs.\<close>

theorem outgoing_is_clean:
  assumes "ValidateOutgoing m = None"
  shows "CommandFlags (msgHeader m) AND 0x0f = 0 \<and>
    list_all cleanFlags (sentAVPs (msgAVP m)
      (if CommandFlags (msgHeader m) AND RequestFlag = 0 then echoedProxyInfo m else []))"
proof -
  have "\<not> invalidCommandFlags True (CommandFlags (msgHeader m))"
    and walk: "walkOutgoingFlags (msgAVP m) (ApplicationID (msgHeader m)) (dictionary m)
      (outgoingCommandRules (msgHeader m) (dictionary m))
      (if CommandFlags (msgHeader m) AND RequestFlag = 0 then echoedProxyInfo m else []) = None"
    using assms by (auto simp: ValidateOutgoing_def Message_validate_def Let_def split: if_splits option.splits)
  then have "CommandFlags (msgHeader m) AND 0x0f = 0" by (simp add: invalidCommandFlags_def)
  then show ?thesis using walkOutgoing_clean [OF walk] by (simp add: list_all_iff)
qed

theorem outgoing_is_clean_witness:
  "list_all cleanFlags (sentAVPs (msgAVP sampleAnswer) [])"
proof -
  have "ValidateOutgoing sampleAnswer = None" "CommandFlags (msgHeader sampleAnswer) AND RequestFlag = 0" "echoedProxyInfo sampleAnswer = []"
    by (simp_all add: ValidateOutgoing_def Message_validate_def sampleAnswer_def invalidCommandFlags_def isDestination_def
        validateCommand_def walkOutgoingFlags.simps outgoingFlagsInvalid_def outgoingCommandRules_def FindCommand_def grammar_eval
        Let_def)
  then show ?thesis using outgoing_is_clean [of sampleAnswer] by simp
qed

text \<open>Every rejection carries one of the result codes of RFC 6733 for grammar errors.\<close>

lemma validation_codes:
  assumes "Message_validate m outgoing missingSession = Some e"
  shows "vResultCode e \<in> {InvalidHDRBits, InvalidAVPBits, CommandUnsupported, InvalidAVPValue, MissingAVP, AVPNotAllowed,
    AVPOccursTooManyTimes}"
  using assms validate_codes(1) walkOutgoing_codes unfolding grammarCodes_def
  by (auto simp: Message_validate_def validateCommand_def Let_def split: if_splits option.splits) blast+

end
