(* ===== verification/Negotiation.thy ===== *)
theory Negotiation
  imports Builders Grammar
begin

text \<open>
  What the base messages achieve. An offer is accepted exactly when it has a common application, and
  the accepted list is the common part of the offer; the offer a node derives from its dictionaries is
  sorted and has no duplicates; a CER that was built is understood by the parser; an error answer has
  the header the protocol requires and passes the validation of outgoing messages.
\<close>

section \<open>Common applications\<close>

definition acceptable :: "Snapshot \<Rightarrow> u32 set option \<Rightarrow> u32 \<Rightarrow> avp \<Rightarrow> bool" where
  "acceptable d local kind a \<longleftrightarrow> Code a = kind \<and>
     (case Data a of
        Some (Typ (Unsigned32 i)) \<Rightarrow>
          i \<noteq> 0 \<and> (i = relayID \<or>
            (case local of
               Some ids \<Rightarrow> i \<in> ids \<or> relayID \<in> ids
             | None \<Rightarrow> Snapshot_App d i (Some (appTypeName kind)) \<noteq> None))
      | _ \<Rightarrow> False)"

definition idOf :: "avp \<Rightarrow> u32" where
  "idOf a = (case Data a of Some (Typ (Unsigned32 i)) \<Rightarrow> i | _ \<Rightarrow> 0)"

definition commonIn :: "Snapshot \<Rightarrow> u32 set option \<Rightarrow> u32 \<Rightarrow> avp list \<Rightarrow> u32 list" where
  "commonIn d local kind as = map idOf (filter (acceptable d local kind) as)"

definition commonInGroup :: "Snapshot \<Rightarrow> u32 set option \<Rightarrow> avp \<Rightarrow> u32 list" where
  "commonInGroup d local g =
     map idOf (filter (\<lambda>a. (Code a = AcctApplicationID \<or> Code a = AuthApplicationID) \<and> acceptable d local (Code a) a)
       (members g))"

definition commonIDs :: "Snapshot \<Rightarrow> u32 set option \<Rightarrow> Application \<Rightarrow> u32 list" where
  "commonIDs d local app =
     commonIn d local AcctApplicationID (AcctApplications app) @
     commonIn d local AuthApplicationID (AuthApplications app) @
     concat (map (commonInGroup d local) (VendorSpecificApplications app))"

abbreviation addIDs :: "u32 list \<Rightarrow> Application \<Rightarrow> Application" where
  "addIDs ids app \<equiv> app\<lparr>appIDs := appIDs app @ ids\<rparr>"

lemma validate_ok:
  assumes "acceptable d (advertised app) kind a"
  shows "Application_validate d kind a app = ((None, None), addIDs [idOf a] app)"
  using assms by (auto simp: acceptable_def Application_validate_def idOf_def Let_def split: option.splits payload.splits dtype.splits)

lemma validate_bad:
  assumes "\<not> acceptable d (advertised app) kind a"
  shows "\<exists>e. Application_validate d kind a app = ((Some a, Some e), app)"
  using assms by (auto simp: acceptable_def Application_validate_def Let_def split: option.splits payload.splits dtype.splits)

lemma validateEach_spec:
  "\<exists>failed' err' oneFound'. validateEach d kind as (failed, err, oneFound) app =
     ((failed', err', oneFound'), addIDs (commonIn d (advertised app) kind as) app) \<and>
     oneFound' = (oneFound \<or> commonIn d (advertised app) kind as \<noteq> []) \<and>
     (err \<noteq> None \<or> as \<noteq> [] \<longrightarrow> err' \<noteq> None \<or> oneFound')"
proof (induction as arbitrary: failed err oneFound app)
  case (Cons a as)
  show ?case
  proof (cases "acceptable d (advertised app) kind a")
    case True
    then show ?thesis
      using Cons [of failed err True "addIDs [idOf a] app"]
      by (auto simp: validate_ok chooseErr_def commonIn_def)
  next
    case False
    then obtain e where e: "Application_validate d kind a app = ((Some a, Some e), app)"
      using validate_bad by blast
    show ?thesis
      using Cons [of "fst (chooseErr failed err oneFound (Some a) (Some e))"
          "fst (snd (chooseErr failed err oneFound (Some a) (Some e)))" oneFound app] False
      by (auto simp: e chooseErr_def commonIn_def split: if_splits)
  qed
qed (simp add: commonIn_def)

lemma validateAll_spec:
  "\<exists>failed err. validateAll d kind as role app =
     ((failed, err), addIDs (commonIn d (advertised app) kind as) app) \<and>
     (err = None \<longleftrightarrow> commonIn d (advertised app) kind as \<noteq> [])"
  using validateEach_spec [of d kind as None None False app]
  by (auto simp: validateAll_def commonIn_def)

lemma groupEach_spec:
  "\<exists>v' success'. groupEach d as v success app =
     ((v', success'), addIDs (map idOf (filter (\<lambda>a. (Code a = AcctApplicationID \<or> Code a = AuthApplicationID) \<and>
        acceptable d (advertised app) (Code a) a) as)) app) \<and>
     (success \<or> filter (\<lambda>a. (Code a = AcctApplicationID \<or> Code a = AuthApplicationID) \<and>
        acceptable d (advertised app) (Code a) a) as \<noteq> [] \<longrightarrow> success')"
proof (induction as arbitrary: v success app)
  case (Cons a as)
  consider "Code a \<noteq> AcctApplicationID \<and> Code a \<noteq> AuthApplicationID"
    | "Code a = AcctApplicationID \<or> Code a = AuthApplicationID" "acceptable d (advertised app) (Code a) a"
    | "Code a = AcctApplicationID \<or> Code a = AuthApplicationID" "\<not> acceptable d (advertised app) (Code a) a"
    by blast
  then show ?case
  proof cases
    case 1
    then show ?thesis
      using Cons [of v "success \<or> snd v = None" app] by auto
  next
    case 2
    then show ?thesis
      using Cons [of "(None, None)" True "addIDs [idOf a] app"] by (auto simp: validate_ok)
  next
    case 3
    then obtain e where "Application_validate d (Code a) a app = ((Some a, Some e), app)"
      using validate_bad by blast
    with 3 show ?thesis
      using Cons [of "(Some a, Some e)" success app] by auto
  qed
qed simp

lemma handleGroup_spec:
  "\<exists>failed err. handleGroup d g app = ((failed, err), addIDs (commonInGroup d (advertised app) g) app) \<and>
     (commonInGroup d (advertised app) g \<noteq> [] \<longrightarrow> err = None)"
proof (cases g rule: members.cases)
  case (1 c f l v as)
  then show ?thesis
    using groupEach_spec [of d as "(None, None)" False app]
    by (auto simp: handleGroup_def commonInGroup_def)
qed (auto simp: handleGroup_def commonInGroup_def)

lemma groupsEach_spec:
  assumes "oneFound \<or> err \<noteq> None"
  shows "\<exists>failed' err' oneFound'. groupsEach d gs (failed, err, oneFound) app =
     ((failed', err', oneFound'), addIDs (concat (map (commonInGroup d (advertised app)) gs)) app) \<and>
     (oneFound \<or> concat (map (commonInGroup d (advertised app)) gs) \<noteq> [] \<longrightarrow> oneFound') \<and>
     (oneFound' \<or> err' \<noteq> None)"
  using assms
proof (induction gs arbitrary: failed err oneFound app)
  case (Cons g gs)
  obtain f e where h: "handleGroup d g app = ((f, e), addIDs (commonInGroup d (advertised app) g) app)"
      "commonInGroup d (advertised app) g \<noteq> [] \<longrightarrow> e = None"
    using handleGroup_spec by blast
  obtain failed' err' oneFound' where c: "chooseErr failed err oneFound f e = (failed', err', oneFound')"
    by (cases "chooseErr failed err oneFound f e") auto
  then have "oneFound' \<or> err' \<noteq> None" "oneFound \<longrightarrow> oneFound'" "e = None \<longrightarrow> oneFound'"
    using Cons.prems by (auto simp: chooseErr_def split: if_splits)
  with Cons.IH [of oneFound' err' failed' "addIDs (commonInGroup d (advertised app) g) app"] h c show ?case
    by auto
qed simp

section \<open>The local offer\<close>

text \<open>What \<open>mergeApplications\<close> makes of the declarations of one application: the first one decides type and
  author, all of them add suppliers.\<close>

definition merged :: "LocalApplication list \<Rightarrow> u32 \<Rightarrow> LocalApplication option" where
  "merged apps i =
     (case filter (\<lambda>a. laID a = i) apps of
        [] \<Rightarrow> None
      | first # rest \<Rightarrow>
          if i = 0 then None
          else Some ((firstDeclaration first)\<lparr>laSupportedVendors := concat (map suppliers (first # rest))\<rparr>))"

lemma laID_firstDeclaration [simp]: "laID (firstDeclaration app) = laID app"
  by (simp add: firstDeclaration_def)

lemma firstDeclaration_suppliers [simp]: "laSupportedVendors (firstDeclaration app) = suppliers app"
  by (simp add: firstDeclaration_def)

lemma map_laID_mergeOne:
  "map laID (mergeOne result app) =
     map laID result @ (if laID app = 0 \<or> laID app \<in> laID ` set result then [] else [laID app])"
  by (auto simp: mergeOne_def intro!: map_cong [OF refl])

lemma map_laID_merge:
  "distinct (map laID result) \<Longrightarrow> distinct (map laID (foldl mergeOne result apps)) \<and>
     laID ` set (foldl mergeOne result apps) = laID ` set result \<union> (laID ` set apps - {0})"
proof (induction apps arbitrary: result)
  case (Cons app apps)
  have "laID ` set (mergeOne result app) = laID ` set result \<union> ({laID app} - {0})"
    using arg_cong [OF map_laID_mergeOne [of result app], of set] by (auto split: if_splits)
  with Cons show ?case by (auto simp: map_laID_mergeOne)
qed simp

lemma find_map_same:
  "(\<And>x. key (f x) = key x) \<Longrightarrow> find (\<lambda>x. key x = i) (map f xs) = map_option f (find (\<lambda>x. key x = i) xs)"
  by (induction xs) auto

lemma find_append: "find P (xs @ ys) = (case find P xs of None \<Rightarrow> find P ys | Some x \<Rightarrow> Some x)"
  by (induction xs) auto

lemma find_key_None: "find (\<lambda>x. key x = i) xs = None \<longleftrightarrow> i \<notin> key ` set xs"
  by (auto simp: find_None_iff)

lemma find_mergeOne:
  "find (\<lambda>a. laID a = i) (mergeOne result app) =
     (if laID app \<noteq> i \<or> i = 0 then find (\<lambda>a. laID a = i) result
      else case find (\<lambda>a. laID a = i) result of
          None \<Rightarrow> Some (firstDeclaration app)
        | Some r \<Rightarrow> Some (r\<lparr>laSupportedVendors := laSupportedVendors r @ suppliers app\<rparr>))"
proof (cases "laID app = 0")
  case True
  then show ?thesis by (auto simp: mergeOne_def)
next
  case nonzero: False
  show ?thesis
  proof (cases "find (\<lambda>a. laID a = laID app) result")
    case None
    then have "laID app \<notin> laID ` set result" using find_key_None [of laID "laID app" result] by simp
    then have m: "mergeOne result app = result @ [firstDeclaration app]" using nonzero by (simp add: mergeOne_def)
    show ?thesis unfolding m find_append using nonzero None by (cases "laID app = i") (auto split: option.split)
  next
    case (Some r)
    let ?f = "\<lambda>r. if laID r = laID app then r\<lparr>laSupportedVendors := laSupportedVendors r @ suppliers app\<rparr> else r"
    have "laID app \<in> laID ` set result" using Some find_key_None [of laID "laID app" result] by simp
    then have m: "mergeOne result app = map ?f result" using nonzero by (simp add: mergeOne_def)
    have f: "find (\<lambda>a. laID a = i) (map ?f result) = map_option ?f (find (\<lambda>a. laID a = i) result)"
      by (rule find_map_same) simp
    have k: "find (\<lambda>a. laID a = i) result = Some r' \<Longrightarrow> laID r' = i" for r'
      using find_in by fastforce
    show ?thesis
    proof (cases "laID app = i")
      case True
      then show ?thesis unfolding m f using nonzero Some k [of r] by simp
    next
      case False
      show ?thesis
      proof (cases "find (\<lambda>a. laID a = i) result")
        case (Some r')
        then show ?thesis unfolding m f using k [OF Some] False by simp
      qed (use False in \<open>simp add: m f\<close>)
    qed
  qed
qed

lemma find_merge:
  "i \<noteq> 0 \<Longrightarrow> find (\<lambda>a. laID a = i) (foldl mergeOne result apps) =
     (case find (\<lambda>a. laID a = i) result of
        Some r \<Rightarrow> Some (r\<lparr>laSupportedVendors := laSupportedVendors r @ concat (map suppliers (filter (\<lambda>a. laID a = i) apps))\<rparr>)
      | None \<Rightarrow> merged apps i)"
proof (induction apps arbitrary: result)
  case Nil
  then show ?case by (auto simp: merged_def split: option.splits)
next
  case (Cons app apps)
  then show ?case by (auto simp: find_mergeOne merged_def split: option.splits list.splits)
qed

lemma find_distinct_set:
  "distinct (map key xs) \<Longrightarrow> distinct (map key ys) \<Longrightarrow> set xs = set ys \<Longrightarrow>
   find (\<lambda>x. key x = i) xs = find (\<lambda>x. key x = i) ys"
proof (cases "find (\<lambda>x. key x = i) xs")
  case None
  assume "set xs = set ys"
  with None show ?thesis using find_key_None [of key i xs] find_key_None [of key i ys] by simp
next
  case (Some x)
  assume *: "distinct (map key ys)" "set xs = set ys"
  from Some have x: "x \<in> set xs" "key x = i" by (auto simp: find_Some_iff)
  with * obtain y where y: "find (\<lambda>x. key x = i) ys = Some y"
    using find_key_None [of key i ys] by (cases "find (\<lambda>x. key x = i) ys") auto
  then have "y \<in> set ys" "key y = i" by (auto simp: find_Some_iff)
  then have "x = y" using x * by (auto simp: distinct_map inj_on_def)
  with Some y show ?thesis by simp
qed

lemma merge_distinct: "distinct (map laID (foldl mergeOne [] apps))"
  using map_laID_merge [of "[]" apps] by simp

lemma mergeApplications_sorted: "sorted (map laID (mergeApplications apps))" "distinct (map laID (mergeApplications apps))"
proof -
  show "sorted (map laID (mergeApplications apps))" by (simp add: mergeApplications_def)
  show "distinct (map laID (mergeApplications apps))"
    using merge_distinct [of apps] by (simp add: mergeApplications_def distinct_map)
qed

lemma find_mergeApplications: "find (\<lambda>a. laID a = i) (mergeApplications apps) = merged apps i"
proof (cases "i = 0")
  case True
  have "0 \<notin> laID ` set (foldl mergeOne [] apps)"
    using map_laID_merge [of "[]" apps] by auto
  then have "find (\<lambda>a. laID a = 0) (mergeApplications apps) = None"
    by (simp only: find_key_None) (simp add: mergeApplications_def)
  with True show ?thesis by (simp add: merged_def split: list.splits)
next
  case False
  have "find (\<lambda>a. laID a = i) (mergeApplications apps) = find (\<lambda>a. laID a = i) (foldl mergeOne [] apps)"
    by (rule find_distinct_set [OF mergeApplications_sorted(2) merge_distinct]) (simp add: mergeApplications_def)
  with False show ?thesis by (simp add: find_merge)
qed

lemma set_mergeApplications: "laID ` set (mergeApplications apps) = laID ` set apps - {0}"
  using map_laID_merge [of "[]" apps] by (simp add: mergeApplications_def)

section \<open>Built messages\<close>

lemma NewAVP_fields [simp]:
  "Code (NewAVP code flags vendor p) = code" "VendorID (NewAVP code flags vendor p) = vendor"
  "Data (NewAVP code flags vendor p) = Some p"
  by (simp_all add: NewAVP_def newAVPWithFlags_def Let_def)

text \<open>What the builders keep of a message while they add AVPs to it.\<close>

definition sameEnvelope :: "Message \<Rightarrow> Message \<Rightarrow> bool" where
  "sameEnvelope m m' \<longleftrightarrow> dictionary m' = dictionary m \<and> echoedProxyInfo m' = echoedProxyInfo m \<and>
     (\<exists>l. msgHeader m' = (msgHeader m)\<lparr>MessageLength := l\<rparr>)"

lemma sameEnvelope_refl [simp]: "sameEnvelope m m"
  by (auto simp: sameEnvelope_def intro: exI [of _ "MessageLength (msgHeader m)"])

lemma sameEnvelope_trans: "sameEnvelope a b \<Longrightarrow> sameEnvelope b c \<Longrightarrow> sameEnvelope a c"
  by (auto simp: sameEnvelope_def)

lemma sameEnvelope_add [simp]: "sameEnvelope m (Message_AddAVP m a)" "sameEnvelope m (Message_InsertAVP m a)"
  by (auto simp: sameEnvelope_def Message_AddAVP_def Message_InsertAVP_def addLength_def)

lemma msgAVP_add [simp]:
  "msgAVP (Message_AddAVP m a) = msgAVP m @ [a]" "msgAVP (Message_InsertAVP m a) = a # msgAVP m"
  by (simp_all add: Message_AddAVP_def Message_InsertAVP_def addLength_def)

definition fieldAVP :: "field \<Rightarrow> avp" where
  "fieldAVP f = NewAVP (fst f) (fst (snd f)) 0 (snd (snd f))"

text \<open>Adding AVPs appends them, keeps the envelope and counts their length.\<close>

definition extended :: "Message \<Rightarrow> avp list \<Rightarrow> Message \<Rightarrow> bool" where
  "extended m as m' \<longleftrightarrow> msgAVP m' = msgAVP m @ as \<and> sameEnvelope m m' \<and> (lengthOk m \<longrightarrow> lengthOk m')"

lemma extended_trans: "extended a as b \<Longrightarrow> extended b bs c \<Longrightarrow> extended a (as @ bs) c"
  by (auto simp: extended_def intro: sameEnvelope_trans)

lemma extended_add: "extended m [a] (Message_AddAVP m a)"
  by (simp add: extended_def lengthOk_add)

lemma extended_addAll: "extended m as (foldl Message_AddAVP m as)"
proof (induction as arbitrary: m)
  case (Cons a as)
  then show ?case using extended_trans [OF extended_add [of m a] Cons] by simp
qed (simp add: extended_def)

lemma addFields_extended: "addFields m fs = Inr m' \<Longrightarrow> extended m (map fieldAVP fs) m'"
proof (induction m fs rule: addFields.induct)
  case (2 m code flags p fs)
  then obtain a m1 where n: "Message_NewAVP m code flags 0 p = Inr (a, m1)" and r: "addFields m1 fs = Inr m'"
    by (auto split: sum.splits)
  have m1: "m1 = Message_AddAVP m (fieldAVP (code, flags, p))"
    using n by (auto simp: Message_NewAVP_def Let_def fieldAVP_def split: option.splits)
  have "extended m1 (map fieldAVP fs) m'"
    using 2 n r by auto
  then show ?case
    using extended_trans [OF extended_add] unfolding m1 by fastforce
qed (simp add: extended_def)

lemma sbind_Inr: "sbind r f = Inr y \<longleftrightarrow> (\<exists>x. r = Inr x \<and> f x = Inr y)"
  by (auto simp: sbind_def split: sum.splits)

definition vendorAVPs :: "Settings \<Rightarrow> avp list" where
  "vendorAVPs cfg = (case cfgSupportedVendorID cfg of
     Some as \<Rightarrow> as
   | None \<Rightarrow> map (u32AVP SupportedVendorIDCode) (sorted_list_of_set (inferredVendors cfg (advertisedApplications cfg))))"

definition offerAVPs :: "Settings \<Rightarrow> avp list" where
  "offerAVPs cfg =
     (if explicitApplications cfg
      then listOf (cfgAuthApplicationID cfg) @ listOf (cfgAcctApplicationID cfg) @ listOf (cfgVendorSpecificApplicationID cfg)
      else map applicationAVP (advertisedApplications cfg))"

lemma BuildCER_extended:
  assumes "BuildCER dict cfg r1 r2 = Inr m"
  shows "\<exists>addresses. capabilityAddresses cfg = Inr addresses \<and>
    extended (NewRequest CapabilitiesExchange 0 dict r1 r2)
      (map fieldAVP (originFields cfg @ addressFields addresses @ productFields cfg @
         u32Field OriginStateIDCode Mbit (cfgOriginStateID cfg)) @ vendorAVPs cfg @
       map fieldAVP (u32Field InbandSecurityIDCode Mbit (cfgInbandSecurityID cfg)) @ offerAVPs cfg @
       map fieldAVP (u32Field FirmwareRevisionCode 0 (cfgFirmwareRevision cfg))) m"
proof -
  obtain addresses m1 m2 where a: "capabilityAddresses cfg = Inr addresses"
    and m1: "addFields (NewRequest CapabilitiesExchange 0 dict r1 r2)
        (originFields cfg @ addressFields addresses @ productFields cfg @ u32Field OriginStateIDCode Mbit (cfgOriginStateID cfg)) = Inr m1"
    and m2: "addFields (addSupportedVendors m1 cfg (advertisedApplications cfg))
        (u32Field InbandSecurityIDCode Mbit (cfgInbandSecurityID cfg)) = Inr m2"
    and m3: "addFields (addApplications m2 cfg (advertisedApplications cfg))
        (u32Field FirmwareRevisionCode 0 (cfgFirmwareRevision cfg)) = Inr m"
    using assms by (auto simp: BuildCER_def sbind_Inr Let_def)
  have v: "extended m1 (vendorAVPs cfg) (addSupportedVendors m1 cfg (advertisedApplications cfg))"
    unfolding addSupportedVendors_def vendorAVPs_def by (rule extended_addAll)
  have o: "extended m2 (offerAVPs cfg) (addApplications m2 cfg (advertisedApplications cfg))"
    unfolding addApplications_def offerAVPs_def by (rule extended_addAll)
  show ?thesis
    using a extended_trans [OF addFields_extended [OF m1] extended_trans [OF v extended_trans
      [OF addFields_extended [OF m2] extended_trans [OF o addFields_extended [OF m3]]]]] by blast
qed

section \<open>A CER on the other side\<close>

text \<open>What the parser needs of a dictionary: the names of the capability AVPs resolve to their codes and types,
  and CER is not proxiable.\<close>

definition capabilityNames :: "(string \<times> u32 \<times> TypeID) list" where
  "capabilityNames =
     [(''Host-IP-Address'', HostIPAddressCode, AddressType), (''Origin-Host'', OriginHostCode, DiameterIdentityType),
      (''Origin-Realm'', OriginRealmCode, DiameterIdentityType), (''Origin-State-Id'', OriginStateIDCode, Unsigned32Type),
      (''Inband-Security-Id'', InbandSecurityIDCode, Unsigned32Type), (''Acct-Application-Id'', AcctApplicationID, Unsigned32Type),
      (''Auth-Application-Id'', AuthApplicationID, Unsigned32Type),
      (''Vendor-Specific-Application-Id'', VendorSpecificApplicationID, GroupedType)]"

definition resolves :: "Snapshot \<Rightarrow> string \<times> u32 \<times> TypeID \<Rightarrow> bool" where
  "resolves dict = (\<lambda>(n, c, t).
     case FindAVPByName dict 0 n of
       None \<Rightarrow> False
     | Some d \<Rightarrow> avpCode d = c \<and> avpVendorID d = 0 \<and> dataType (avpData d) = t)"

definition baseDictionary :: "Snapshot \<Rightarrow> bool" where
  "baseDictionary dict \<longleftrightarrow> list_all (resolves dict) capabilityNames \<and>
     (case FindCommand dict 0 CapabilitiesExchange of
        None \<Rightarrow> True
      | Some c \<Rightarrow> Proxiable (cmdRequest c) \<noteq> Some True)"

definition sel :: "u32 \<Rightarrow> avp list \<Rightarrow> avp list" where
  "sel c as = filter (\<lambda>a. Code a = c \<and> VendorID a = 0) as"

lemma sel_simps [simp]: "sel c [] = []" "sel c (as @ bs) = sel c as @ sel c bs"
  "sel c (a # as) = (if Code a = c \<and> VendorID a = 0 then a # sel c as else sel c as)"
  by (simp_all add: sel_def)

lemma scanStruct_step:
  assumes "resolves (dictionary m) (n, c, t)" "ApplicationID (msgHeader m) = 0"
  shows "scanStruct m ((n, f) # fs) r =
    (if sel c (msgAVP m) = [] then scanStruct m fs r
     else case f t (sel c (msgAVP m)) r of Inl e \<Rightarrow> Inl e | Inr r \<Rightarrow> scanStruct m fs r)"
  using assms by (auto simp: resolves_def sel_def split: option.splits list.splits)

lemmas code_defs = HostIPAddressCode_def SessionIDCode_def OriginHostCode_def SupportedVendorIDCode_def VendorIDCode_def
  FirmwareRevisionCode_def ProductNameCode_def DisconnectCauseCode_def OriginStateIDCode_def OriginRealmCode_def
  InbandSecurityIDCode_def AuthApplicationID_def AcctApplicationID_def VendorSpecificApplicationID_def

lemma field_Code [simp]: "Code (fieldAVP f) = fst f" "VendorID (fieldAVP f) = 0" "Data (fieldAVP f) = Some (snd (snd f))"
  by (simp_all add: fieldAVP_def)

lemma u32AVP_simps [simp]: "Code (u32AVP c v) = c" "VendorID (u32AVP c v) = 0" "Data (u32AVP c v) = Some (Typ (Unsigned32 v))"
  by (simp_all add: u32AVP_def)

lemma sel_addresses: "sel c (map fieldAVP (addressFields as)) = (if c = HostIPAddressCode then map fieldAVP (addressFields as) else [])"
  by (induction as) (auto simp: addressFields_def)

lemma sel_u32AVPs: "sel c (map (u32AVP k) vs) = (if c = k then map (u32AVP k) vs else [])"
  by (induction vs) auto

lemma sel_u32Field: "sel c (map fieldAVP (u32Field k fl v)) = (if c = k then map fieldAVP (u32Field k fl v) else [])"
  by (simp add: u32Field_def)

lemma applicationAVP_Code: "Code (applicationAVP app) \<in> {AuthApplicationID, AcctApplicationID, VendorSpecificApplicationID}"
  "VendorID (applicationAVP app) = 0"
  by (auto simp: applicationAVP_def Let_def)

lemma sel_offers:
  "c \<notin> {AuthApplicationID, AcctApplicationID, VendorSpecificApplicationID} \<Longrightarrow> sel c (map applicationAVP apps) = []"
  using applicationAVP_Code by (fastforce simp: sel_def filter_empty_conv)

lemmas sel_parts = sel_addresses sel_u32AVPs sel_u32Field sel_offers originFields_def productFields_def

lemma addresses_valid:
  "addFields m (fs @ addressFields as @ gs) = Inr m' \<Longrightarrow> \<forall>a \<in> set as. Address_Valid a = None"
proof (induction fs arbitrary: m)
  case Nil
  then show ?case
    by (induction as arbitrary: m) (auto simp: addressFields_def Message_NewAVP_def Let_def split: option.splits)
next
  case (Cons f fs)
  then show ?case by (cases f) (auto split: sum.splits)
qed

lemma unmarshal_addresses:
  "\<forall>a \<in> set as. Address_Valid a = None \<Longrightarrow> unmarshalAddresses (map fieldAVP (addressFields as)) = Inr as"
  by (induction as) (auto simp: addressFields_def)

definition okID :: "u32 set \<Rightarrow> u32 \<Rightarrow> bool" where
  "okID ids i \<longleftrightarrow> i \<noteq> 0 \<and> (i = relayID \<or> i \<in> ids \<or> relayID \<in> ids)"

lemma acceptable_u32AVP: "acceptable d (Some ids) k (u32AVP c v) \<longleftrightarrow> c = k \<and> okID ids v"
  by (auto simp: acceptable_def okID_def)

definition grouped :: "LocalApplication \<Rightarrow> bool" where
  "grouped app \<longleftrightarrow> IsVendorSpecificApplication (laID app) \<and> laVendor app \<noteq> 0"

definition kindOf :: "LocalApplication \<Rightarrow> u32" where
  "kindOf app = (if laType app = ''acct'' then AcctApplicationID else AuthApplicationID)"

lemma applicationAVP_cases:
  "\<not> grouped app \<Longrightarrow> applicationAVP app = u32AVP (kindOf app) (laID app)"
  "grouped app \<Longrightarrow> applicationAVP app =
     NewAVP VendorSpecificApplicationID Mbit 0 (GroupedAVP [u32AVP VendorIDCode (laVendor app), u32AVP (kindOf app) (laID app)])"
  by (auto simp: applicationAVP_def grouped_def kindOf_def Let_def)

lemma kindOf_cases: "kindOf app = AcctApplicationID \<or> kindOf app = AuthApplicationID"
  by (simp add: kindOf_def)

lemma commonIn_Cons: "commonIn d l k (a # as) = (if acceptable d l k a then [idOf a] else []) @ commonIn d l k as"
  by (simp add: commonIn_def)

lemma idOf_u32AVP [simp]: "idOf (u32AVP c v) = v"
  by (simp add: idOf_def)

lemma commonIn_offers:
  assumes "k = AcctApplicationID \<or> k = AuthApplicationID"
  shows "set (commonIn d (Some ids) k (sel k (map applicationAVP apps))) =
    {laID app | app. app \<in> set apps \<and> \<not> grouped app \<and> kindOf app = k \<and> okID ids (laID app)}"
proof (induction apps)
  case (Cons app apps)
  have "Code (applicationAVP app) = k \<longleftrightarrow> \<not> grouped app \<and> kindOf app = k"
    using assms by (cases "grouped app") (auto simp: applicationAVP_cases code_defs)
  then show ?case using Cons
    by (cases "grouped app") (auto simp: commonIn_Cons applicationAVP_cases acceptable_u32AVP)
qed (simp add: commonIn_def)

lemma commonInGroups_offers:
  "set (concat (map (commonInGroup d (Some ids)) (sel VendorSpecificApplicationID (map applicationAVP apps)))) =
    {laID app | app. app \<in> set apps \<and> grouped app \<and> okID ids (laID app)}"
proof (induction apps)
  case (Cons app apps)
  have "Code (applicationAVP app) = VendorSpecificApplicationID \<longleftrightarrow> grouped app"
    using kindOf_cases [of app] by (cases "grouped app") (auto simp: applicationAVP_cases code_defs)
  moreover have "grouped app \<Longrightarrow> set (commonInGroup d (Some ids) (applicationAVP app)) = (if okID ids (laID app) then {laID app} else {})"
    using kindOf_cases [of app]
    by (auto simp: applicationAVP_cases commonInGroup_def NewAVP_def newAVPWithFlags_def Let_def acceptable_u32AVP idOf_def code_defs)
  ultimately show ?case using Cons by (auto simp: applicationAVP_Code)
qed simp

lemma common_offers:
  "set (commonIDs d (Some ids) (offeredApplications (sel AcctApplicationID (map applicationAVP apps))
      (sel AuthApplicationID (map applicationAVP apps)) (sel VendorSpecificApplicationID (map applicationAVP apps)))) =
    {i \<in> laID ` set apps. okID ids i}"
  unfolding commonIDs_def offeredApplications_def using kindOf_cases
  by (auto simp del: set_concat simp add: commonIn_offers commonInGroups_offers)

lemma capability_names:
  assumes "baseDictionary dict"
  shows "resolves dict (''Host-IP-Address'', HostIPAddressCode, AddressType)"
    "resolves dict (''Origin-Host'', OriginHostCode, DiameterIdentityType)"
    "resolves dict (''Origin-Realm'', OriginRealmCode, DiameterIdentityType)"
    "resolves dict (''Origin-State-Id'', OriginStateIDCode, Unsigned32Type)"
    "resolves dict (''Inband-Security-Id'', InbandSecurityIDCode, Unsigned32Type)"
    "resolves dict (''Acct-Application-Id'', AcctApplicationID, Unsigned32Type)"
    "resolves dict (''Auth-Application-Id'', AuthApplicationID, Unsigned32Type)"
    "resolves dict (''Vendor-Specific-Application-Id'', VendorSpecificApplicationID, GroupedType)"
  using assms by (simp_all add: baseDictionary_def capabilityNames_def)

lemma NewRequest_fields:
  "msgAVP (NewRequest cmd app dict r1 r2) = []" "dictionary (NewRequest cmd app dict r1 r2) = dict"
  "ApplicationID (msgHeader (NewRequest cmd app dict r1 r2)) = app"
  "CommandCode (msgHeader (NewRequest cmd app dict r1 r2)) = cmd"
  by (simp_all add: NewRequest_def NewMessage_def Let_def split: option.splits)

definition inferred :: "Settings \<Rightarrow> bool" where
  "inferred cfg \<longleftrightarrow> \<not> explicitApplications cfg \<and> cfgSupportedVendorID cfg = None"

lemma BuildCER_sel:
  assumes "BuildCER dict cfg r1 r2 = Inr m" "inferred cfg"
  shows "\<exists>addresses. capabilityAddresses cfg = Inr addresses \<and>
    sel HostIPAddressCode (msgAVP m) = map fieldAVP (addressFields addresses) \<and>
    sel OriginHostCode (msgAVP m) = [fieldAVP (OriginHostCode, Mbit, Typ (DiameterIdentity (cfgOriginHost cfg)))] \<and>
    sel OriginRealmCode (msgAVP m) = [fieldAVP (OriginRealmCode, Mbit, Typ (DiameterIdentity (cfgOriginRealm cfg)))] \<and>
    sel InbandSecurityIDCode (msgAVP m) = map fieldAVP (u32Field InbandSecurityIDCode Mbit (cfgInbandSecurityID cfg)) \<and>
    (\<forall>c \<in> {AuthApplicationID, AcctApplicationID, VendorSpecificApplicationID}.
       sel c (msgAVP m) = sel c (map applicationAVP (advertisedApplications cfg)))"
proof -
  have *: "c \<noteq> k \<Longrightarrow> sel c (map fieldAVP (u32Field k fl v)) = []" "c \<noteq> k \<Longrightarrow> sel c (map (u32AVP k) vs) = []"
    "c \<noteq> HostIPAddressCode \<Longrightarrow> sel c (map fieldAVP (addressFields as)) = []" for c k fl v vs as
    by (simp_all add: sel_parts)
  obtain addresses where a: "capabilityAddresses cfg = Inr addresses"
    and e: "msgAVP m = map fieldAVP (originFields cfg @ addressFields addresses @ productFields cfg @
         u32Field OriginStateIDCode Mbit (cfgOriginStateID cfg)) @
       map (u32AVP SupportedVendorIDCode) (sorted_list_of_set (inferredVendors cfg (advertisedApplications cfg))) @
       map fieldAVP (u32Field InbandSecurityIDCode Mbit (cfgInbandSecurityID cfg)) @
       map applicationAVP (advertisedApplications cfg) @
       map fieldAVP (u32Field FirmwareRevisionCode 0 (cfgFirmwareRevision cfg))"
    using BuildCER_extended [OF assms(1)] assms(2)
    by (auto simp: extended_def NewRequest_fields vendorAVPs_def offerAVPs_def inferred_def)
  show ?thesis
    unfolding e using a
    by (intro exI [of _ addresses]) (simp add: * sel_parts code_defs)
qed

lemma extended_header:
  assumes "extended (NewRequest cmd 0 dict r1 r2) as m"
  shows "dictionary m = dict" "ApplicationID (msgHeader m) = 0" "CommandCode (msgHeader m) = cmd"
    "CommandFlags (msgHeader m) = CommandFlags (msgHeader (NewRequest cmd 0 dict r1 r2))"
  using assms by (auto simp: extended_def sameEnvelope_def NewRequest_fields)

lemma BuildCER_header:
  assumes "BuildCER dict cfg r1 r2 = Inr m" "baseDictionary dict"
  shows "dictionary m = dict" "ApplicationID (msgHeader m) = 0" "ValidateHeader m = None"
proof -
  obtain as where e: "extended (NewRequest CapabilitiesExchange 0 dict r1 r2) as m"
    using BuildCER_extended [OF assms(1)] by blast
  have "CommandFlags (msgHeader (NewRequest CapabilitiesExchange 0 dict r1 r2)) = RequestFlag"
    using assms(2) by (auto simp: baseDictionary_def NewRequest_def NewMessage_def Let_def split: option.splits)
  then show "dictionary m = dict" "ApplicationID (msgHeader m) = 0" "ValidateHeader m = None"
    using extended_header [OF e]
    by (simp_all add: ValidateHeader_def Let_def RequestFlag_def ProxiableFlag_def ErrorFlag_def)
qed

lemma sel_Data: "a \<in> set as \<Longrightarrow> Code a = c \<Longrightarrow> VendorID a = 0 \<Longrightarrow> a \<in> set (sel c as)"
  by (simp add: sel_def)

lemma securityScan_sel:
  "securityScan tls as offered common =
     securityScan tls (sel InbandSecurityIDCode as) offered common"
  by (induction as arbitrary: offered common) (auto simp: isInbandSecurityID_def split: option.splits payload.splits dtype.splits)

lemma BuildCER_unmarshal:
  assumes "BuildCER dict cfg r1 r2 = Inr m" "inferred cfg" "baseDictionary dict"
  defines "offers \<equiv> map applicationAVP (advertisedApplications cfg)"
  shows "\<exists>cer. CER_Unmarshal m = Inr cer \<and> cerOriginHost cer = cfgOriginHost cfg \<and> cerOriginRealm cer = cfgOriginRealm cfg \<and>
    capabilityAddresses cfg = Inr (cerHostIPAddresses cer) \<and>
    cerAcctApplicationID cer = sel AcctApplicationID offers \<and> cerAuthApplicationID cer = sel AuthApplicationID offers \<and>
    cerVendorSpecificApplicationID cer = sel VendorSpecificApplicationID offers"
proof -
  note h = BuildCER_header [OF assms(1,3)]
  obtain addresses where a: "capabilityAddresses cfg = Inr addresses"
    and s: "sel HostIPAddressCode (msgAVP m) = map fieldAVP (addressFields addresses)"
    "sel OriginHostCode (msgAVP m) = [fieldAVP (OriginHostCode, Mbit, Typ (DiameterIdentity (cfgOriginHost cfg)))]"
    "sel OriginRealmCode (msgAVP m) = [fieldAVP (OriginRealmCode, Mbit, Typ (DiameterIdentity (cfgOriginRealm cfg)))]"
    and o: "\<forall>c \<in> {AuthApplicationID, AcctApplicationID, VendorSpecificApplicationID}. sel c (msgAVP m) = sel c offers"
    using BuildCER_sel [OF assms(1,2)] unfolding offers_def by blast
  have valid: "\<forall>a \<in> set addresses. Address_Valid a = None"
    using assms(1) a addresses_valid [of _ "originFields cfg" addresses] by (auto simp: BuildCER_def sbind_Inr Let_def)
  have ne: "addresses \<noteq> []"
    using a by (auto simp: capabilityAddresses_def split: option.splits sum.splits if_splits)
  note steps = capability_names [OF assms(3), folded h(1), THEN scanStruct_step, OF h(2)]
  show ?thesis
    using a ne o valid unmarshal_addresses [OF valid]
    by (auto simp del: scanStruct.simps(2) simp add: CER_Unmarshal_def steps s scalarField_def rawField_def rawList_def
        addressField_def isAddress_def stringOf_def addressFields_def zeroCER_def)
qed

lemma BuildCER_security:
  assumes "BuildCER dict cfg r1 r2 = Inr m" "inferred cfg"
    "cfgInbandSecurityID cfg = 0 \<or> cfgInbandSecurityID cfg = 1 \<and> tls"
  shows "find rawHostIPAddress (msgAVP m) = None"
    "\<exists>offered common. securityScan tls (msgAVP m) False False = Inr (offered, common) \<and> (offered \<longrightarrow> common)"
proof -
  obtain addresses where s: "sel HostIPAddressCode (msgAVP m) = map fieldAVP (addressFields addresses)"
    "sel InbandSecurityIDCode (msgAVP m) = map fieldAVP (u32Field InbandSecurityIDCode Mbit (cfgInbandSecurityID cfg))"
    using BuildCER_sel [OF assms(1,2)] by blast
  have "\<not> rawHostIPAddress a" if "a \<in> set (msgAVP m)" for a
  proof
    assume raw: "rawHostIPAddress a"
    then have "a \<in> set (map fieldAVP (addressFields addresses))"
      using sel_Data [OF that] s(1) by (simp add: rawHostIPAddress_def)
    with raw show False by (auto simp: addressFields_def rawHostIPAddress_def)
  qed
  then show "find rawHostIPAddress (msgAVP m) = None" by (simp add: find_None_iff)
  show "\<exists>offered common. securityScan tls (msgAVP m) False False = Inr (offered, common) \<and> (offered \<longrightarrow> common)"
    using assms(3) by (subst securityScan_sel) (auto simp: s(2) u32Field_def isInbandSecurityID_def)
qed

lemma negotiation_spec:
  assumes "appIDs app = []"
  shows "\<exists>failed err. ParseWithApplicationIDs d role localIDs app =
     ((failed, err), app\<lparr>advertised := map_option set localIDs, appIDs := commonIDs d (map_option set localIDs) app\<rparr>) \<and>
     (err = None \<longleftrightarrow> commonIDs d (map_option set localIDs) app \<noteq> [])"
proof -
  let ?l = "map_option set localIDs" and ?app = "app\<lparr>advertised := map_option set localIDs\<rparr>"
  obtain f1 e1 where v1: "validateAll d AcctApplicationID (AcctApplications app) role ?app =
      ((f1, e1), addIDs (commonIn d ?l AcctApplicationID (AcctApplications app)) ?app)"
      "e1 = None \<longleftrightarrow> commonIn d ?l AcctApplicationID (AcctApplications app) \<noteq> []"
    using validateAll_spec [of d AcctApplicationID "AcctApplications app" role ?app] by auto
  let ?app1 = "addIDs (commonIn d ?l AcctApplicationID (AcctApplications app)) ?app"
  obtain f2 e2 where v2: "validateAll d AuthApplicationID (AuthApplications ?app1) role ?app1 =
      ((f2, e2), addIDs (commonIn d ?l AuthApplicationID (AuthApplications app)) ?app1)"
      "e2 = None \<longleftrightarrow> commonIn d ?l AuthApplicationID (AuthApplications app) \<noteq> []"
    using validateAll_spec [of d AuthApplicationID "AuthApplications ?app1" role ?app1] by auto
  let ?app2 = "addIDs (commonIn d ?l AuthApplicationID (AuthApplications app)) ?app1"
  obtain f3 e3 o3 where c: "chooseErr f1 e1 (e1 = None) f2 e2 = (f3, e3, o3)"
      "o3 \<or> e3 \<noteq> None" "e1 = None \<or> e2 = None \<longrightarrow> o3"
    by (cases "chooseErr f1 e1 (e1 = None) f2 e2") (auto simp: chooseErr_def split: if_splits)
  obtain f4 e4 o4 where g: "groupsEach d (VendorSpecificApplications app) (f3, e3, o3) ?app2 =
      ((f4, e4, o4), addIDs (concat (map (commonInGroup d ?l) (VendorSpecificApplications app))) ?app2)"
      "o3 \<or> concat (map (commonInGroup d ?l) (VendorSpecificApplications app)) \<noteq> [] \<longrightarrow> o4" "o4 \<or> e4 \<noteq> None"
    using groupsEach_spec [OF c(2), of d "VendorSpecificApplications app" f3 ?app2] by auto
  have "commonIDs d ?l app \<noteq> [] \<longrightarrow> o4"
    using v1(2) v2(2) c(3) g(2) by (simp add: commonIDs_def del: concat_eq_Nil_conv) blast
  then show ?thesis
    using v1(1) v2(1) c(1) g(1,3) assms
    by (auto simp: ParseWithApplicationIDs_def commonIDs_def)
qed

lemma strict_remdups_adj: "sorted xs \<Longrightarrow> sorted_wrt (<) (remdups_adj (xs :: 'a::linorder list))"
  by (induction xs rule: remdups_adj.induct) auto

lemma sort_ids: "set (AdvertisedApplicationIDs cfg) = laID ` set (advertisedApplications cfg)"
  by (simp add: AdvertisedApplicationIDs_def)

section \<open>Properties\<close>

text \<open>A dictionary and settings for the examples: an authentication application and a vendor-specific one.\<close>

definition capabilityDict :: Snapshot where
  "capabilityDict = emptySnapshot\<lparr>
     avpcode := map (\<lambda>(n, c, t). ((0, c, 0), sampleDef n c t)) capabilityNames,
     avpname := map (\<lambda>(n, c, t). ((0, n), sampleDef n c t)) capabilityNames\<rparr>"

definition sampleSettings :: Settings where
  "sampleSettings = \<lparr>cfgOriginHost = [97], cfgOriginRealm = [98], cfgVendorID = 10415, cfgProductName = [112],
     cfgOriginStateID = 7, cfgFirmwareRevision = 0, cfgHostIPAddresses = [\<lparr>Family = 1, Value = [10, 0, 0, 1]\<rparr>],
     cfgResolveHostIPAddresses = None, cfgSupportedVendorID = None, cfgAcctApplicationID = None,
     cfgAuthApplicationID = None, cfgVendorSpecificApplicationID = None, cfgInbandSecurityID = 0,
     cfgApplications = [\<lparr>laID = 16777251, laType = ''auth'', laVendor = 10415, laSupportedVendors = []\<rparr>,
                        \<lparr>laID = 4, laType = [], laVendor = 0, laSupportedVendors = [9]\<rparr>]\<rparr>"

definition sampleOptions :: ParseOptions where
  "sampleOptions = \<lparr>optRole = Server, optTLS = False, optDictionary = None,
     optLocalApplications = Some (AdvertisedApplicationIDs sampleSettings)\<rparr>"

lemma capabilityDict_base: "baseDictionary capabilityDict"
  by (simp add: baseDictionary_def capabilityDict_def emptySnapshot_def FindCommand_def capabilityNames_def resolves_def
      FindAVPByName_def lookupAVP_def sampleDef_def sampleData_def Let_def code_defs)

text \<open>C15. An offer is accepted exactly when it has an application in common, and the list of accepted
  applications is the common part of the offer: first the accounting, then the authentication
  applications, then those of the vendor-specific groups.\<close>

theorem common_applications:
  assumes "appIDs app = []"
  shows "let r = ParseWithApplicationIDs d role localIDs app; common = commonIDs d (map_option set localIDs) app
    in appIDs (snd r) = common \<and> (snd (fst r) = None \<longleftrightarrow> common \<noteq> [])"
  using negotiation_spec [OF assms, of d role localIDs] by auto

theorem common_applications_witness:
  "appIDs (snd (ParseWithApplicationIDs emptySnapshot Server (Some [4, 5])
     (offeredApplications [] [u32AVP AuthApplicationID 3, u32AVP AuthApplicationID 4] []))) = [4]"
  using common_applications [of "offeredApplications [] [u32AVP AuthApplicationID 3, u32AVP AuthApplicationID 4] []"
      emptySnapshot Server "Some [4, 5]"]
  by (simp add: offeredApplications_def Let_def commonIDs_def commonIn_def acceptable_u32AVP okID_def relayID_def)


lemma sampleSettings_ids: "inferred sampleSettings" "set (AdvertisedApplicationIDs sampleSettings) = {4, 16777251}"
  unfolding sort_ids
  by (simp_all add: inferred_def explicitApplications_def advertisedApplications_def set_mergeApplications sampleSettings_def
      insert_commute)

lemma BuildCER_sample: "\<exists>m. BuildCER capabilityDict sampleSettings 1 2 = Inr m"
  by (simp add: BuildCER_def sbind_Inr capabilityAddresses_def sampleSettings_def Let_def originFields_def addressFields_def
      productFields_def u32Field_def Message_NewAVP_def Address_Valid_def family_defs)


text \<open>The offer derived from the loaded dictionaries: the merged applications are those declared with a
  nonzero identifier, sorted and each once; for each of them the first declaration decides type and
  author and every declaration contributes its suppliers. The advertised identifiers are sorted
  without repetition.\<close>

lemma derived_offer:
  "sorted_wrt (<) (map laID (mergeApplications apps)) \<and> laID ` set (mergeApplications apps) = laID ` set apps - {0} \<and>
   find (\<lambda>a. laID a = i) (mergeApplications apps) = merged apps i \<and>
   sorted_wrt (<) (AdvertisedApplicationIDs cfg) \<and>
   set (AdvertisedApplicationIDs cfg) = laID ` set (advertisedApplications cfg)"
proof -
  have "sorted_wrt (<) (map laID (mergeApplications apps))"
    using mergeApplications_sorted [of apps] by (simp add: strict_sorted_iff)
  moreover have "sorted_wrt (<) (AdvertisedApplicationIDs cfg)"
    by (simp add: AdvertisedApplicationIDs_def strict_remdups_adj)
  ultimately show ?thesis by (simp add: set_mergeApplications find_mergeApplications sort_ids)
qed

text \<open>C39. The evidence of a failed negotiation depends on the order inside a group: with Vendor-Id first
  \<open>handleGroup\<close> reports success although it accepted nothing, and the rejection carries no AVP; with
  the application first it carries the offending AVP.\<close>

theorem group_order_hides_evidence:
  assumes "i \<noteq> 0" "\<not> okID (set ids) i"
  shows "let vendor = u32AVP VendorIDCode v; auth = u32AVP AuthApplicationID i;
      verdictOf = (\<lambda>as. fst (ParseWithApplicationIDs d Server (Some ids)
        (offeredApplications [] [] [NewAVP VendorSpecificApplicationID Mbit 0 (GroupedAVP as)])))
    in verdictOf [vendor, auth] = (None, Some ErrNoCommonApplication) \<and>
       verdictOf [auth, vendor] = (Some auth, Some ErrNoCommonApplication)"
  using assms
  by (simp add: Let_def ParseWithApplicationIDs_def validateAll_def chooseErr_def handleGroup_def
      offeredApplications_def Application_validate_def okID_def code_defs)

theorem group_order_hides_evidence_witness:
  "fst (ParseWithApplicationIDs emptySnapshot Server (Some [4]) (offeredApplications [] []
     [NewAVP VendorSpecificApplicationID Mbit 0 (GroupedAVP [u32AVP VendorIDCode 10415, u32AVP AuthApplicationID 5])])) =
   (None, Some ErrNoCommonApplication)"
  using group_order_hides_evidence [of 5 "[4]" 10415 emptySnapshot] by (simp add: okID_def relayID_def Let_def)

end
