(* ===== verification/ErrorAnswers.thy ===== *)
theory ErrorAnswers
  imports Negotiation
begin

text \<open>
  The error answers of \<open>src/diam/internal/base/error_answer.go\<close>: whatever the request and the failure,
  an answer that is built carries the request's identifiers and the flags of its kind, the result, the
  evidence, and passes the check of outgoing messages; and every disconnection message that is built is
  accepted by the corresponding validator.
\<close>

section \<open>The steps of the builder\<close>

lemma rebuild_Code:
  assumes "rebuildAnswerAVP a app dict depth = Some b"
  shows "Code b = Code a \<and> VendorID b = VendorID a"
  using assms by (subst (asm) rebuildAnswerAVP.simps) (auto simp: Let_def split: option.splits if_splits)

lemma copySession_cases:
  "copySession ss answer without = (answer', without') \<Longrightarrow>
     answer' = answer \<or> (\<exists>c. answer' = Message_InsertAVP answer c \<and> Code c = SessionIDCode)"
  by (induction ss answer without rule: copySession.induct)
    (auto dest: rebuild_Code split: if_splits option.splits payload.splits dtype.splits)

lemma fillMissing_extended:
  "fillMissing n request without answer = Inr a \<Longrightarrow> \<exists>fs. extended answer fs a"
proof (induction n request without answer rule: fillMissing.induct)
  case (2 n request without answer)
  show ?case
  proof (cases "ValidateErrorAnswer answer without")
    case None
    then show ?thesis using 2 by (auto simp: extended_def intro: exI [of _ "[]"])
  next
    case (Some e)
    with 2 show ?thesis
      using extended_trans [OF extended_add] by (auto simp: Let_def split: option.splits if_splits) blast
  qed
qed (auto simp: extended_def intro: exI [of _ "[]"])

lemma find_echo: "find isResultCode (map cloneEchoAVP (filter (\<lambda>a. Code a = ProxyInfo \<and> VendorID a = 0) as)) = None"
proof -
  have "Code (cloneEchoAVP a) = Code a" for a by (cases a rule: cloneEchoAVP.cases) simp_all
  then show ?thesis by (auto simp: find_None_iff isResultCode_def ResultCode_def ProxyInfo_def)
qed

lemma errorHeader_fields:
  "msgAVP (errorHeader request pe) = map cloneEchoAVP (filter (\<lambda>a. Code a = ProxyInfo \<and> VendorID a = 0) (msgAVP request))"
  "lengthOk (errorHeader request pe)"
  "msgHeader (errorHeader request pe) = (msgHeader request)\<lparr>Version := 1,
     MessageLength := of_nat (Message_Len (errorHeader request pe)),
     ApplicationID := (if IsCommand request then 0 else ApplicationID (msgHeader request)),
     CommandFlags := (if IsCommand request \<and> \<not> pe then 0 else CommandFlags (msgHeader request) AND ProxiableFlag) OR
       (if pe then ErrorFlag else 0)\<rparr>"
  using Answer_fields [of request 0]
  by (simp_all add: errorHeader_def Let_def lengthOk_def Message_Len_def)

text \<open>The answer is the header and the fields, perhaps with a Session-Id in front, and what was filled in.\<close>

lemma BuildErrorAnswer_steps:
  assumes "BuildErrorAnswer request cfg result failed pe = Inr a"
  shows "\<exists>session rest without. msgAVP a = session @ msgAVP (errorHeader request pe) @
      map fieldAVP (errorFields cfg result failed pe) @ rest \<and>
    (\<forall>s \<in> set session. Code s = SessionIDCode) \<and> sameEnvelope (errorHeader request pe) a \<and> lengthOk a \<and>
    ValidateErrorAnswer a without = None"
proof -
  obtain m1 m2 where m1: "addFields (errorHeader request pe) (errorFields cfg result failed pe) = Inr m1"
    and m2: "(if \<not> pe \<and> CommandCode (msgHeader request) = CapabilitiesExchange
            then sbind (capabilityAddresses cfg) (\<lambda>addresses. addFields m1 (addressFields addresses @ productFields cfg))
            else Inr m1) = Inr m2"
    and rest: "(case copySession (msgAVP request) m2 True of (answer, without) \<Rightarrow>
         sbind (if pe then Inr answer else fillMissing 32 request without answer) (\<lambda>answer.
         case ValidateErrorAnswer answer without of Some e \<Rightarrow> Inl (InvalidAnswer e) | None \<Rightarrow> Inr answer)) = Inr a"
    using assms unfolding BuildErrorAnswer_def sbind_Inr by blast
  obtain m3 without where m3: "copySession (msgAVP request) m2 True = (m3, without)" by (rule prod.exhaust)
  have a: "(if pe then Inr m3 else fillMissing 32 request without m3) = Inr a" and v: "ValidateErrorAnswer a without = None"
    using rest unfolding m3 prod.case sbind_Inr by (auto split: option.splits)
  have e1: "extended (errorHeader request pe) (map fieldAVP (errorFields cfg result failed pe)) m1"
    by (rule addFields_extended [OF m1])
  obtain fs2 where e2: "extended m1 fs2 m2"
  proof (cases "\<not> pe \<and> CommandCode (msgHeader request) = CapabilitiesExchange")
    case True
    then show ?thesis using m2 addFields_extended that by (auto simp: sbind_Inr)
  next
    case False
    then show ?thesis using m2 that [of "[]"] by (auto simp: extended_def)
  qed
  obtain session where s: "msgAVP m3 = session @ msgAVP m2" "\<forall>s \<in> set session. Code s = SessionIDCode"
      "sameEnvelope m2 m3" "lengthOk m2 \<longrightarrow> lengthOk m3"
    using copySession_cases [OF m3] by (fastforce simp: lengthOk_add)
  have "extended m3 [] m3" by (simp add: extended_def)
  then obtain fs3 where e3: "extended m3 fs3 a"
    using a fillMissing_extended [of 32 request without m3 a] by (cases pe) auto
  have "sameEnvelope (errorHeader request pe) a" "lengthOk a"
    using e1 e2 s(3,4) e3 errorHeader_fields(2) by (auto simp: extended_def intro: sameEnvelope_trans)
  then show ?thesis
    using e1 e2 s(1,2) e3 v by (intro exI [of _ session] exI [of _ "fs2 @ fs3"]) (auto simp: extended_def)
qed


lemma small_cause: "cause \<le> 2 \<Longrightarrow> 0 \<le> sint (cause :: u32) \<and> sint cause \<le> 2"
proof -
  assume "cause \<le> 2"
  then have "uint cause \<le> 2" by (simp add: word_le_def)
  moreover have "0 \<le> uint cause" by simp
  ultimately have "uint cause = 0 \<or> uint cause = 1 \<or> uint cause = 2" by linarith
  then have "uint cause \<in> {0, 1, 2}" by simp
  then have "cause \<in> {word_of_int 0, word_of_int 1, word_of_int 2}" by (metis insert_iff singletonD word_of_int_uint)
  then show ?thesis by auto
qed

lemma validate_clean:
  assumes "Message_validate m True without = None"
  shows "list_all cleanFlags (sentAVPs (msgAVP m)
    (if CommandFlags (msgHeader m) AND RequestFlag = 0 then echoedProxyInfo m else []))"
proof -
  have "walkOutgoingFlags (msgAVP m) (ApplicationID (msgHeader m)) (dictionary m)
      (outgoingCommandRules (msgHeader m) (dictionary m))
      (if CommandFlags (msgHeader m) AND RequestFlag = 0 then echoedProxyInfo m else []) = None"
    using assms by (auto simp: Message_validate_def Let_def split: if_splits option.splits)
  from walkOutgoing_clean [OF this] show ?thesis by (simp add: list_all_iff)
qed

lemma bit_and_flags: "((x AND ProxiableFlag) OR ErrorFlag) AND RequestFlag = 0" "(x AND ProxiableFlag) AND RequestFlag = 0"
  "ErrorFlag AND RequestFlag = 0"
  by (simp_all add: flag_defs and.assoc bit.conj_disj_distrib2)

section \<open>Properties\<close>

text \<open>C14. Error answers: an answer that is built has the request's command and identifiers, R and T clear, E
  exactly for protocol errors and P copied (but clear for the base commands, whose application is
  zero, unless E is set); its length field is right, the given result is its Result-Code, the evidence
  is in one Failed-AVP, and every AVP outside evidence and echoes has clean flags.\<close>

theorem error_answer:
  assumes "BuildErrorAnswer request cfg result failed pe = Inr a"
  shows "let h = msgHeader request; g = msgHeader a
    in CommandCode g = CommandCode h \<and> HopByHopID g = HopByHopID h \<and> EndToEndID g = EndToEndID h \<and>
       ApplicationID g = (if IsCommand request then 0 else ApplicationID h) \<and>
       CommandFlags g = (if IsCommand request \<and> \<not> pe then 0 else CommandFlags h AND ProxiableFlag) OR (if pe then ErrorFlag else 0) \<and>
       lengthOk a \<and> resultCode (msgAVP a) = Some result \<and>
       (failed \<noteq> [] \<longrightarrow> NewAVP FailedAVP Mbit 0 (GroupedAVP failed) \<in> set (msgAVP a)) \<and>
       list_all cleanFlags (sentAVPs (msgAVP a) (echoedProxyInfo a))"
proof -
  obtain session rest without where s: "msgAVP a = session @ msgAVP (errorHeader request pe) @
      map fieldAVP (errorFields cfg result failed pe) @ rest"
    "\<forall>s \<in> set session. Code s = SessionIDCode" "sameEnvelope (errorHeader request pe) a" "lengthOk a"
    "ValidateErrorAnswer a without = None"
    using BuildErrorAnswer_steps [OF assms] by (elim exE conjE) (rule that)
  obtain l where g: "msgHeader a = (msgHeader (errorHeader request pe))\<lparr>MessageLength := l\<rparr>"
    using s(3) unfolding sameEnvelope_def by blast
  have flags: "CommandFlags (msgHeader a) =
      (if IsCommand request \<and> \<not> pe then 0 else CommandFlags (msgHeader request) AND ProxiableFlag) OR (if pe then ErrorFlag else 0)"
    unfolding g errorHeader_fields(3) by simp
  have R: "CommandFlags (msgHeader a) AND RequestFlag = 0"
    unfolding flags by (cases pe; cases "IsCommand request") (simp_all add: bit_and_flags)
  have "find isResultCode session = None"
    using s(2) by (auto simp: find_None_iff isResultCode_def SessionIDCode_def ResultCode_def)
  then have "find isResultCode (msgAVP a) = Some (fieldAVP (ResultCode, Mbit, Typ (Unsigned32 result)))"
    by (simp add: s(1) find_append errorHeader_fields(1) find_echo errorFields_def Let_def originFields_def isResultCode_def
        ResultCode_def OriginHostCode_def OriginRealmCode_def)
  then have "resultCode (msgAVP a) = Some result" by (simp add: resultCode_def)
  moreover have "failed \<noteq> [] \<Longrightarrow> NewAVP FailedAVP Mbit 0 (GroupedAVP failed) \<in> set (msgAVP a)"
    by (simp add: s(1) errorFields_def Let_def fieldAVP_def)
  moreover have "list_all cleanFlags (sentAVPs (msgAVP a) (echoedProxyInfo a))"
    using validate_clean [of a without] s(5) R by (simp add: ValidateErrorAnswer_def)
  ultimately show ?thesis
    using s(4) by (simp add: Let_def g errorHeader_fields(3))
qed


definition badRequest :: Message where
  "badRequest = (blankMessage emptySnapshot)\<lparr>msgHeader := zeroHeader\<lparr>CommandFlags := 0xC0, CommandCode := 272, ApplicationID := 4,
     HopByHopID := 7, EndToEndID := 8\<rparr>\<rparr>"

definition badAVPs :: "avp list" where
  "badAVPs = map fieldAVP (errorFields sampleSettings 3001 [u32AVP 1 1] True)"

lemma badAVPs_eq: "badAVPs = [AVP 264 64 9 0 (Some (Typ (DiameterIdentity [97]))), AVP 296 64 9 0 (Some (Typ (DiameterIdentity [98]))),
   AVP 268 64 12 0 (Some (Typ (Unsigned32 3001))), AVP 278 64 12 0 (Some (Typ (Unsigned32 7))), 
   AVP 279 64 20 0 (Some (GroupedAVP [AVP 1 64 12 0 (Some (Typ (Unsigned32 1)))]))]"
  by (simp add: badAVPs_def errorFields_def Let_def originFields_def u32Field_def fieldAVP_def NewAVP_def newAVPWithFlags_def
    sampleSettings_def code_defs ResultCode_def FailedAVP_def Mbit_def Vbit_def u32AVP_def headerLen_def pad4_eq)

lemma badAVPs_valid: "validateAVPs badAVPs genericErrorRules 4 emptySnapshot [] = None"
  unfolding badAVPs_eq
  by (simp add: genericErrorRules_def grammar_eval validateFailedEvidence_def)

lemma badAVPs_clean: "walkOutgoingFlags badAVPs 4 emptySnapshot genericErrorRules [] = None"
  unfolding badAVPs_eq
  by (simp add: walkOutgoingFlags.simps outgoingFlagsInvalid_def genericErrorRules_def grammar_eval validateFailedEvidence_def)


lemma badRequest_answer: "\<exists>a. BuildErrorAnswer badRequest sampleSettings 3001 [u32AVP 1 1] True = Inr a"
proof -
  let ?h = "errorHeader badRequest True"
  obtain m where m: "addFields ?h (errorFields sampleSettings 3001 [u32AVP 1 1] True) = Inr m"
    by (simp add: errorFields_def Let_def originFields_def u32Field_def sampleSettings_def Message_NewAVP_def)
  have "dictionary ?h = emptySnapshot" "echoedProxyInfo ?h = []"
    by (simp_all add: errorHeader_def badRequest_def blankMessage_def Answer_def NewMessage_def Let_def)
  then have "msgAVP m = badAVPs" "dictionary m = emptySnapshot" "echoedProxyInfo m = []" "ApplicationID (msgHeader m) = 4"
    "CommandFlags (msgHeader m) = 0x60"
    using addFields_extended [OF m] errorHeader_fields [of badRequest True]
    by (auto simp: extended_def sameEnvelope_def badAVPs_def badRequest_def blankMessage_def IsCommand_def code_defs flag_defs
        CapabilitiesExchange_def DeviceWatchdog_def DisconnectPeer_def)
  then have "ValidateErrorAnswer m True = None"
    using badAVPs_valid badAVPs_clean
    by (simp add: ValidateErrorAnswer_def Message_validate_def Let_def invalidCommandFlags_def flag_defs outgoingCommandRules_def
        validResult_def resultCode_def badAVPs_eq isResultCode_def ResultCode_def isDestination_def DestinationHost_def DestinationRealm_def)
  then show ?thesis
    using m by (simp add: BuildErrorAnswer_def sbind_def badRequest_def blankMessage_def)
qed

theorem error_answer_witness:
  "\<exists>a. BuildErrorAnswer badRequest sampleSettings 3001 [u32AVP 1 1] True = Inr a \<and>
     CommandFlags (msgHeader a) = 0x60 \<and> HopByHopID (msgHeader a) = 7 \<and> resultCode (msgAVP a) = Some 3001"
proof -
  obtain a where a: "BuildErrorAnswer badRequest sampleSettings 3001 [u32AVP 1 1] True = Inr a"
    using badRequest_answer by blast
  then show ?thesis
    using error_answer [OF a] by (simp add: Let_def badRequest_def flag_defs)
qed

text \<open>C20. Disconnection: a DPR that is built is accepted by the peer with its cause, and the DPA built for it is
  accepted by the sender with the peer's result and answers the same identifiers.\<close>

theorem disconnect_exchange:
  assumes "BuildDPR dict cfg cause r1 r2 = Inr m" "BuildDPAResult m peer result = Inr a"
    and "cfgOriginHost cfg \<noteq> []" "cfgOriginRealm cfg \<noteq> []" "cfgOriginHost peer \<noteq> []" "cfgOriginRealm peer \<noteq> []"
    and "cause \<le> 2" "result \<noteq> 0"
  shows "ValidateDPR m = Some cause \<and> ValidateDPA a = Some result \<and>
    HopByHopID (msgHeader a) = HopByHopID (msgHeader m) \<and> EndToEndID (msgHeader a) = EndToEndID (msgHeader m)"
proof -
  have e: "extended (NewRequest DisconnectPeer 0 dict r1 r2)
      (map fieldAVP (originFields cfg @ [(DisconnectCauseCode, Mbit, Typ (Enumerated cause))])) m"
    using assms(1) unfolding BuildDPR_def by (rule addFields_extended)
  have m: "msgAVP m = map fieldAVP (originFields cfg @ [(DisconnectCauseCode, Mbit, Typ (Enumerated cause))])"
    using e by (simp add: extended_def NewRequest_fields)
  have "CommandFlags (msgHeader (NewRequest DisconnectPeer 0 dict r1 r2)) AND RequestFlag \<noteq> 0"
    by (simp add: NewRequest_def NewMessage_def Let_def flag_defs split: option.split)
  then have dpr: "ValidateDPR m = Some cause"
    using extended_header [OF e] assms(3,4) small_cause [OF assms(7)]
    by (simp add: ValidateDPR_def m Let_def originFields_def code_defs identityPresent_def)
  have x: "extended (baseAnswer m result) (map fieldAVP (originFields peer)) a"
    using assms(2) unfolding BuildDPAResult_def by (rule addFields_extended)
  have "filter (\<lambda>a. Code a = ProxyInfo \<and> VendorID a = 0) (msgAVP m) = []"
    by (simp add: m originFields_def code_defs ProxyInfo_def)
  then have a: "msgAVP a = NewAVP ResultCode Mbit 0 (Typ (Unsigned32 result)) # map fieldAVP (originFields peer)"
    using x Answer_fields [of m result] assms(8) by (simp add: extended_def baseAnswer_def Let_def)
  obtain l where g: "msgHeader a = (msgHeader (baseAnswer m result))\<lparr>MessageLength := l\<rparr>"
    using x unfolding extended_def sameEnvelope_def by blast
  have "msgHeader (baseAnswer m result) = (msgHeader (Answer m result))\<lparr>CommandFlags := 0, ApplicationID := 0\<rparr>"
    by (simp add: baseAnswer_def Let_def)
  then have h: "CommandFlags (msgHeader a) = 0" "ApplicationID (msgHeader a) = 0" "CommandCode (msgHeader a) = CommandCode (msgHeader m)"
      "HopByHopID (msgHeader a) = HopByHopID (msgHeader m)" "EndToEndID (msgHeader a) = EndToEndID (msgHeader m)"
    using Answer_fields [of m result] by (simp_all add: g)
  then have "ValidateDPA a = Some result"
    using extended_header(3) [OF e] assms(5,6)
    by (simp add: ValidateDPA_def a Let_def originFields_def code_defs ResultCode_def identityPresent_def)
  with dpr h show ?thesis by simp
qed

theorem disconnect_exchange_witness:
  "\<exists>m a. BuildDPR emptySnapshot sampleSettings 1 7 8 = Inr m \<and> BuildDPAResult m sampleSettings 2001 = Inr a \<and>
     ValidateDPR m = Some 1 \<and> ValidateDPA a = Some 2001"
proof -
  obtain m where m: "BuildDPR emptySnapshot sampleSettings 1 7 8 = Inr m"
    by (simp add: BuildDPR_def originFields_def Message_NewAVP_def Let_def)
  obtain a where a: "BuildDPAResult m sampleSettings 2001 = Inr a"
    by (simp add: BuildDPAResult_def originFields_def Message_NewAVP_def Let_def)
  show ?thesis
    using disconnect_exchange [OF m a] m a by (simp add: sampleSettings_def)
qed

end
