(* ===== verification/CoreState.thy ===== *)
theory CoreState
  imports Builders Watchdog
begin

text \<open>
  The state of one connection's protocol core, \<open>src/diam/internal/protocol\<close>: \<open>types.go\<close>, the
  record and the shared operations of \<open>core.go\<close> and the control exchanges of \<open>control.go\<close>.
  \<open>HandleInto\<close> appends its effects to the caller's slice, so every operation maps a batch (core and
  effects so far) to a batch. Pointers to \<open>control\<close> records become indexes into \<open>cStore\<close>; records are
  never removed from it. Maps keyed by tokens are association lists or functions. Times are
  nanoseconds, tokens and sequence numbers natural numbers (a \<open>uint64\<close> counter does not overflow in
  the life of a connection). The connection field of effects, log diagnostics and copied error
  evidence are left out; a message always has a header. The canonical base grammar is a configuration
  field.
\<close>

section \<open>Types\<close>

record Connection =
  connInstance :: u64
  connGeneration :: u64

datatype CoreRole = Responder | Initiator

datatype Phase = PreCER | WaitCEA | Open | Closing | Closed | Retired

datatype InputKind =
    IStart | IReceive | IContinue | IActivate | IRejectCandidate | IReleaseAdmission | IReserveResult
  | IWriteResult | IFrozen | ITimerExpired | IDisconnect | IUnhandled | IAbort | ITransportLost | IRetire
  | IStopSupervision | IBeginCER

datatype WriteStage = QueueStage | WrittenStage | SkippedStage

datatype TimerKind = HandshakeTimer | RetryTimer | WatchdogTimer | ClosingTimer | ReceiverDisconnectTimer

datatype NoticeKind = ProtocolNotice | HandshakeNotice | DisconnectNotice | PeerDisconnectNotice | WatchdogNotice

datatype Outcome = Completed | TimedOut | ConnectionClosed | Cancelled | NotOpen | AlreadyPending

datatype ReplyStatus = ReplyNone | ReplyQueued | ReplyWritten | ReplyFailed

record CoreConfig =
  kValidateRequests :: bool
  kRejectUnknownMandatoryAVPs :: bool
  kConnection :: Connection
  kRole :: CoreRole
  kDictionary :: Snapshot
  kCanonical :: Snapshot
  kLocal :: Settings
  kExpectedHost :: bytes
  kTLS :: bool
  kQueueWrites :: bool
  kHooks :: bool
  kHandshakeTimeout :: int
  kCERInterval :: int
  kClosingTimeout :: int
  kMaxRetransmits :: nat
  kWatchdog :: bool
  kWatchdogInterval :: int
  kRecovery :: bool
  kCandidateDeadlineOwnedByPeer :: bool
  kIgnoreBoundHeaderlessInput :: bool
  kReaderOwnsMessageErrorClosure :: bool
  kCloseCEROnInvalidHeaderBitsOnly :: bool
  kLocalDisconnectInClosing :: bool
  kSkipDWRGrammarAfterHook :: bool
  kKeepCERDeadlineAfterTransportLoss :: bool

record Reservation =
  resToken :: nat
  resHop :: u32
  resEnd :: u32

text \<open>An input carries one event; \<open>inErr\<close> says whether a Go error came with it.\<close>

record Input =
  inDeferCER :: bool
  inRecovery :: bool
  inRefreshLocalAddresses :: bool
  inLocalAddresses :: "Address list"
  inKind :: InputKind
  inConnection :: Connection
  inAt :: int
  inSequence :: nat
  inAfterReceive :: nat
  inToken :: nat
  inMessage :: "Message option"
  inError :: "message_error option"
  inErrorInput :: bool
  inErr :: bool
  inReservation :: Reservation
  inStage :: WriteStage
  inBytes :: int
  inExpectedBytes :: int
  inReplyCode :: u32
  inResultCode :: u32
  inCause :: u32
  inTimer :: TimerKind
  inInterval :: int
  inTimeout :: int
  inInFlight :: bool
  inTransportClosed :: bool
  inHasHandler :: bool
  inUnhandled :: bool
  inOwnership :: nat

text \<open>Why a handshake failed.\<close>

datatype core_error =
    ExternalError | ErrShortWrite | BuildError build_error | MessageFault message_error | ParseError base_error | ErrUnexpectedPeer

type_synonym Metadata = "(nat \<times> Header) option"

record Notification =
  nKind :: NoticeKind
  nProtocol :: ProtocolErrorKind
  nResultCode :: u32
  nReplyCode :: u32
  nCause :: u32
  nReply :: ReplyStatus
  nClosing :: bool
  nOutcome :: Outcome
  nWatchdog :: "WdState option"
  nMessage :: Metadata
  nHandshake :: "core_error option"

definition notice0 :: Notification where
  "notice0 = \<lparr>nKind = ProtocolNotice, nProtocol = NoKind, nResultCode = 0, nReplyCode = 0, nCause = 0,
     nReply = ReplyNone, nClosing = False, nOutcome = Completed, nWatchdog = None, nMessage = None, nHandshake = None\<rparr>"

record Capabilities =
  capsLocal :: Settings
  capsCER :: "CER option"
  capsCEA :: "CEA option"
  capsLocalApplications :: "u32 list option"
  capsRemoteApplications :: "u32 list"
  capsCommonApplications :: "u32 list"
  capsParsedApplications :: "u32 list"
  capsHost :: bytes
  capsRealm :: bytes
  capsTLS :: bool

record control =
  ctlCommand :: u32
  ctlReservation :: Reservation
  ctlHeader :: Header
  ctlFrame :: "Message option"
  ctlLogical :: bool
  ctlAnswered :: bool
  ctlReleased :: bool
  ctlWritten :: bool
  ctlWriters :: int
  ctlAttempts :: nat

record operation =
  opControl :: "nat option"
  opMessage :: Metadata
  opLength :: int
  opRequired :: bool
  opCloseAfter :: bool
  opHandshake :: bool
  opReported :: bool
  opQueued :: bool
  opNotice :: "Notification option"

record CoreSnapshot =
  snPhase :: Phase
  snRole :: CoreRole
  snCandidate :: nat
  snAdmission :: nat
  snReady :: bool
  snFrozen :: bool
  snCapabilities :: Capabilities
  snWatchdog :: Machine
  snTimers :: "TimerKind \<Rightarrow> nat \<times> int"
  snControls :: "(u32 \<times> Reservation \<times> bool \<times> bool \<times> int) list"
  snPeerCause :: u32
  snPeerDPR :: bool
  snHandshake :: "core_error option"

datatype effect =
    ReserveIDs nat u32
  | ReleaseIDs Reservation
  | Send nat Message bool bool WriteStage bool "Notification option"
  | Publish nat CoreSnapshot
  | ValidatedCER nat CoreSnapshot
  | RunHook nat Message
  | HandshakeReady nat CoreSnapshot
  | Admit Message nat
  | Hold Input
  | Discard
  | Notify Notification nat
  | ArmTimer TimerKind nat int
  | StopTimer TimerKind nat
  | FreezeAdmission nat
  | CloseConnection
  | CancelSend nat
  | CompleteRequest Metadata
  | PeerDisconnectDecision u32

record Effect =
  eKind :: effect
  eReleaseDispatch :: bool

record continuation =
  conInput :: Input
  conRepeatedCER :: bool

record Core =
  cHandshakePending :: bool
  cCallbackReady :: bool
  cContinuations :: "nat \<rightharpoonup> continuation"
  cCloseOutcome :: Outcome
  cHandshake :: "core_error option"
  cWdNext :: "Machine option"
  cReceivedSequence :: nat
  cDeferredExpiry :: "Input option"
  cCloseLocal :: bool
  cDisconnectWaiting :: bool
  cPeerDisconnectSelected :: bool
  cPeerCause :: u32
  cPeerDPR :: bool
  cDisconnectToken :: nat
  cFenceToken :: nat
  cCloseRequest :: "Input option"
  cEarlyDPA :: "Input option"
  cLateCERToken :: nat
  cLateCER :: "Input option"
  cCfg :: CoreConfig
  cPhase :: Phase
  cSerial :: nat
  cStarted :: bool
  cReady :: bool
  cTerminal :: bool
  cFrozen :: bool
  cCERDeferred :: bool
  cPassiveResponder :: bool
  cPassiveCER :: bool
  cPassiveWatchdog :: bool
  cPassivePresent :: bool
  cCandidateToken :: nat
  cAdmission :: nat
  cCaps :: Capabilities
  cCer :: "Message option"
  cCompletedCEA :: "Header option"
  cHookToken :: nat
  cTimers :: "TimerKind \<Rightarrow> nat \<times> int"
  cReservations :: "nat \<rightharpoonup> u32"
  cControls :: "u32 \<rightharpoonup> nat"
  cStore :: "control list"
  cOperations :: "(nat \<times> operation) list"
  cCloseCause :: u32
  cWd :: Machine

type_synonym batch = "Core \<times> Effect list"

section \<open>Construction\<close>

definition MinimumTw :: int where "MinimumTw = 6000000000"

definition newCapabilities :: "CoreConfig \<Rightarrow> Capabilities" where
  "newCapabilities cfg = \<lparr>capsLocal = kLocal cfg, capsCER = None, capsCEA = None,
     capsLocalApplications = Some (AdvertisedApplicationIDs (kLocal cfg)), capsRemoteApplications = [],
     capsCommonApplications = [], capsParsedApplications = [], capsHost = [], capsRealm = [], capsTLS = kTLS cfg\<rparr>"

definition freshCore :: "CoreConfig \<Rightarrow> Core" where
  "freshCore cfg = \<lparr>cHandshakePending = (kRole cfg = Initiator), cCallbackReady = False, cContinuations = Map.empty,
     cCloseOutcome = ConnectionClosed, cHandshake = None, cWdNext = None, cReceivedSequence = 0, cDeferredExpiry = None,
     cCloseLocal = False, cDisconnectWaiting = False, cPeerDisconnectSelected = False, cPeerCause = 0, cPeerDPR = False,
     cDisconnectToken = 0, cFenceToken = 0, cCloseRequest = None, cEarlyDPA = None, cLateCERToken = 0, cLateCER = None,
     cCfg = cfg, cPhase = PreCER, cSerial = 0, cStarted = False, cReady = False, cTerminal = False, cFrozen = False,
     cCERDeferred = False, cPassiveResponder = False, cPassiveCER = False, cPassiveWatchdog = False,
     cPassivePresent = False, cCandidateToken = 0, cAdmission = 0, cCaps = newCapabilities cfg, cCer = None,
     cCompletedCEA = None, cHookToken = 0, cTimers = (\<lambda>k. (0, 0)), cReservations = Map.empty, cControls = Map.empty,
     cStore = [], cOperations = [], cCloseCause = 0,
     cWd = \<lparr>wdState = (if kRecovery cfg then WdDown else WdInitial), Pending = False, NumDWA = 0\<rparr>\<rparr>"

text \<open>\<open>New\<close>; the missing dictionary is replaced by the caller.\<close>

definition New :: "CoreConfig \<Rightarrow> Core option" where
  "New cfg =
     (if connInstance (kConnection cfg) = 0 then None
      else if cfgResolveHostIPAddresses (kLocal cfg) \<noteq> None then None
      else if kHandshakeTimeout cfg < 0 \<or> kCERInterval cfg < 0 \<or> kClosingTimeout cfg < 0 then None
      else if kWatchdog cfg \<and> kWatchdogInterval cfg < MinimumTw then None
      else if \<not> ValidateCapabilities (kLocal cfg) then None
      else Some (freshCore cfg))"

section \<open>Effects, tokens and timers\<close>

definition over :: "Phase \<Rightarrow> bool" where
  "over p \<longleftrightarrow> p = Closed \<or> p = Retired"

definition emit :: "effect \<Rightarrow> batch \<Rightarrow> batch" where
  "emit k s = (fst s, snd s @ [\<lparr>eKind = k, eReleaseDispatch = False\<rparr>])"

text \<open>A change of the core only.\<close>

definition upd :: "(Core \<Rightarrow> Core) \<Rightarrow> batch \<Rightarrow> batch" where
  "upd f s = (f (fst s), snd s)"

definition token :: "batch \<Rightarrow> nat \<times> batch" where
  "token s = (cSerial (fst s) + 1, upd (\<lambda>c. c\<lparr>cSerial := cSerial c + 1\<rparr>) s)"

definition setTimer :: "TimerKind \<Rightarrow> nat \<Rightarrow> int \<Rightarrow> Core \<Rightarrow> Core" where
  "setTimer k t d c = c\<lparr>cTimers := (cTimers c)(k := (t, d))\<rparr>"

definition arm :: "TimerKind \<Rightarrow> int \<Rightarrow> int \<Rightarrow> batch \<Rightarrow> batch" where
  "arm k at d s =
     (if d \<le> 0 then s
      else case token s of (t, s) \<Rightarrow> emit (ArmTimer k t (at + d)) (upd (setTimer k t (at + d)) s))"

definition stop :: "TimerKind \<Rightarrow> batch \<Rightarrow> batch" where
  "stop k s =
     (let t = fst (cTimers (fst s) k)
      in if t = 0 then s else emit (StopTimer k t) (upd (setTimer k 0 0) s))"

definition metadata :: "Message option \<Rightarrow> Metadata" where
  "metadata m = map_option (\<lambda>m. (stream m, msgHeader m)) m"

definition notifyToken :: "Notification \<Rightarrow> nat \<Rightarrow> batch \<Rightarrow> batch" where
  "notifyToken n t s =
     emit (Notify (if nKind n = HandshakeNotice then n\<lparr>nHandshake := cHandshake (fst s)\<rparr> else n) t) s"

definition notify :: "Notification \<Rightarrow> batch \<Rightarrow> batch" where
  "notify n s = notifyToken n 0 s"

definition controlSnapshot :: "Core \<Rightarrow> u32 \<Rightarrow> (u32 \<times> Reservation \<times> bool \<times> bool \<times> int) list" where
  "controlSnapshot c cmd =
     (case cControls c cmd of
        None \<Rightarrow> []
      | Some i \<Rightarrow> (let r = cStore c ! i in [(cmd, ctlReservation r, ctlLogical r, ctlAnswered r, ctlWriters r)]))"

definition controlCommands :: "u32 list" where
  "controlCommands = [CapabilitiesExchange, DeviceWatchdog, DisconnectPeer]"

definition Core_Snapshot :: "Core \<Rightarrow> CoreSnapshot" where
  "Core_Snapshot c = \<lparr>snPhase = cPhase c, snRole = kRole (cCfg c), snCandidate = cCandidateToken c, snAdmission = cAdmission c,
     snReady = cReady c, snFrozen = cFrozen c, snCapabilities = cCaps c, snWatchdog = cWd c, snTimers = cTimers c,
     snControls = concat (map (controlSnapshot c) controlCommands), snPeerCause = cPeerCause c, snPeerDPR = cPeerDPR c,
     snHandshake = cHandshake c\<rparr>"

section \<open>Control exchanges\<close>

definition setControl :: "nat \<Rightarrow> (control \<Rightarrow> control) \<Rightarrow> Core \<Rightarrow> Core" where
  "setControl i f c = c\<lparr>cStore := (cStore c)[i := f (cStore c ! i)]\<rparr>"

definition reserve :: "u32 \<Rightarrow> batch \<Rightarrow> batch" where
  "reserve cmd s =
     (case token s of (t, s) \<Rightarrow>
        emit (ReserveIDs t cmd) (upd (\<lambda>c. c\<lparr>cReservations := (cReservations c)(t \<mapsto> cmd)\<rparr>) s))"

definition release :: "nat \<Rightarrow> batch \<Rightarrow> batch" where
  "release i s =
     (let c = fst s; r = cStore c ! i
      in if ctlLogical r \<or> ctlWriters r \<noteq> 0 \<or> ctlReleased r then s
         else
           let c = setControl i (\<lambda>r. r\<lparr>ctlReleased := True\<rparr>) c;
               c = (if cControls c (ctlCommand r) = Some i then c\<lparr>cControls := (cControls c)(ctlCommand r := None)\<rparr> else c)
           in emit (ReleaseIDs (ctlReservation r)) (c, snd s))"

definition settle :: "nat \<Rightarrow> batch \<Rightarrow> batch" where
  "settle i s = release i (upd (setControl i (\<lambda>r. r\<lparr>ctlLogical := False, ctlAnswered := True\<rparr>)) s)"

definition send :: "Message \<Rightarrow> nat option \<Rightarrow> bool \<Rightarrow> bool \<Rightarrow> bool \<Rightarrow> Notification option \<Rightarrow> Message option \<Rightarrow> bool \<Rightarrow> batch \<Rightarrow> batch" where
  "send m r required closeAfter handshake notice source answerHook s =
     (case token s of (t, s) \<Rightarrow>
        let op = \<lparr>opControl = r,
                  opMessage = (case source of
                                 Some m \<Rightarrow> metadata (Some m)
                               | None \<Rightarrow> (case notice of Some n \<Rightarrow> nMessage n | None \<Rightarrow> None)),
                  opLength = int (Message_Len m), opRequired = required, opCloseAfter = closeAfter, opHandshake = handshake,
                  opReported = False, opQueued = False, opNotice = notice\<rparr>;
            s = upd (\<lambda>c. c\<lparr>cOperations := cOperations c @ [(t, op)]\<rparr>) s;
            s = (case r of
                   None \<Rightarrow> s
                 | Some i \<Rightarrow> upd (setControl i (\<lambda>r. r\<lparr>ctlWriters := ctlWriters r + 1, ctlAttempts := ctlAttempts r + 1\<rparr>)) s)
        in emit (Send t m required closeAfter (if kQueueWrites (cCfg (fst s)) then QueueStage else WrittenStage) answerHook notice) s)"

definition matches :: "Core \<Rightarrow> u32 \<Rightarrow> Message option \<Rightarrow> bool" where
  "matches c cmd m \<longleftrightarrow>
     (case cControls c cmd of
        None \<Rightarrow> False
      | Some i \<Rightarrow>
          (let r = cStore c ! i
           in ctlLogical r \<and>
              (case m of
                 None \<Rightarrow> False
               | Some m \<Rightarrow> ApplicationID (msgHeader m) = 0 \<and> CommandFlags (msgHeader m) AND RequestFlag = 0 \<and>
                   CommandCode (msgHeader m) = ctlCommand r \<and> HopByHopID (msgHeader m) = HopByHopID (ctlHeader r) \<and>
                   EndToEndID (msgHeader m) = EndToEndID (ctlHeader r))))"

section \<open>Termination\<close>

definition dropControl :: "u32 \<Rightarrow> batch \<Rightarrow> batch" where
  "dropControl cmd s =
     (case cControls (fst s) cmd of
        None \<Rightarrow> s
      | Some i \<Rightarrow> release i (upd (setControl i (\<lambda>r. r\<lparr>ctlLogical := False\<rparr>)) s))"

definition clearCore :: "Phase \<Rightarrow> Core \<Rightarrow> Core" where
  "clearCore phase c = c\<lparr>cPhase := phase, cEarlyDPA := None, cCandidateToken := 0, cHookToken := 0, cAdmission := 0,
     cReady := False, cCallbackReady := False, cContinuations := Map.empty, cCer := None, cWdNext := None,
     cDeferredExpiry := None,
     cWd := (if kWatchdog (cCfg c) \<and> wdState (cWd c) \<noteq> WdInitial
             then (fst (Step (cWd c) ConnectionDown))\<lparr>Pending := False\<rparr> else cWd c)\<rparr>"

definition allTimers :: "TimerKind list" where
  "allTimers = [HandshakeTimer, RetryTimer, WatchdogTimer, ClosingTimer, ReceiverDisconnectTimer]"

definition noticesAtEnd :: "batch \<Rightarrow> batch" where
  "noticesAtEnd s =
     (let s = (if cHandshakePending (fst s)
               then notify (notice0\<lparr>nKind := HandshakeNotice, nOutcome := cCloseOutcome (fst s)\<rparr>)
                      (upd (\<lambda>c. c\<lparr>cHandshakePending := False\<rparr>) s)
               else s)
      in if cDisconnectWaiting (fst s)
         then notifyToken (notice0\<lparr>nKind := DisconnectNotice, nOutcome := cCloseOutcome (fst s)\<rparr>) (cDisconnectToken (fst s))
                (upd (\<lambda>c. c\<lparr>cDisconnectWaiting := False\<rparr>) s)
         else s)"

definition terminate :: "Phase \<Rightarrow> batch \<Rightarrow> batch" where
  "terminate phase s =
     (let s = upd (clearCore phase) s;
          s = fold stop allTimers s;
          s = fold dropControl controlCommands s;
          s = fold (\<lambda>t. emit (CancelSend t)) (sort (map fst (cOperations (fst s)))) s;
          s = (if phase = Closed then emit CloseConnection s else s)
      in noticesAtEnd s)"

section \<open>Rejections\<close>

definition discard :: "Message option \<Rightarrow> ProtocolErrorKind \<Rightarrow> u32 \<Rightarrow> bool \<Rightarrow> batch \<Rightarrow> batch" where
  "discard m kind code closing s =
     (let s = emit Discard s
      in if kind = NoKind then s
         else notify (notice0\<lparr>nProtocol := kind, nResultCode := code, nMessage := metadata m, nClosing := closing\<rparr>) s)"

definition keepLateCER :: "ProtocolErrorKind \<Rightarrow> Core \<Rightarrow> Core" where
  "keepLateCER kind c =
     (if kind = ProtocolHandshakeTimeout \<and> cHookToken c \<noteq> 0 then
        (case cContinuations c (cHookToken c) of
           None \<Rightarrow> c
         | Some saved \<Rightarrow>
             (case inMessage (conInput saved) of
                None \<Rightarrow> c
              | Some m \<Rightarrow>
                  if CommandCode (msgHeader m) = CapabilitiesExchange
                  then c\<lparr>cLateCERToken := cHookToken c, cLateCER := Some (conInput saved)\<rparr> else c))
      else c)"

definition fail :: "Message option \<Rightarrow> ProtocolErrorKind \<Rightarrow> u32 \<Rightarrow> batch \<Rightarrow> batch" where
  "fail m kind code s =
     (let s = upd (keepLateCER kind) s;
          s = (if kind \<in> {ProtocolHandshakeTimeout, ProtocolDisconnectTimeout, ProtocolWatchdogTimeout}
               then upd (\<lambda>c. c\<lparr>cCloseOutcome := TimedOut\<rparr>) s else s);
          s = terminate Closed s;
          n = notice0\<lparr>nProtocol := kind, nResultCode := code, nClosing := True, nMessage := metadata m\<rparr>;
          n = (if kind = ProtocolReplyFailure then n\<lparr>nResultCode := 0, nReplyCode := code, nReply := ReplyFailed\<rparr> else n)
      in notify n s)"

definition failedRejection :: "Message option \<Rightarrow> ProtocolErrorKind \<Rightarrow> u32 \<Rightarrow> batch \<Rightarrow> batch" where
  "failedRejection m kind code s =
     notify (notice0\<lparr>nProtocol := kind, nResultCode := code, nReply := ReplyFailed, nReplyCode := code, nClosing := True,
               nMessage := metadata m\<rparr>) (terminate Closed s)"

definition protocolCode :: "u32 \<Rightarrow> bool" where
  "protocolCode code \<longleftrightarrow> 3000 \<le> code \<and> code < 4000"

definition setTerminal :: "bool \<Rightarrow> Core \<Rightarrow> Core" where
  "setTerminal t c = (if t then c\<lparr>cTerminal := True\<rparr> else c)"

definition reject :: "Message \<Rightarrow> ProtocolErrorKind \<Rightarrow> message_error \<Rightarrow> batch \<Rightarrow> batch" where
  "reject m kind me s =
     (let c = fst s; code = meResultCode me
      in if cPhase c = Closing then discard (Some m) kind code False s
         else case BuildErrorAnswer m (kLocal (cCfg c)) code (case meFailedAVP me of None \<Rightarrow> [] | Some f \<Rightarrow> [f]) (protocolCode code) of
             Inl e \<Rightarrow> failedRejection (Some m) kind code s
           | Inr answer \<Rightarrow>
               let terminal = (cPhase c = PreCER \<or> meFatal me \<or>
                     CommandCode (msgHeader m) = CapabilitiesExchange \<and> ValidateHeader m \<noteq> None);
                   n = notice0\<lparr>nProtocol := kind, nResultCode := code, nClosing := terminal, nMessage := metadata (Some m)\<rparr>
               in send answer None True terminal False (Some n) None False (upd (setTerminal terminal) s))"

definition requestError :: "Message \<Rightarrow> RequestError \<Rightarrow> batch \<Rightarrow> batch" where
  "requestError m r s =
     (let c = fst s; code = reCode r
      in if cPhase c = Closing then discard (Some m) (reKind r) code False s
         else case BuildErrorAnswer m (kLocal (cCfg c)) code (reFailed r) (protocolCode code) of
             Inl e \<Rightarrow> failedRejection (Some m) (reKind r) code s
           | Inr answer \<Rightarrow>
               let terminal = (cPhase c = PreCER);
                   n = notice0\<lparr>nProtocol := reKind r, nResultCode := code, nClosing := terminal, nMessage := metadata (Some m)\<rparr>
               in send answer None True terminal False (Some n) None False (upd (setTerminal terminal) s))"

end
