(* ===== verification/CoreHandlers.thy ===== *)
theory CoreHandlers
  imports CoreState
begin

text \<open>
  The event handlers of the protocol core: \<open>watchdog.go\<close>, \<open>closing.go\<close>, \<open>handshake.go\<close>,
  \<open>capabilities.go\<close>, \<open>receive.go\<close>, the write results of \<open>control.go\<close>, the dispatcher of \<open>core.go\<close>,
  \<open>admission.go\<close> and \<open>queued_reply.go\<close>. Each handler is one definition on batches, with the branches of
  the source in their order. A panic of a parser is one of its error values and takes the error branch.
\<close>

section \<open>Watchdog\<close>

definition setWd :: "Machine \<Rightarrow> Core \<Rightarrow> Core" where
  "setWd m c = c\<lparr>cWd := m\<rparr>"

definition setWdNext :: "Machine option \<Rightarrow> Core \<Rightarrow> Core" where
  "setWdNext m c = c\<lparr>cWdNext := m\<rparr>"

definition watchdogArm :: "int \<Rightarrow> int \<Rightarrow> batch \<Rightarrow> batch" where
  "watchdogArm at interval s =
     (let interval = (if interval \<le> 0 then kWatchdogInterval (cCfg (fst s)) else interval)
      in if interval \<le> 0 then stop WatchdogTimer s
         else
           let previous = fst (cTimers (fst s) WatchdogTimer); deadline = at + interval
           in case token s of (t, s) \<Rightarrow>
                let s = upd (setTimer WatchdogTimer t deadline) s;
                    s = (if previous = 0 then s else emit (StopTimer WatchdogTimer previous) s)
                in emit (ArmTimer WatchdogTimer t deadline) s)"

definition watchdogNotice :: "WdState \<Rightarrow> batch \<Rightarrow> batch" where
  "watchdogNotice st = notify (notice0\<lparr>nKind := WatchdogNotice, nWatchdog := Some st\<rparr>)"

definition watchdogUp :: "int \<Rightarrow> int \<Rightarrow> batch \<Rightarrow> batch" where
  "watchdogUp at interval s =
     (if \<not> kWatchdog (cCfg (fst s)) then s
      else case Step (cWd (fst s)) ConnectionUp of (next, actions) \<Rightarrow>
        if aSend actions then reserve DeviceWatchdog (upd (\<lambda>c. setWdNext (Some next) (setWd (next\<lparr>Pending := False\<rparr>) c)) s)
        else if aReset actions then watchdogArm at interval (upd (setWd next) s)
        else upd (setWd next) s)"

definition watchdogPublished :: "int \<Rightarrow> int \<Rightarrow> batch \<Rightarrow> batch" where
  "watchdogPublished at interval s =
     (case cWdNext (fst s) of
        None \<Rightarrow> s
      | Some next \<Rightarrow>
          if cPhase (fst s) \<noteq> Open then s
          else watchdogNotice (wdState next)
                 (watchdogArm at interval (upd (\<lambda>c. setWdNext None (setWd next c)) s)))"

definition activity :: "Input \<Rightarrow> batch \<Rightarrow> batch" where
  "activity i s =
     (if cPhase (fst s) \<noteq> Open \<or> \<not> kWatchdog (cCfg (fst s)) \<or> FatalHeaderError (inError i) then s
      else watchdogArm (inAt i) (inInterval i) s)"

definition validActivity :: "batch \<Rightarrow> batch" where
  "validActivity s =
     (if cPhase (fst s) \<noteq> Open \<or> \<not> kWatchdog (cCfg (fst s)) then s
      else case Step (cWd (fst s)) Receive of (next, actions) \<Rightarrow>
        let s = upd (setWd next) s
        in if aFailback actions then watchdogNotice (wdState next) s else s)"

definition watchdogExpired :: "Input \<Rightarrow> batch \<Rightarrow> batch" where
  "watchdogExpired i s =
     (let c = fst s
      in if cPhase c \<noteq> Open \<or> \<not> kWatchdog (cCfg c) then s
         else if inAfterReceive i > cReceivedSequence c then upd (\<lambda>c. c\<lparr>cDeferredExpiry := Some i\<rparr>) s
         else if cWdNext c \<noteq> None then watchdogArm (inAt i) (inInterval i) s
         else case Step (cWd c) Expired of (next, actions) \<Rightarrow>
           if aClose actions then fail (inMessage i) ProtocolWatchdogTimeout 0 s
           else
             let s = stop WatchdogTimer s
             in if aSend actions then reserve DeviceWatchdog (upd (setWdNext (Some next)) s)
                else
                  let s = upd (setWd next) s;
                      s = (if aFailover actions then watchdogNotice (wdState next) s else s)
                  in if aReset actions then watchdogArm (inAt i) (inInterval i) s else s)"

section \<open>Identities\<close>

definition lowerByte :: "byte \<Rightarrow> byte" where
  "lowerByte b = (if 65 \<le> b \<and> b \<le> 90 then b + 32 else b)"

definition equalIdentity :: "bytes \<Rightarrow> bytes \<Rightarrow> bool" where
  "equalIdentity a b \<longleftrightarrow> length a = length b \<and> list_all2 (\<lambda>x y. lowerByte x = lowerByte y) a b"

definition bound :: "Core \<Rightarrow> Message \<Rightarrow> bool \<Rightarrow> bool" where
  "bound c m realm \<longleftrightarrow>
     (case DWR_Parse m of
        Inl e \<Rightarrow> False
      | Inr identity \<Rightarrow> equalIdentity (dwrOriginHost identity) (capsHost (cCaps c)) \<and>
          (\<not> realm \<or> equalIdentity (dwrOriginRealm identity) (capsRealm (cCaps c))))"

section \<open>Watchdog messages\<close>

definition consumeControl :: "nat \<Rightarrow> Message \<Rightarrow> batch \<Rightarrow> batch" where
  "consumeControl r m s =
     (if ctlAnswered (cStore (fst s) ! r) then s
      else emit (CompleteRequest (metadata (Some m))) (upd (setControl r (\<lambda>r. r\<lparr>ctlAnswered := True\<rparr>)) s))"

definition acceptDWA :: "nat \<Rightarrow> Message \<Rightarrow> batch \<Rightarrow> batch" where
  "acceptDWA r m s =
     (let current = (case cWdNext (fst s) of None \<Rightarrow> cWd (fst s) | Some next \<Rightarrow> next)
      in case Step current ReceiveDWA of (next, actions) \<Rightarrow>
           let s = upd (\<lambda>c. setWdNext None (setWd next c)) s;
               s = settle r (consumeControl r m s);
               s = watchdogNotice (wdState next) s
           in if aFailback actions then watchdogNotice (wdState next) s else s)"

definition dwa :: "Message \<Rightarrow> batch \<Rightarrow> batch" where
  "dwa m s =
     (let c = fst s
      in case ValidateMessage (kCanonical (cCfg c)) m of
          Some e \<Rightarrow> discard (Some m) ProtocolInvalidDWA (meResultCode e) False s
        | None \<Rightarrow>
            if \<not> matches c DeviceWatchdog (Some m) then discard (Some m) ProtocolUnexpectedMessage 0 False s
            else case (DWA_Parse m, cControls c DeviceWatchdog) of
                (Inr parsed, Some r) \<Rightarrow>
                  if dwaResultCode parsed \<noteq> Success \<and> \<not> bound c m True then discard (Some m) ProtocolInvalidDWA 0 False s
                  else if dwaResultCode parsed \<noteq> Success then
                    discard (Some m) ProtocolRejectedDWA (dwaResultCode parsed) False (consumeControl r m s)
                  else if \<not> bound c m True \<or> CommandFlags (msgHeader m) AND ErrorFlag \<noteq> 0 then
                    discard (Some m) ProtocolInvalidDWA 0 False s
                  else acceptDWA r m s
              | _ \<Rightarrow> discard (Some m) ProtocolInvalidDWA 0 False s)"

definition dwr :: "Message \<Rightarrow> batch \<Rightarrow> batch" where
  "dwr m s =
     (if (case DWR_Parse m of Inl e \<Rightarrow> True | Inr d \<Rightarrow> False) \<or> \<not> bound (fst s) m False
      then discard (Some m) ProtocolInvalidDWR 0 False s
      else case BuildDWA m (kLocal (cCfg (fst s))) of
          Inl e \<Rightarrow> fail (Some m) ProtocolReplyFailure Success s
        | Inr answer \<Rightarrow> send answer None True False False None (Some m) True (validActivity s))"

section \<open>Disconnection\<close>

definition beginClosing :: "Input \<Rightarrow> bool \<Rightarrow> batch \<Rightarrow> batch" where
  "beginClosing i local s =
     (let s = upd (\<lambda>c. c\<lparr>cPhase := Closing, cReady := False, cCloseLocal := local, cCloseRequest := Some i,
                          cCloseCause := inCause i\<rparr>) s
      in case token s of (t, s) \<Rightarrow>
        let s = upd (\<lambda>c. c\<lparr>cFenceToken := t\<rparr>) s;
            s = (if local then upd (\<lambda>c. c\<lparr>cDisconnectWaiting := True, cDisconnectToken := inToken i\<rparr>) s else s);
            s = stop WatchdogTimer s;
            duration = (if inTimeout i \<le> 0 then kClosingTimeout (cCfg (fst s)) else inTimeout i)
        in emit (FreezeAdmission t) (arm ClosingTimer (inAt i) duration s))"

definition answerDPR :: "Message \<Rightarrow> bool \<Rightarrow> bool \<Rightarrow> batch \<Rightarrow> batch" where
  "answerDPR m inFlight first s =
     (let result = (if inFlight then UnableToComply else Success)
      in case BuildDPAResult m (kLocal (cCfg (fst s))) result of
          Inl e \<Rightarrow> fail (Some m) ProtocolReplyFailure result s
        | Inr answer \<Rightarrow>
            let notice = (if first
                  then Some (notice0\<lparr>nKind := PeerDisconnectNotice, nCause := cPeerCause (fst s), nReplyCode := result,
                               nMessage := metadata (Some m)\<rparr>) else None)
            in send answer None True False False notice (Some m) False
                 (if first then upd (\<lambda>c. c\<lparr>cPeerDisconnectSelected := True\<rparr>) s else s))"

definition freeze :: "Input \<Rightarrow> batch \<Rightarrow> batch" where
  "freeze i s =
     (let c = fst s
      in if cPhase c \<noteq> Closing \<or> cFrozen c \<or> inToken i \<noteq> cFenceToken c then s
         else
           let s = upd (\<lambda>c. c\<lparr>cFrozen := True, cFenceToken := 0\<rparr>) s
           in if cCloseLocal c then reserve DisconnectPeer s
              else case Option.bind (cCloseRequest c) inMessage of
                  None \<Rightarrow> s
                | Some m \<Rightarrow> answerDPR m (inInFlight i) True (upd (\<lambda>c. c\<lparr>cCloseRequest := None\<rparr>) s))"

definition disconnect :: "Input \<Rightarrow> batch \<Rightarrow> batch" where
  "disconnect i s =
     (let c = fst s
      in if cDisconnectWaiting c then notify (notice0\<lparr>nKind := DisconnectNotice, nOutcome := AlreadyPending\<rparr>) s
         else if kLocalDisconnectInClosing (cCfg c) \<and> cPhase c = Closing \<and> cFrozen c \<and> \<not> cCloseLocal c \<and> inCause i \<le> 2 then
           reserve DisconnectPeer (arm ReceiverDisconnectTimer (inAt i) (inTimeout i)
             (upd (\<lambda>c. c\<lparr>cDisconnectWaiting := True, cDisconnectToken := inToken i, cCloseCause := inCause i\<rparr>) s))
         else if cPhase c \<noteq> Open \<or> inCause i > 2 then
           notify (notice0\<lparr>nKind := DisconnectNotice, nOutcome := NotOpen\<rparr>) s
         else beginClosing i True s)"

text \<open>\<open>ReleaseDispatch\<close> is set on the first effect a handler appended, if there is one.\<close>

definition markDispatch :: "nat \<Rightarrow> batch \<Rightarrow> batch" where
  "markDispatch start s =
     (if start < length (snd s) then (fst s, (snd s)[start := (snd s ! start)\<lparr>eReleaseDispatch := True\<rparr>]) else s)"

definition dpr :: "Message \<Rightarrow> Input \<Rightarrow> batch \<Rightarrow> batch" where
  "dpr m i s =
     (case ValidateDPR m of
        None \<Rightarrow> discard (Some m) ProtocolInvalidDPR 0 False s
      | Some cause \<Rightarrow>
          if \<not> bound (fst s) m False then discard (Some m) ProtocolInvalidDPR 0 False s
          else
            let i = i\<lparr>inCause := cause\<rparr>; start = length (snd s);
                s = (if cPeerDPR (fst s) then s
                     else emit (PeerDisconnectDecision cause) (upd (\<lambda>c. c\<lparr>cPeerDPR := True, cPeerCause := cause\<rparr>) s))
            in markDispatch start
                 (if cPhase (fst s) \<noteq> Closing then beginClosing i False (validActivity s)
                  else if \<not> cFrozen (fst s) then discard (Some m) NoKind 0 False s
                  else answerDPR m (inInFlight i) (\<not> cPeerDisconnectSelected (fst s)) s))"

definition completeDPA :: "Message option \<Rightarrow> u32 \<Rightarrow> batch \<Rightarrow> batch" where
  "completeDPA m result s =
     (let s = upd (\<lambda>c. c\<lparr>cEarlyDPA := None, cDisconnectWaiting := False\<rparr>) s;
          s = terminate Closed s;
          s = notifyToken (notice0\<lparr>nKind := DisconnectNotice, nResultCode := result, nOutcome := Completed\<rparr>)
                (cDisconnectToken (fst s)) s
      in if result \<noteq> Success
         then notify (notice0\<lparr>nProtocol := ProtocolPeerRejected, nResultCode := result, nClosing := True,
                        nMessage := metadata m\<rparr>) s
         else s)"

definition dpa :: "Message \<Rightarrow> Input \<Rightarrow> batch \<Rightarrow> batch" where
  "dpa m i s =
     (let c = fst s
      in case cControls c DisconnectPeer of
          None \<Rightarrow> discard (Some m) ProtocolUnexpectedMessage 0 False s
        | Some r \<Rightarrow>
            if \<not> matches c DisconnectPeer (Some m) then discard (Some m) ProtocolUnexpectedMessage 0 False s
            else case ValidateDPA m of
                None \<Rightarrow> discard (Some m) ProtocolInvalidDPA 0 False s
              | Some result \<Rightarrow>
                  if \<not> bound c m False then discard (Some m) ProtocolUnexpectedMessage 0 False s
                  else
                    let s = settle r s; d = cStore (fst s) ! r
                    in if \<not> kQueueWrites (cCfg c) \<and> \<not> ctlWritten d \<and> ctlWriters d \<noteq> 0
                       then upd (\<lambda>c. c\<lparr>cEarlyDPA := Some (i\<lparr>inResultCode := result\<rparr>)\<rparr>) s
                       else completeDPA (Some m) result s)"

definition closingAllowed :: "Input \<Rightarrow> bool" where
  "closingAllowed i \<longleftrightarrow>
     (case inMessage i of
        None \<Rightarrow> False
      | Some m \<Rightarrow>
          (let h = msgHeader m
           in if ApplicationID h = 0 \<and> CommandCode h = DisconnectPeer then True
              else if ApplicationID h = 0 \<and> (CommandCode h = CapabilitiesExchange \<or> CommandCode h = DeviceWatchdog) then False
              else CommandFlags h AND RequestFlag = 0 \<and> inOwnership i \<noteq> 0))"
section \<open>Handshake\<close>

definition parsedOffer :: "avp list \<Rightarrow> avp list option" where
  "parsedOffer as = (if as = [] then None else Some as)"

text \<open>\<open>AdvertisedApplicationIDs\<close> of settings that hold the three lists of a parsed CER or CEA only.\<close>

definition remoteOffer :: "avp list \<Rightarrow> avp list \<Rightarrow> avp list \<Rightarrow> u32 list" where
  "remoteOffer auth acct vendorSpecific =
     AdvertisedApplicationIDs \<lparr>cfgOriginHost = [], cfgOriginRealm = [], cfgVendorID = 0, cfgProductName = [],
       cfgOriginStateID = 0, cfgFirmwareRevision = 0, cfgHostIPAddresses = [], cfgResolveHostIPAddresses = None,
       cfgSupportedVendorID = None, cfgAcctApplicationID = parsedOffer acct, cfgAuthApplicationID = parsedOffer auth,
       cfgVendorSpecificApplicationID = parsedOffer vendorSpecific, cfgInbandSecurityID = 0, cfgApplications = []\<rparr>"

definition negotiate :: "bytes \<Rightarrow> bytes \<Rightarrow> u32 list \<Rightarrow> Core \<Rightarrow> Core" where
  "negotiate host realm apps c =
     (let mine = listOf (capsLocalApplications (cCaps c));
          common = (if relayID \<in> set mine then apps
                    else filter (\<lambda>i. i \<in> set apps \<or> relayID \<in> set apps) mine)
      in c\<lparr>cCaps := (cCaps c)\<lparr>capsHost := host, capsRealm := realm, capsRemoteApplications := apps,
                               capsCommonApplications := common\<rparr>\<rparr>)"

definition handshakeReady :: "batch \<Rightarrow> batch" where
  "handshakeReady s =
     (let s = upd (\<lambda>c. c\<lparr>cCallbackReady := True\<rparr>) s in emit (HandshakeReady (cAdmission (fst s)) (Core_Snapshot (fst s))) s)"

definition rejectCER :: "Message \<Rightarrow> base_error option \<Rightarrow> batch \<Rightarrow> batch" where
  "rejectCER m err s =
     (let code = (case err of
                    Some ErrNoCommonApplication \<Rightarrow> NoCommonApplication
                  | Some ErrNoCommonSecurity \<Rightarrow> NoCommonSecurity
                  | _ \<Rightarrow> UnableToComply)
      in case err of
          Some (BMessage me) \<Rightarrow> reject m ProtocolCERRejected me s
        | _ \<Rightarrow>
            (case BuildCEA m (kLocal (cCfg (fst s))) code of
               Inl e \<Rightarrow> failedRejection (Some m) ProtocolCERRejected code s
             | Inr answer \<Rightarrow>
                 send answer None True True False
                   (Some (notice0\<lparr>nProtocol := ProtocolCERRejected, nResultCode := code, nReplyCode := code, nClosing := True,
                            nMessage := metadata (Some m)\<rparr>)) None False (upd (setTerminal True) s)))"

definition candidate :: "Message \<Rightarrow> batch \<Rightarrow> batch" where
  "candidate m s =
     (let s = upd (\<lambda>c. c\<lparr>cPassiveResponder := False\<rparr>) s; c = fst s; cfg = cCfg c
      in case CER_Parse m \<lparr>optRole = Server, optTLS = kTLS cfg, optDictionary = Some (kDictionary cfg),
               optLocalApplications = capsLocalApplications (cCaps c)\<rparr> of
          Inl (failed, e) \<Rightarrow> rejectCER m (Some e) s
        | Inr parsed \<Rightarrow>
            if kExpectedHost cfg \<noteq> [] \<and> \<not> equalIdentity (kExpectedHost cfg) (cerOriginHost parsed) then rejectCER m None s
            else
              let s = upd (\<lambda>c. c\<lparr>cCaps := (cCaps c)\<lparr>capsCER := Some parsed, capsParsedApplications := cerAppID parsed\<rparr>\<rparr>) s;
                  s = upd (negotiate (cerOriginHost parsed) (cerOriginRealm parsed)
                        (remoteOffer (cerAuthApplicationID parsed) (cerAcctApplicationID parsed)
                          (cerVendorSpecificApplicationID parsed))) s
              in case token s of (t, s) \<Rightarrow>
                let s = upd (\<lambda>c. c\<lparr>cCandidateToken := t, cCer := Some m\<rparr>) s; snapshot = Core_Snapshot (fst s);
                    s = (if kCandidateDeadlineOwnedByPeer cfg then stop HandshakeTimer s else s)
                in emit (ValidatedCER t snapshot) s)"

definition activate :: "Input \<Rightarrow> batch \<Rightarrow> batch" where
  "activate i s =
     (let c = fst s
      in if cPhase c \<noteq> PreCER \<or> cCandidateToken c = 0 \<or> inToken i \<noteq> cCandidateToken c then s
         else
           let s = upd (\<lambda>c. c\<lparr>cCandidateToken := 0\<rparr>) s;
               s = (if inRecovery i then upd (\<lambda>c. c\<lparr>cWd := (cWd c)\<lparr>wdState := WdDown\<rparr>\<rparr>) s else s);
               s = upd (\<lambda>c. c\<lparr>cPhase := Open, cHandshakePending := True\<rparr>) s
           in case token s of (t, s) \<Rightarrow>
             let s = stop HandshakeTimer (upd (\<lambda>c. c\<lparr>cAdmission := t\<rparr>) s);
                 s = emit (Publish t (Core_Snapshot (fst s))) s
             in case cCer c of
                 None \<Rightarrow> s
               | Some cer \<Rightarrow>
                   (case BuildCEA cer (kLocal (cCfg c)) Success of
                      Inl e \<Rightarrow> fail (Some cer) ProtocolReplyFailure Success s
                    | Inr answer \<Rightarrow> send answer None True False True None (Some cer) False s))"

definition setHandshake :: "core_error \<Rightarrow> Core \<Rightarrow> Core" where
  "setHandshake e c = c\<lparr>cHandshake := Some e\<rparr>"

definition acceptCEA :: "nat \<Rightarrow> Message \<Rightarrow> CEA \<Rightarrow> batch \<Rightarrow> batch" where
  "acceptCEA r m parsed s =
     (let s = emit (CompleteRequest (metadata (Some m))) s;
          s = stop RetryTimer (stop HandshakeTimer (settle r s));
          s = upd (\<lambda>c. c\<lparr>cHandshake := None, cCompletedCEA := Some (msgHeader m),
                cCaps := (cCaps c)\<lparr>capsCEA := Some parsed, capsParsedApplications := ceaAppID parsed\<rparr>\<rparr>) s;
          s = upd (negotiate (ceaOriginHost parsed) (ceaOriginRealm parsed)
                (remoteOffer (ceaAuthApplicationID parsed) (ceaAcctApplicationID parsed)
                  (ceaVendorSpecificApplicationID parsed))) s;
          s = upd (\<lambda>c. c\<lparr>cPhase := Open, cHandshakePending := True\<rparr>) s
      in case token s of (t, s) \<Rightarrow>
        let s = upd (\<lambda>c. c\<lparr>cAdmission := t\<rparr>) s
        in handshakeReady (emit (Publish t (Core_Snapshot (fst s))) s))"

definition parseCode :: "base_error \<Rightarrow> u32" where
  "parseCode e = (case e of ErrFailedResultCode code \<Rightarrow> code | BMessage me \<Rightarrow> meResultCode me | _ \<Rightarrow> 0)"

definition cea :: "Message \<Rightarrow> Input \<Rightarrow> batch \<Rightarrow> batch" where
  "cea m i s =
     (let c = fst s; cfg = cCfg c;
          fatalInput = (case inError i of Some e \<Rightarrow> meFatal e | None \<Rightarrow> False)
      in if \<not> FatalHeaderError (inError i) \<and> \<not> matches c CapabilitiesExchange (Some m) then
           (if fatalInput \<and> \<not> kReaderOwnsMessageErrorClosure cfg then fail (Some m) ProtocolUnexpectedMessage 0 s
            else discard (Some m) ProtocolUnexpectedMessage 0 fatalInput s)
         else case inError i of
             Some me \<Rightarrow> fail (Some m) ProtocolCEARejected (meResultCode me) (upd (setHandshake (MessageFault me)) s)
           | None \<Rightarrow>
         (case ValidateMessage (kCanonical cfg) m of
            Some me \<Rightarrow>
              fail (Some m) (if ValidateHeader m \<noteq> None then ProtocolInvalidHeader else AnswerErrorKind m) (meResultCode me)
                (upd (setHandshake (MessageFault me)) s)
          | None \<Rightarrow>
         (case CEA_Parse m \<lparr>optRole = Client, optTLS = False, optDictionary = Some (kDictionary cfg),
                 optLocalApplications = capsLocalApplications (cCaps c)\<rparr> of
            Inl e \<Rightarrow> fail (Some m) ProtocolCEARejected (parseCode e) (upd (setHandshake (ParseError e)) s)
          | Inr parsed \<Rightarrow>
              if kExpectedHost cfg \<noteq> [] \<and> \<not> equalIdentity (kExpectedHost cfg) (ceaOriginHost parsed)
              then fail (Some m) ProtocolCEARejected 0 (upd (setHandshake ErrUnexpectedPeer) s)
              else (case cControls c CapabilitiesExchange of None \<Rightarrow> s | Some r \<Rightarrow> acceptCEA r m parsed s))))"

section \<open>Reservations and write results\<close>

text \<open>The random identifiers a builder draws are replaced by the reserved ones.\<close>

definition buildControl :: "Core \<Rightarrow> u32 \<Rightarrow> Reservation \<Rightarrow> build_error + Message" where
  "buildControl c cmd r =
     sbind (let cfg = cCfg c
            in if cmd = CapabilitiesExchange then BuildCER (kDictionary cfg) (kLocal cfg) 0 0
               else if cmd = DeviceWatchdog then BuildDWR (kDictionary cfg) (kLocal cfg) (cfgOriginStateID (kLocal cfg)) 0 0
               else BuildDPR (kDictionary cfg) (kLocal cfg) (cCloseCause c) 0 0)
       (\<lambda>m. Inr (m\<lparr>msgHeader := (msgHeader m)\<lparr>HopByHopID := resHop r, EndToEndID := resEnd r\<rparr>\<rparr>))"

definition newControl :: "u32 \<Rightarrow> Reservation \<Rightarrow> control" where
  "newControl cmd r = \<lparr>ctlCommand = cmd, ctlReservation = r, ctlHeader = zeroHeader, ctlFrame = None, ctlLogical = True,
     ctlAnswered = False, ctlReleased = False, ctlWritten = False, ctlWriters = 0, ctlAttempts = 0\<rparr>"

definition addControl :: "u32 \<Rightarrow> control \<Rightarrow> Core \<Rightarrow> Core" where
  "addControl cmd r c = c\<lparr>cControls := (cControls c)(cmd \<mapsto> length (cStore c)), cStore := cStore c @ [r]\<rparr>"

definition reserved :: "Input \<Rightarrow> batch \<Rightarrow> batch" where
  "reserved i s =
     (case cReservations (fst s) (inToken i) of
        None \<Rightarrow> s
      | Some cmd \<Rightarrow>
          let s = upd (\<lambda>c. c\<lparr>cReservations := (cReservations c)(inToken i := None)\<rparr>) s; c = fst s
          in if inErr i then
               (if over (cPhase c) then s
                else terminate Closed (if cmd = CapabilitiesExchange then upd (setHandshake ExternalError) s else s))
             else if over (cPhase c) \<or> cmd = DeviceWatchdog \<and> cPhase c \<noteq> Open then emit (ReleaseIDs (inReservation i)) s
             else case buildControl c cmd (inReservation i) of
                 Inl e \<Rightarrow>
                   let s = upd (addControl cmd (newControl cmd (inReservation i))) s
                   in terminate Closed (if cmd = CapabilitiesExchange then upd (setHandshake (BuildError e)) s else s)
               | Inr m \<Rightarrow>
                   let r = (newControl cmd (inReservation i))\<lparr>ctlHeader := msgHeader m, ctlFrame := Some m\<rparr>
                   in send m (Some (length (cStore c))) False False False None None False (upd (addControl cmd r) s))"

definition dropOperation :: "nat \<Rightarrow> Core \<Rightarrow> Core" where
  "dropOperation t c = c\<lparr>cOperations := filter (\<lambda>(u, op). u \<noteq> t) (cOperations c)\<rparr>"

definition setOperation :: "nat \<Rightarrow> (operation \<Rightarrow> operation) \<Rightarrow> Core \<Rightarrow> Core" where
  "setOperation t f c = c\<lparr>cOperations := map (\<lambda>(u, op). (u, if u = t then f op else op)) (cOperations c)\<rparr>"

text \<open>A writer ends: its operation is deleted and its control is released if nothing holds it.\<close>

definition endWriter :: "nat \<Rightarrow> operation \<Rightarrow> batch \<Rightarrow> batch" where
  "endWriter t op s =
     (let s = upd (dropOperation t) s
      in case opControl op of
          None \<Rightarrow> s
        | Some r \<Rightarrow> release r (upd (setControl r (\<lambda>r. r\<lparr>ctlWriters := ctlWriters r - 1\<rparr>)) s))"

definition skippedControl :: "Input \<Rightarrow> nat \<Rightarrow> batch \<Rightarrow> batch" where
  "skippedControl i r s =
     (let s = upd (dropOperation (inToken i)) s;
          logical = ctlLogical (cStore (fst s) ! r);
          s = upd (setControl r (\<lambda>r. r\<lparr>ctlWriters := ctlWriters r - 1\<rparr>)) s;
          s = upd (setControl r (\<lambda>r. if ctlWriters r = 0 \<and> \<not> ctlWritten r then r\<lparr>ctlLogical := False\<rparr> else r)) s;
          s = release r s; c = fst s; d = cStore c ! r
      in if kKeepCERDeadlineAfterTransportLoss (cCfg c) \<and> cPhase c = WaitCEA \<and> ctlCommand d = CapabilitiesExchange then
           terminate Closed (upd (setHandshake (if inErr i then ExternalError else ErrShortWrite)) s)
         else if ctlCommand d = DeviceWatchdog \<and> \<not> ctlWritten d \<and> logical then
           (let s = upd (\<lambda>c. setWdNext None (setWd ((cWd c)\<lparr>Pending := False\<rparr>) c)) s; c = fst s
            in if kWatchdog (cCfg c) \<and> cPhase c = Open \<and> fst (cTimers c WatchdogTimer) = 0
               then watchdogArm (inAt i) (inInterval i) s else s)
         else s)"

definition failedWrite :: "Input \<Rightarrow> operation \<Rightarrow> batch \<Rightarrow> batch" where
  "failedWrite i op s =
     (let c = fst s;
          s = (if kKeepCERDeadlineAfterTransportLoss (cCfg c) \<and> cPhase c = WaitCEA \<and>
                  (case opControl op of None \<Rightarrow> False | Some r \<Rightarrow> ctlCommand (cStore c ! r) = CapabilitiesExchange)
               then upd (setHandshake (if inErr i then ExternalError else ErrShortWrite)) s else s);
          s = terminate Closed s
      in if \<not> opRequired op then s
         else notify (case opNotice op of
                 Some n \<Rightarrow>
                   if \<not> opReported op \<and> nProtocol n \<noteq> NoKind
                   then n\<lparr>nReply := ReplyFailed, nReplyCode := inReplyCode i, nClosing := True\<rparr>
                   else notice0\<lparr>nProtocol := ProtocolReplyFailure, nReply := ReplyFailed, nReplyCode := inReplyCode i,
                          nClosing := True, nMessage := opMessage op\<rparr>
               | None \<Rightarrow> notice0\<lparr>nProtocol := ProtocolReplyFailure, nReply := ReplyFailed, nReplyCode := inReplyCode i,
                           nClosing := True, nMessage := opMessage op\<rparr>) s)"

text \<open>The report at the owner's boundary: the notice of a reply, the completed handshake, the published
  watchdog request, the retry deadline of a CER.\<close>

definition reportWrite :: "Input \<Rightarrow> operation \<Rightarrow> batch \<Rightarrow> batch" where
  "reportWrite i op s =
     (let s = upd (setOperation (inToken i) (\<lambda>op. op\<lparr>opReported := True\<rparr>)) s;
          s = (case opNotice op of
                 None \<Rightarrow> s
               | Some n \<Rightarrow> notify (n\<lparr>nReplyCode := inReplyCode i,
                             nReply := (if inStage i = QueueStage then ReplyQueued else ReplyWritten)\<rparr>) s);
          s = (if opHandshake op \<and> cPhase (fst s) = Open then handshakeReady s else s)
      in case opControl op of
          None \<Rightarrow> s
        | Some r \<Rightarrow>
            let d = cStore (fst s) ! r
            in if \<not> ctlLogical d then s
               else
                 let s = (if ctlCommand d = DeviceWatchdog then watchdogPublished (inAt i) (inInterval i) s else s)
                 in if ctlCommand d = CapabilitiesExchange \<and> kCERInterval (cCfg (fst s)) > 0
                    then arm RetryTimer (inAt i) (kCERInterval (cCfg (fst s))) s else s)"

definition shortWrite :: "Input \<Rightarrow> operation \<Rightarrow> bool" where
  "shortWrite i op \<longleftrightarrow> inStage i = SkippedStage \<or>
     inStage i = WrittenStage \<and> inBytes i \<noteq> (if inExpectedBytes i = 0 then opLength op else inExpectedBytes i)"

definition isDPR :: "Core \<Rightarrow> operation \<Rightarrow> bool" where
  "isDPR c op \<longleftrightarrow> (case opControl op of None \<Rightarrow> False | Some r \<Rightarrow> ctlCommand (cStore c ! r) = DisconnectPeer)"

definition writtenWrite :: "Input \<Rightarrow> operation \<Rightarrow> batch \<Rightarrow> batch" where
  "writtenWrite i op s =
     (case (if inStage i = WrittenStage \<and> isDPR (fst s) op then cEarlyDPA (fst s) else None) of
        Some saved \<Rightarrow> completeDPA (inMessage saved) (inResultCode saved) s
      | None \<Rightarrow>
          let s = (if opCloseAfter op \<and> inStage i = WrittenStage then terminate Closed s else s)
          in if \<not> (inStage i = WrittenStage \<or> kQueueWrites (cCfg (fst s))) \<or> opReported op then s
             else reportWrite i op s)"

definition writeResult :: "Input \<Rightarrow> batch \<Rightarrow> batch" where
  "writeResult i s =
     (case map_of (cOperations (fst s)) (inToken i) of
        None \<Rightarrow> s
      | Some op \<Rightarrow>
          (case (if inStage i = SkippedStage then opControl op else None) of
             Some r \<Rightarrow> skippedControl i r s
           | None \<Rightarrow>
               let failed = (inErr i \<or> shortWrite i op);
                   s = (case (if inStage i = WrittenStage \<and> \<not> failed then opControl op else None) of
                          None \<Rightarrow> s
                        | Some r \<Rightarrow> upd (setControl r (\<lambda>r. r\<lparr>ctlWritten := True\<rparr>)) s)
               in if inStage i = QueueStage \<and> opQueued op then s
                  else
                    let s = (if inStage i = QueueStage then upd (setOperation (inToken i) (\<lambda>op. op\<lparr>opQueued := \<not> failed\<rparr>)) s else s);
                        s = (if inStage i \<noteq> QueueStage \<or> inErr i then endWriter (inToken i) op s else s)
                    in if over (cPhase (fst s)) then s
                       else if failed then failedWrite i op s
                       else writtenWrite i op s))"

section \<open>Received messages\<close>

definition isRequest :: "Message \<Rightarrow> bool" where
  "isRequest m \<longleftrightarrow> CommandFlags (msgHeader m) AND RequestFlag \<noteq> 0"

definition errorCode :: "Input \<Rightarrow> u32" where
  "errorCode i = (case inError i of Some e \<Rightarrow> meResultCode e | None \<Rightarrow> 0)"

definition localApps :: "Core \<Rightarrow> u32 list" where
  "localApps c = listOf (capsLocalApplications (cCaps c))"

definition checkRequest :: "Core \<Rightarrow> Message \<Rightarrow> message_error option \<Rightarrow> RequestError option" where
  "checkRequest c m me = ValidateRequest m (localApps c) (kValidateRequests (cCfg c)) (kRejectUnknownMandatoryAVPs (cCfg c)) me"

definition pauseHook :: "Message \<Rightarrow> Input \<Rightarrow> batch \<Rightarrow> batch" where
  "pauseHook m i s =
     (case token s of (t, s) \<Rightarrow>
        let saved = \<lparr>conInput = i, conRepeatedCER = (cPhase (fst s) = Open \<and> CommandCode (msgHeader m) = CapabilitiesExchange)\<rparr>;
            s = upd (\<lambda>c. c\<lparr>cContinuations := (cContinuations c)(t \<mapsto> saved)\<rparr>) s;
            s = (if cPhase (fst s) = PreCER then upd (\<lambda>c. c\<lparr>cPassiveResponder := False, cHookToken := t\<rparr>) s else s)
        in emit (RunHook t m) s)"

definition externalMessageError :: "Message \<Rightarrow> ProtocolErrorKind \<Rightarrow> message_error \<Rightarrow> bool \<Rightarrow> batch \<Rightarrow> batch" where
  "externalMessageError m kind me originalFatal s =
     (let c = fst s;
          n = notice0\<lparr>nProtocol := kind, nMessage := metadata (Some m), nClosing := originalFatal, nResultCode := meResultCode me\<rparr>
      in if cPhase c = Closing \<or> \<not> isRequest m then notify n (emit Discard s)
         else
           let (kind, code, failed) =
                 (case checkRequest c m (Some me) of
                    Some r \<Rightarrow>
                      if \<not> IsCommand m \<and> \<not> meFatal me then (reKind r, reCode r, reFailed r)
                      else (kind, meResultCode me, case meFailedAVP me of None \<Rightarrow> [] | Some f \<Rightarrow> [f])
                  | None \<Rightarrow> (kind, meResultCode me, case meFailedAVP me of None \<Rightarrow> [] | Some f \<Rightarrow> [f]));
               n = n\<lparr>nProtocol := kind, nResultCode := code\<rparr>
           in case BuildErrorAnswer m (kLocal (cCfg c)) code failed (protocolCode code) of
               Inl e \<Rightarrow> failedRejection (Some m) kind code s
             | Inr answer \<Rightarrow>
                 let terminal = (CommandCode (msgHeader m) = CapabilitiesExchange \<and>
                       (if kCloseCEROnInvalidHeaderBitsOnly (cCfg c) then code = InvalidHDRBits else ValidateHeader m \<noteq> None))
                 in send answer None True terminal False (Some (if terminal then n\<lparr>nClosing := True\<rparr> else n)) None False
                      (upd (setTerminal terminal) s))"

definition messageError :: "Message \<Rightarrow> message_error \<Rightarrow> Input \<Rightarrow> bool \<Rightarrow> batch \<Rightarrow> batch" where
  "messageError m me i originalFatal s =
     (let c = fst s;
          kind = (if ValidateHeader m \<noteq> None \<and> \<not> FatalHeaderError (Some me) then ProtocolInvalidHeader else ProtocolMalformedMessage)
      in if cPassiveResponder c \<and> inErrorInput i \<or>
            kReaderOwnsMessageErrorClosure (cCfg c) \<and> (cPhase c = Open \<or> cPhase c = Closing)
         then externalMessageError m kind me originalFatal s
         else if cPhase c = Closing then discard (Some m) kind (meResultCode me) originalFatal s
         else if \<not> isRequest m then
           (if meFatal me then fail (Some m) kind (meResultCode me) s else discard (Some m) kind (meResultCode me) False s)
         else case checkRequest c m (Some me) of
             Some r \<Rightarrow> if \<not> IsCommand m \<and> \<not> meFatal me then requestError m r s else reject m kind me s
           | None \<Rightarrow> reject m kind me s)"

definition unhandled :: "Message option \<Rightarrow> batch \<Rightarrow> batch" where
  "unhandled msg s =
     (let c = fst s
      in if cPhase c \<noteq> Open \<or> \<not> cReady c then discard msg NoKind 0 False s
         else case msg of
             None \<Rightarrow> discard msg NoKind 0 False s
           | Some m \<Rightarrow>
               if \<not> isRequest m then discard msg ProtocolUnexpectedMessage 0 False s
               else if SupportsApplication (localApps c) (ApplicationID (msgHeader m))
               then requestError m \<lparr>reKind = ProtocolUnsupportedCommand, reCode = CommandUnsupported, reFailed = []\<rparr> s
               else requestError m \<lparr>reKind = ProtocolUnsupportedApplication, reCode = ApplicationUnsupported, reFailed = []\<rparr> s)"

definition applicationMessage :: "Message \<Rightarrow> Input \<Rightarrow> batch \<Rightarrow> batch" where
  "applicationMessage m i s =
     (let reopen = (\<lambda>s. kWatchdog (cCfg (fst s)) \<and> wdState (cWd (fst s)) = WdReopen)
      in if reopen s then discard (Some m) NoKind 0 False s
         else if inUnhandled i \<and> isRequest m then
           unhandled (Some m)
             (if SupportsApplication (localApps (fst s)) (ApplicationID (msgHeader m)) then validActivity s else s)
         else
           let s = validActivity s
           in if reopen s then discard (Some m) NoKind 0 False s else emit (Admit m (inOwnership i)) s)"

definition handledAnswer :: "Message \<Rightarrow> Input \<Rightarrow> batch \<Rightarrow> batch" where
  "handledAnswer m i s =
     (if inHasHandler i then emit (Admit m 0) s else discard (Some m) ProtocolUnexpectedMessage 0 False s)"

definition dispatch :: "Message \<Rightarrow> Input \<Rightarrow> batch \<Rightarrow> batch" where
  "dispatch m i s =
     (let h = msgHeader m
      in if ApplicationID h = 0 \<and> CommandCode h = DeviceWatchdog then
           (if \<not> isRequest m then handledAnswer m i s
            else if kHooks (cCfg (fst s)) then pauseHook m i s else dwr m s)
         else if ApplicationID h = 0 \<and> CommandCode h = DisconnectPeer then
           (if isRequest m then dpr m i s else dpa m i s)
         else if ApplicationID h = 0 \<and> CommandCode h = CapabilitiesExchange then handledAnswer m i s
         else applicationMessage m i s)"

definition repeatedCER :: "Message \<Rightarrow> Input \<Rightarrow> batch \<Rightarrow> batch" where
  "repeatedCER m i s =
     (let c = fst s; plain = (inError i = None \<and> \<not> inErrorInput i)
      in if cPassiveResponder c \<and> cPassiveCER c \<and> plain then discard (Some m) NoKind 0 False s
         else
           let s = (if inError i = None \<and> ValidateMessage (kCanonical (cCfg c)) m = None \<and> checkRequest c m None = None \<and>
                       bound c m True then validActivity s else s)
           in if kHooks (cCfg c) \<and> plain then pauseHook m i s
              else discard (Some m) ProtocolUnexpectedMessage 0 False s)"

text \<open>The part of \<open>receive\<close> after the header has been judged; \<open>start\<close> is the first effect of this input.\<close>

definition receiveBody :: "Message \<Rightarrow> Input \<Rightarrow> nat \<Rightarrow> batch \<Rightarrow> batch" where
  "receiveBody m i start s =
     (let c = fst s; h = msgHeader m
      in if inErrorInput i then discard (Some m) ProtocolMalformedMessage 0 False s
         else if cPhase c = Open \<and> kWatchdog (cCfg c) \<and> CommandCode h = DeviceWatchdog \<and> \<not> isRequest m
         then markDispatch start (dwa m s)
         else case ValidateMessage (kCanonical (cCfg c)) m of
             Some e \<Rightarrow>
               if isRequest m then reject m ProtocolInvalidRequest e s
               else discard (Some m) (AnswerErrorKind m) (meResultCode e) False s
           | None \<Rightarrow>
               (case checkRequest c m None of
                  Some r \<Rightarrow> requestError m r s
                | None \<Rightarrow>
                    if cPhase c = PreCER then (if kHooks (cCfg c) then pauseHook m i s else candidate m s)
                    else if CommandCode h \<noteq> CapabilitiesExchange \<and>
                            \<not> (ApplicationID h = 0 \<and> CommandCode h = DisconnectPeer \<and> isRequest m)
                    then markDispatch start (dispatch m i s)
                    else dispatch m i s))"

definition receiveAdmitted :: "Message \<Rightarrow> Input \<Rightarrow> batch \<Rightarrow> batch" where
  "receiveAdmitted m i s =
     (let start = length (snd s); s = activity i s; c = fst s; h = msgHeader m;
          base = (CommandCode h = CapabilitiesExchange \<and> ApplicationID h = 0)
      in if \<not> inErrorInput i \<and> cPhase c = Open \<and> kRole (cCfg c) = Initiator \<and> base \<and> \<not> isRequest m \<and> inError i = None
         then discard (Some m) ProtocolUnexpectedMessage 0 False s
         else
           let originalFatal = (case inError i of Some e \<Rightarrow> meFatal e | None \<Rightarrow> False);
               headerErr = ValidateHeader m;
               i = (case headerErr of
                      Some e \<Rightarrow>
                        if FatalHeaderError (inError i) then i
                        else i\<lparr>inError := Some (MessageErr (meResultCode e) (meFailedAVP e) originalFatal)\<rparr>
                    | None \<Rightarrow> i);
               fatalCER = (case inError i of Some e \<Rightarrow> meFatal e | None \<Rightarrow> False)
           in if cPhase c = Open \<and> base \<and> isRequest m \<and> headerErr = None \<and> \<not> FatalHeaderError (inError i) \<and> \<not> fatalCER
              then repeatedCER m i s
              else case inError i of
                  Some me \<Rightarrow> messageError m me i originalFatal s
                | None \<Rightarrow> receiveBody m i start s)"

definition receiveMessage :: "Message \<Rightarrow> Input \<Rightarrow> batch \<Rightarrow> batch" where
  "receiveMessage m i s =
     (let c = fst s; h = msgHeader m; isCERRequest = (CommandCode h = CapabilitiesExchange \<and> isRequest m);
          preAdmission = (cPhase c = PreCER \<or> cPhase c = Closing \<and> cPassiveResponder c \<and> \<not> cPassivePresent c)
      in if cPhase c = WaitCEA \<or> cPhase c = PreCER \<and> kRole (cCfg c) = Initiator then
           (if CommandCode h = CapabilitiesExchange \<and> ApplicationID h = 0 \<and> \<not> isRequest m then cea m i s
            else fail (Some m) ProtocolHandshakeState (errorCode i) s)
         else if preAdmission \<and> (\<not> isCERRequest \<or> cCandidateToken c \<noteq> 0) then
           fail (Some m) ProtocolHandshakeState
             (case inError i of
                Some e \<Rightarrow> meResultCode e
              | None \<Rightarrow> (case ValidateHeader m of Some e \<Rightarrow> meResultCode e | None \<Rightarrow> 0)) s
         else receiveAdmitted m i s)"

definition receiveNil :: "Input \<Rightarrow> batch \<Rightarrow> batch" where
  "receiveNil i s =
     (let c = fst s
      in if kIgnoreBoundHeaderlessInput (cCfg c) then
           (if cPhase c \<noteq> PreCER \<or> kRole (cCfg c) = Initiator \<or> cCandidateToken c \<noteq> 0 then s
            else fail None ProtocolHandshakeState (errorCode i) s)
         else fail None ProtocolMalformedMessage 0 s)"

definition receive :: "Input \<Rightarrow> batch \<Rightarrow> batch" where
  "receive i s =
     (let c = fst s; report = (cPassiveResponder c \<and> inErrorInput i)
      in if report \<and> inTransportClosed i then discard (inMessage i) NoKind 0 False s
         else if report \<and> inMessage i = None \<and> cPhase c = Closing then fail None ProtocolMalformedMessage 0 s
         else if cTerminal c \<or> cPhase c = Closing \<and> \<not> closingAllowed i then discard (inMessage i) NoKind 0 False s
         else if cHookToken c \<noteq> 0 \<or> cPhase c = Open \<and> \<not> cReady c then emit (Hold i) s
         else case inMessage i of None \<Rightarrow> receiveNil i s | Some m \<Rightarrow> receiveMessage m i s)"

section \<open>Dispatcher\<close>

definition expire :: "Input \<Rightarrow> batch \<Rightarrow> batch" where
  "expire i s =
     (let c = fst s; timer = inTimer i; (t, deadline) = cTimers c timer
      in if t = 0 \<or> t \<noteq> inToken i \<or> inAt i < deadline then s
         else if timer = WatchdogTimer then watchdogExpired i s
         else
           let kind = (if timer = ClosingTimer \<or> timer = ReceiverDisconnectTimer
                       then ProtocolDisconnectTimeout else ProtocolHandshakeTimeout);
               retry = (case cControls c CapabilitiesExchange of
                          None \<Rightarrow> None
                        | Some r \<Rightarrow>
                            let d = cStore c ! r
                            in if timer = RetryTimer \<and> ctlLogical d \<and> ctlAttempts d \<le> kMaxRetransmits (cCfg c)
                               then map_option (\<lambda>m. (r, m)) (ctlFrame d) else None)
           in case retry of
               Some (r, m) \<Rightarrow> send m (Some r) False False False None None False (stop RetryTimer s)
             | None \<Rightarrow>
                 if timer = ClosingTimer \<and> cDisconnectWaiting c \<and> \<not> cCloseLocal c \<and> fst (cTimers c ReceiverDisconnectTimer) \<noteq> 0
                 then notify (notice0\<lparr>nProtocol := kind, nClosing := True\<rparr>) (terminate Closed s)
                 else fail (inMessage i) kind 0 s)"

definition sameExchange :: "Header \<Rightarrow> Header \<Rightarrow> bool" where
  "sameExchange h original \<longleftrightarrow> CommandCode h = CommandCode original \<and> ApplicationID h = ApplicationID original \<and>
     CommandFlags h AND RequestFlag = CommandFlags original AND RequestFlag \<and>
     HopByHopID h = HopByHopID original \<and> EndToEndID h = EndToEndID original"

definition continue :: "Input \<Rightarrow> batch \<Rightarrow> batch" where
  "continue i s =
     (case cContinuations (fst s) (inToken i) of
        None \<Rightarrow> s
      | Some pending \<Rightarrow>
          let s = upd (\<lambda>c. c\<lparr>cContinuations := (cContinuations c)(inToken i := None),
                             cHookToken := (if cHookToken c = inToken i then 0 else cHookToken c)\<rparr>) s; cfg = cCfg (fst s)
          in if inTransportClosed i then terminate Closed s
             else case inMessage (conInput pending) of
                 None \<Rightarrow> fail (inMessage i) ProtocolMalformedMessage 0 s
               | Some saved \<Rightarrow>
                   let original = msgHeader saved; m = (case inMessage i of Some m \<Rightarrow> m | None \<Rightarrow> saved)
                   in if \<not> sameExchange (msgHeader m) original then fail (Some m) ProtocolInvalidHeader InvalidHDRBits s
                      else if conRepeatedCER pending then discard (Some m) ProtocolUnexpectedMessage 0 False s
                      else if CommandCode original = DeviceWatchdog \<and> kSkipDWRGrammarAfterHook cfg then dwr m s
                      else case ValidateMessage (kCanonical cfg) m of
                          Some e \<Rightarrow>
                            if CommandCode original = CapabilitiesExchange then reject m ProtocolCERRejected e s
                            else discard (Some m) ProtocolInvalidDWR (meResultCode e) False s
                        | None \<Rightarrow> if CommandCode original = DeviceWatchdog then dwr m s else candidate m s)"

definition start :: "Input \<Rightarrow> batch \<Rightarrow> batch" where
  "start i s =
     (let c = fst s; cfg = cCfg c
      in if cStarted c \<or> cPhase c \<noteq> PreCER then s
         else
           let s = upd (\<lambda>c. c\<lparr>cStarted := True\<rparr>) s
           in if kRole cfg = Initiator \<and> inDeferCER i then upd (\<lambda>c. c\<lparr>cPhase := WaitCEA, cCERDeferred := True\<rparr>) s
              else
                let s = arm HandshakeTimer (inAt i) (kHandshakeTimeout cfg) s
                in if kRole cfg = Initiator
                   then reserve CapabilitiesExchange (upd (\<lambda>c. c\<lparr>cPhase := WaitCEA, cHandshakePending := True\<rparr>) s)
                   else s)"

definition beginCER :: "Input \<Rightarrow> batch \<Rightarrow> batch" where
  "beginCER i s =
     (if \<not> cCERDeferred (fst s) \<or> cPhase (fst s) \<noteq> WaitCEA then s
      else reserve CapabilitiesExchange (arm HandshakeTimer (inAt i) (kHandshakeTimeout (cCfg (fst s)))
             (upd (\<lambda>c. c\<lparr>cCERDeferred := False\<rparr>) s)))"

definition rejectCandidate :: "Input \<Rightarrow> batch \<Rightarrow> batch" where
  "rejectCandidate i s =
     (let c = fst s; code = inResultCode i
      in if cCandidateToken c = 0 \<or> inToken i \<noteq> cCandidateToken c then s
         else if code = 0 then terminate Closed s
         else case cCer c of
             None \<Rightarrow> s
           | Some cer \<Rightarrow>
               let s = upd (\<lambda>c. c\<lparr>cCandidateToken := 0, cTerminal := True\<rparr>) s
               in case BuildCEA cer (kLocal (cCfg c)) code of
                   Inl e \<Rightarrow> failedRejection (Some cer) ProtocolCERRejected code s
                 | Inr answer \<Rightarrow>
                     send answer None True True False
                       (Some (notice0\<lparr>nProtocol := ProtocolCERRejected, nResultCode := code, nClosing := True,
                                nMessage := metadata (Some cer)\<rparr>)) None False s)"

definition releaseAdmission :: "Input \<Rightarrow> batch \<Rightarrow> batch" where
  "releaseAdmission i s =
     (let c = fst s
      in if cPhase c \<noteq> Open \<or> inToken i = 0 \<or> inToken i \<noteq> cAdmission c \<or> cReady c \<or> \<not> cCallbackReady c then s
         else watchdogUp (inAt i) (inInterval i)
                (notify (notice0\<lparr>nKind := HandshakeNotice\<rparr>) (upd (\<lambda>c. c\<lparr>cReady := True, cHandshakePending := False\<rparr>) s)))"

text \<open>\<open>Receive\<close>: a held message does not count as received; an expiry that waited for it runs afterwards.\<close>

definition isHold :: "nat \<Rightarrow> Effect list \<Rightarrow> bool" where
  "isHold n es \<longleftrightarrow> length es = n + 1 \<and> (case eKind (es ! n) of Hold i \<Rightarrow> True | _ \<Rightarrow> False)"

definition receiveInput :: "Input \<Rightarrow> batch \<Rightarrow> batch" where
  "receiveInput i s =
     (let n = length (snd s); s = receive i s
      in if isHold n (snd s) then s
         else
           let s = upd (\<lambda>c. c\<lparr>cReceivedSequence := max (cReceivedSequence c) (inSequence i)\<rparr>) s
           in case cDeferredExpiry (fst s) of
               None \<Rightarrow> s
             | Some pending \<Rightarrow>
                 if inAfterReceive pending \<le> cReceivedSequence (fst s)
                 then expire pending (upd (\<lambda>c. c\<lparr>cDeferredExpiry := None\<rparr>) s) else s)"

definition lateCER :: "Input \<Rightarrow> batch \<Rightarrow> batch" where
  "lateCER i s =
     (let saved = cLateCER (fst s); s = upd (\<lambda>c. c\<lparr>cLateCERToken := 0, cLateCER := None\<rparr>) s
      in if inTransportClosed i then s
         else notify (notice0\<lparr>nProtocol := ProtocolHandshakeState, nClosing := True,
                        nMessage := metadata (Option.bind saved inMessage)\<rparr>) (emit CloseConnection s))"

definition refreshAddresses :: "Address list \<Rightarrow> Core \<Rightarrow> Core" where
  "refreshAddresses as c = c\<lparr>cCfg := (cCfg c)\<lparr>kLocal := (kLocal (cCfg c))\<lparr>cfgHostIPAddresses := as\<rparr>\<rparr>,
     cCaps := (cCaps c)\<lparr>capsLocal := (capsLocal (cCaps c))\<lparr>cfgHostIPAddresses := as\<rparr>\<rparr>\<rparr>"

definition handleLive :: "Input \<Rightarrow> batch \<Rightarrow> batch" where
  "handleLive i s =
     (case inKind i of
        IStart \<Rightarrow> start i s
      | IBeginCER \<Rightarrow> beginCER i s
      | IStopSupervision \<Rightarrow>
          stop WatchdogTimer (upd (\<lambda>c. c\<lparr>cCfg := (cCfg c)\<lparr>kWatchdog := False\<rparr>, cWd := (cWd c)\<lparr>Pending := False\<rparr>, cWdNext := None\<rparr>) s)
      | IRetire \<Rightarrow> terminate Retired s
      | IAbort \<Rightarrow> terminate Closed (upd (\<lambda>c. c\<lparr>cCloseOutcome := Cancelled\<rparr>) s)
      | ITransportLost \<Rightarrow>
          if kKeepCERDeadlineAfterTransportLoss (cCfg (fst s)) \<and> cPhase (fst s) = WaitCEA then s else terminate Closed s
      | IReceive \<Rightarrow> receiveInput i s
      | IContinue \<Rightarrow> continue i s
      | IActivate \<Rightarrow> activate i s
      | IRejectCandidate \<Rightarrow> rejectCandidate i s
      | IReleaseAdmission \<Rightarrow> releaseAdmission i s
      | IDisconnect \<Rightarrow> disconnect i s
      | IFrozen \<Rightarrow> freeze i s
      | IUnhandled \<Rightarrow> unhandled (inMessage i) s
      | ITimerExpired \<Rightarrow> expire i s
      | IReserveResult \<Rightarrow> s
      | IWriteResult \<Rightarrow> s)"

definition HandleInto :: "Input \<Rightarrow> batch \<Rightarrow> batch" where
  "HandleInto i s =
     (let c = fst s
      in if inConnection i \<noteq> kConnection (cCfg c) then s
         else if inKind i = IReserveResult then reserved i s
         else if inKind i = IWriteResult then writeResult i s
         else if cPhase c = Closed \<and> inKind i = IContinue \<and> inToken i = cLateCERToken c \<and> cLateCERToken c \<noteq> 0 then lateCER i s
         else if over (cPhase c) then s
         else handleLive i
                (if inRefreshLocalAddresses i \<and> (cPhase c = PreCER \<or> cPassiveResponder c \<and> inErrorInput i)
                 then upd (refreshAddresses (inLocalAddresses i)) s else s))"

section \<open>Queued replies and external admission\<close>

definition CompleteQueuedReply :: "Input \<Rightarrow> Core \<Rightarrow> bool \<times> Core" where
  "CompleteQueuedReply i c =
     (if inConnection i \<noteq> kConnection (cCfg c) \<or> inKind i \<noteq> IWriteResult \<or> inStage i \<noteq> WrittenStage \<or> inErr i then (False, c)
      else case map_of (cOperations c) (inToken i) of
          None \<Rightarrow> (False, c)
        | Some op \<Rightarrow>
            if \<not> opQueued op \<or> \<not> opReported op \<or> opControl op \<noteq> None \<or> opCloseAfter op \<or> opHandshake op then (False, c)
            else if shortWrite i op then (False, c)
            else (True, dropOperation (inToken i) c))"

record PeerClaims =
  pcHost :: bytes
  pcRealm :: bytes
  pcLocalApplications :: "u32 list option"
  pcRemoteApplications :: "u32 list"
  pcCER :: bool

definition setAdmission :: "Phase \<Rightarrow> bool \<Rightarrow> bool \<Rightarrow> Core \<Rightarrow> Core" where
  "setAdmission phase ready supervise c =
     c\<lparr>cPhase := phase, cReady := ready, cCfg := (cCfg c)\<lparr>kWatchdog := supervise\<rparr>\<rparr>"

definition revokeAdmission :: "Core \<Rightarrow> Core" where
  "revokeAdmission c =
     (let c = c\<lparr>cPassivePresent := False\<rparr>;
          c = (if cPhase c = Open then c\<lparr>cPhase := PreCER, cReady := False\<rparr> else c);
          c = c\<lparr>cCaps := (cCaps c)\<lparr>capsHost := [], capsRealm := [], capsRemoteApplications := [], capsCommonApplications := [],
                            capsLocalApplications := (if cPhase c = PreCER then Some (AdvertisedApplicationIDs (kLocal (cCfg c))) else None)\<rparr>\<rparr>
      in if cPhase c = PreCER then c\<lparr>cCfg := (cCfg c)\<lparr>kWatchdog := cPassiveWatchdog c\<rparr>\<rparr> else c)"

definition grantAdmission :: "PeerClaims \<Rightarrow> Core \<Rightarrow> Core" where
  "grantAdmission p c =
     (let c = c\<lparr>cPassivePresent := True\<rparr>;
          c = (if cPhase c \<noteq> Closing then setAdmission Open True False c else c);
          c = c\<lparr>cPassiveCER := pcCER p, cCaps := (cCaps c)\<lparr>capsLocalApplications := pcLocalApplications p\<rparr>\<rparr>
      in negotiate (pcHost p) (pcRealm p) (pcRemoteApplications p) c)"

definition RefreshAdmission :: "PeerClaims option \<Rightarrow> Core \<Rightarrow> Core" where
  "RefreshAdmission peer c =
     (if \<not> cPassiveResponder c \<or> over (cPhase c) then c
      else case peer of None \<Rightarrow> revokeAdmission c | Some p \<Rightarrow> grantAdmission p c)"

definition NewAdmitted :: "CoreConfig \<Rightarrow> PeerClaims \<Rightarrow> Core option" where
  "NewAdmitted cfg peer =
     map_option (\<lambda>c. RefreshAdmission (Some peer)
         (c\<lparr>cPassiveResponder := True, cPassiveWatchdog := kWatchdog cfg, cStarted := True\<rparr>))
       (New (cfg\<lparr>kRole := Responder\<rparr>))"

definition ExternalAdmission :: "Core \<Rightarrow> bool" where
  "ExternalAdmission c \<longleftrightarrow> cPassiveResponder c \<and> cPassivePresent c"

text \<open>\<open>ValidateMessageError\<close>: whether the reported message error is acceptable.\<close>

definition ValidateMessageError :: "Core \<Rightarrow> Input \<Rightarrow> bool" where
  "ValidateMessageError c i \<longleftrightarrow>
     (let external = ExternalAdmission c; baseCER = (\<lambda>m. CommandCode (msgHeader m) = CapabilitiesExchange \<and> ApplicationID (msgHeader m) = 0)
      in if cPassiveResponder c \<and> inTransportClosed i then True
         else if external \<and> cPhase c = Closing \<and> inMessage i \<noteq> None then True
         else case (inError i, inMessage i) of
             (None, None) \<Rightarrow> False
           | (None, Some m) \<Rightarrow> external \<and> (\<not> isRequest m \<or> baseCER m \<or> ValidateHeader m \<noteq> None)
           | (Some me, None) \<Rightarrow> True
           | (Some me, Some m) \<Rightarrow>
               if cPhase c = WaitCEA \<or> meResultCode me \<noteq> InvalidAVPLength \<or> meFailedAVP me \<noteq> None \<or> \<not> isRequest m then True
               else external \<and>
                 (baseCER m \<and> \<not> meFatal me \<or> ValidateHeader m \<noteq> None \<and> \<not> FatalHeaderError (Some me) \<or>
                  \<not> meFatal me \<and> \<not> IsCommand m \<and>
                    (case checkRequest c m (Some me) of None \<Rightarrow> False | Some r \<Rightarrow> reCode r \<noteq> InvalidAVPLength)))"

end
