(* ===== verification/CoreFrames.thy ===== *)
theory CoreFrames
  imports CoreHandlers
begin

text \<open>
  What the basic operations of the protocol core change. An operation on a batch is described by the
  core it leaves and by the kinds of effects in its history, \<open>hist\<close>; every other field is kept.
\<close>

section \<open>History\<close>

definition hist :: "batch \<Rightarrow> effect list" where
  "hist s = map eKind (snd s)"

lemma hist_simps [simp]:
  "hist (emit k s) = hist s @ [k]"
  "hist (upd f s) = hist s"
  "hist (c, es) = map eKind es"
  by (simp_all add: hist_def emit_def upd_def)

lemma hist_markDispatch [simp]: "hist (markDispatch n s) = hist s"
  by (auto simp: hist_def markDispatch_def nth_list_update intro!: nth_equalityI)

lemma fst_simps [simp]:
  "fst (emit k s) = fst s"
  "fst (upd f s) = f (fst s)"
  "fst (markDispatch n s) = fst s"
  by (simp_all add: emit_def upd_def markDispatch_def)

definition tick :: "Core \<Rightarrow> Core" where
  "tick c = c\<lparr>cSerial := Suc (cSerial c)\<rparr>"

lemma case_token [simp]: "(case token s of (t, s') \<Rightarrow> f t s') = f (Suc (cSerial (fst s))) (upd tick s)"
  by (simp add: token_def tick_def [abs_def])

lemma serial_tick [simp]: "cSerial (tick c) = Suc (cSerial c)"
  by (simp add: tick_def)

lemma notify_simps [simp]:
  "fst (notifyToken n t s) = fst s"
  "fst (notify n s) = fst s"
  by (simp_all add: notify_def notifyToken_def)

section \<open>Operations\<close>

lemma fst_arm: "fst (arm k at d s) = (if d \<le> 0 then fst s else setTimer k (Suc (cSerial (fst s))) (at + d) (tick (fst s)))"
  by (simp add: arm_def)

lemma hist_arm: "hist (arm k at d s) = hist s @ (if d \<le> 0 then [] else [ArmTimer k (Suc (cSerial (fst s))) (at + d)])"
  by (simp add: arm_def)

lemma fst_stop: "fst (stop k s) = (if fst (cTimers (fst s) k) = 0 then fst s else setTimer k 0 0 (fst s))"
  by (simp add: stop_def Let_def)

lemma hist_stop: "hist (stop k s) = hist s @ (if fst (cTimers (fst s) k) = 0 then [] else [StopTimer k (fst (cTimers (fst s) k))])"
  by (simp add: stop_def Let_def)

lemma fst_reserve:
  "fst (reserve cmd s) = (let c = tick (fst s) in c\<lparr>cReservations := (cReservations c)(cSerial c \<mapsto> cmd)\<rparr>)"
  by (simp add: reserve_def Let_def)

lemma hist_reserve [simp]: "hist (reserve cmd s) = hist s @ [ReserveIDs (Suc (cSerial (fst s))) cmd]"
  by (simp add: reserve_def)

definition newOperation :: "Message \<Rightarrow> nat option \<Rightarrow> bool \<Rightarrow> bool \<Rightarrow> bool \<Rightarrow> Notification option \<Rightarrow> Message option \<Rightarrow> operation" where
  "newOperation m r required closeAfter handshake notice source =
     \<lparr>opControl = r,
      opMessage = (case source of Some m \<Rightarrow> metadata (Some m) | None \<Rightarrow> (case notice of Some n \<Rightarrow> nMessage n | None \<Rightarrow> None)),
      opLength = int (Message_Len m), opRequired = required, opCloseAfter = closeAfter, opHandshake = handshake,
      opReported = False, opQueued = False, opNotice = notice\<rparr>"

definition addWriter :: "nat option \<Rightarrow> Core \<Rightarrow> Core" where
  "addWriter r c = (case r of
      None \<Rightarrow> c
    | Some i \<Rightarrow> setControl i (\<lambda>r. r\<lparr>ctlWriters := ctlWriters r + 1, ctlAttempts := ctlAttempts r + 1\<rparr>) c)"

section \<open>Changes of the core\<close>

lemma tick_keeps [simp]:
  "cHandshakePending (tick c) = cHandshakePending c" "cCallbackReady (tick c) = cCallbackReady c"
  "cContinuations (tick c) = cContinuations c" "cCloseOutcome (tick c) = cCloseOutcome c"
  "cHandshake (tick c) = cHandshake c" "cWdNext (tick c) = cWdNext c"
  "cReceivedSequence (tick c) = cReceivedSequence c" "cDeferredExpiry (tick c) = cDeferredExpiry c"
  "cCloseLocal (tick c) = cCloseLocal c" "cDisconnectWaiting (tick c) = cDisconnectWaiting c"
  "cPeerDisconnectSelected (tick c) = cPeerDisconnectSelected c" "cPeerCause (tick c) = cPeerCause c"
  "cPeerDPR (tick c) = cPeerDPR c" "cDisconnectToken (tick c) = cDisconnectToken c"
  "cFenceToken (tick c) = cFenceToken c" "cCloseRequest (tick c) = cCloseRequest c"
  "cEarlyDPA (tick c) = cEarlyDPA c" "cLateCERToken (tick c) = cLateCERToken c" "cLateCER (tick c) = cLateCER c"
  "cCfg (tick c) = cCfg c" "cPhase (tick c) = cPhase c" "cStarted (tick c) = cStarted c" "cReady (tick c) = cReady c"
  "cTerminal (tick c) = cTerminal c" "cFrozen (tick c) = cFrozen c" "cCERDeferred (tick c) = cCERDeferred c"
  "cPassiveResponder (tick c) = cPassiveResponder c" "cPassiveCER (tick c) = cPassiveCER c"
  "cPassiveWatchdog (tick c) = cPassiveWatchdog c" "cPassivePresent (tick c) = cPassivePresent c"
  "cCandidateToken (tick c) = cCandidateToken c" "cAdmission (tick c) = cAdmission c" "cCaps (tick c) = cCaps c"
  "cCer (tick c) = cCer c" "cCompletedCEA (tick c) = cCompletedCEA c" "cHookToken (tick c) = cHookToken c"
  "cTimers (tick c) = cTimers c" "cReservations (tick c) = cReservations c" "cControls (tick c) = cControls c"
  "cStore (tick c) = cStore c" "cOperations (tick c) = cOperations c" "cCloseCause (tick c) = cCloseCause c"
  "cWd (tick c) = cWd c"
  by (simp_all add: tick_def)

lemma setTimer_keeps [simp]:
  "cHandshakePending (setTimer k t d c) = cHandshakePending c" "cCallbackReady (setTimer k t d c) = cCallbackReady c"
  "cContinuations (setTimer k t d c) = cContinuations c" "cCloseOutcome (setTimer k t d c) = cCloseOutcome c"
  "cHandshake (setTimer k t d c) = cHandshake c" "cWdNext (setTimer k t d c) = cWdNext c"
  "cReceivedSequence (setTimer k t d c) = cReceivedSequence c"
  "cDeferredExpiry (setTimer k t d c) = cDeferredExpiry c" "cCloseLocal (setTimer k t d c) = cCloseLocal c"
  "cDisconnectWaiting (setTimer k t d c) = cDisconnectWaiting c"
  "cPeerDisconnectSelected (setTimer k t d c) = cPeerDisconnectSelected c"
  "cPeerCause (setTimer k t d c) = cPeerCause c" "cPeerDPR (setTimer k t d c) = cPeerDPR c"
  "cDisconnectToken (setTimer k t d c) = cDisconnectToken c" "cFenceToken (setTimer k t d c) = cFenceToken c"
  "cCloseRequest (setTimer k t d c) = cCloseRequest c" "cEarlyDPA (setTimer k t d c) = cEarlyDPA c"
  "cLateCERToken (setTimer k t d c) = cLateCERToken c" "cLateCER (setTimer k t d c) = cLateCER c"
  "cCfg (setTimer k t d c) = cCfg c" "cPhase (setTimer k t d c) = cPhase c" "cSerial (setTimer k t d c) = cSerial c"
  "cStarted (setTimer k t d c) = cStarted c" "cReady (setTimer k t d c) = cReady c"
  "cTerminal (setTimer k t d c) = cTerminal c" "cFrozen (setTimer k t d c) = cFrozen c"
  "cCERDeferred (setTimer k t d c) = cCERDeferred c" "cPassiveResponder (setTimer k t d c) = cPassiveResponder c"
  "cPassiveCER (setTimer k t d c) = cPassiveCER c" "cPassiveWatchdog (setTimer k t d c) = cPassiveWatchdog c"
  "cPassivePresent (setTimer k t d c) = cPassivePresent c" "cCandidateToken (setTimer k t d c) = cCandidateToken c"
  "cAdmission (setTimer k t d c) = cAdmission c" "cCaps (setTimer k t d c) = cCaps c"
  "cCer (setTimer k t d c) = cCer c" "cCompletedCEA (setTimer k t d c) = cCompletedCEA c"
  "cHookToken (setTimer k t d c) = cHookToken c" "cReservations (setTimer k t d c) = cReservations c"
  "cControls (setTimer k t d c) = cControls c" "cStore (setTimer k t d c) = cStore c"
  "cOperations (setTimer k t d c) = cOperations c" "cCloseCause (setTimer k t d c) = cCloseCause c"
  "cWd (setTimer k t d c) = cWd c"
  by (simp_all add: setTimer_def)

lemma setControl_keeps [simp]:
  "cHandshakePending (setControl i f c) = cHandshakePending c" "cCallbackReady (setControl i f c) = cCallbackReady c"
  "cContinuations (setControl i f c) = cContinuations c" "cCloseOutcome (setControl i f c) = cCloseOutcome c"
  "cHandshake (setControl i f c) = cHandshake c" "cWdNext (setControl i f c) = cWdNext c"
  "cReceivedSequence (setControl i f c) = cReceivedSequence c"
  "cDeferredExpiry (setControl i f c) = cDeferredExpiry c" "cCloseLocal (setControl i f c) = cCloseLocal c"
  "cDisconnectWaiting (setControl i f c) = cDisconnectWaiting c"
  "cPeerDisconnectSelected (setControl i f c) = cPeerDisconnectSelected c"
  "cPeerCause (setControl i f c) = cPeerCause c" "cPeerDPR (setControl i f c) = cPeerDPR c"
  "cDisconnectToken (setControl i f c) = cDisconnectToken c" "cFenceToken (setControl i f c) = cFenceToken c"
  "cCloseRequest (setControl i f c) = cCloseRequest c" "cEarlyDPA (setControl i f c) = cEarlyDPA c"
  "cLateCERToken (setControl i f c) = cLateCERToken c" "cLateCER (setControl i f c) = cLateCER c"
  "cCfg (setControl i f c) = cCfg c" "cPhase (setControl i f c) = cPhase c" "cSerial (setControl i f c) = cSerial c"
  "cStarted (setControl i f c) = cStarted c" "cReady (setControl i f c) = cReady c"
  "cTerminal (setControl i f c) = cTerminal c" "cFrozen (setControl i f c) = cFrozen c"
  "cCERDeferred (setControl i f c) = cCERDeferred c" "cPassiveResponder (setControl i f c) = cPassiveResponder c"
  "cPassiveCER (setControl i f c) = cPassiveCER c" "cPassiveWatchdog (setControl i f c) = cPassiveWatchdog c"
  "cPassivePresent (setControl i f c) = cPassivePresent c" "cCandidateToken (setControl i f c) = cCandidateToken c"
  "cAdmission (setControl i f c) = cAdmission c" "cCaps (setControl i f c) = cCaps c"
  "cCer (setControl i f c) = cCer c" "cCompletedCEA (setControl i f c) = cCompletedCEA c"
  "cHookToken (setControl i f c) = cHookToken c" "cTimers (setControl i f c) = cTimers c"
  "cReservations (setControl i f c) = cReservations c" "cControls (setControl i f c) = cControls c"
  "cOperations (setControl i f c) = cOperations c" "cCloseCause (setControl i f c) = cCloseCause c"
  "cWd (setControl i f c) = cWd c"
  by (simp_all add: setControl_def)

lemma dropOperation_keeps [simp]:
  "cHandshakePending (dropOperation t c) = cHandshakePending c"
  "cCallbackReady (dropOperation t c) = cCallbackReady c" "cContinuations (dropOperation t c) = cContinuations c"
  "cCloseOutcome (dropOperation t c) = cCloseOutcome c" "cHandshake (dropOperation t c) = cHandshake c"
  "cWdNext (dropOperation t c) = cWdNext c" "cReceivedSequence (dropOperation t c) = cReceivedSequence c"
  "cDeferredExpiry (dropOperation t c) = cDeferredExpiry c" "cCloseLocal (dropOperation t c) = cCloseLocal c"
  "cDisconnectWaiting (dropOperation t c) = cDisconnectWaiting c"
  "cPeerDisconnectSelected (dropOperation t c) = cPeerDisconnectSelected c"
  "cPeerCause (dropOperation t c) = cPeerCause c" "cPeerDPR (dropOperation t c) = cPeerDPR c"
  "cDisconnectToken (dropOperation t c) = cDisconnectToken c" "cFenceToken (dropOperation t c) = cFenceToken c"
  "cCloseRequest (dropOperation t c) = cCloseRequest c" "cEarlyDPA (dropOperation t c) = cEarlyDPA c"
  "cLateCERToken (dropOperation t c) = cLateCERToken c" "cLateCER (dropOperation t c) = cLateCER c"
  "cCfg (dropOperation t c) = cCfg c" "cPhase (dropOperation t c) = cPhase c"
  "cSerial (dropOperation t c) = cSerial c" "cStarted (dropOperation t c) = cStarted c"
  "cReady (dropOperation t c) = cReady c" "cTerminal (dropOperation t c) = cTerminal c"
  "cFrozen (dropOperation t c) = cFrozen c" "cCERDeferred (dropOperation t c) = cCERDeferred c"
  "cPassiveResponder (dropOperation t c) = cPassiveResponder c" "cPassiveCER (dropOperation t c) = cPassiveCER c"
  "cPassiveWatchdog (dropOperation t c) = cPassiveWatchdog c"
  "cPassivePresent (dropOperation t c) = cPassivePresent c" "cCandidateToken (dropOperation t c) = cCandidateToken c"
  "cAdmission (dropOperation t c) = cAdmission c" "cCaps (dropOperation t c) = cCaps c"
  "cCer (dropOperation t c) = cCer c" "cCompletedCEA (dropOperation t c) = cCompletedCEA c"
  "cHookToken (dropOperation t c) = cHookToken c" "cTimers (dropOperation t c) = cTimers c"
  "cReservations (dropOperation t c) = cReservations c" "cControls (dropOperation t c) = cControls c"
  "cStore (dropOperation t c) = cStore c" "cCloseCause (dropOperation t c) = cCloseCause c"
  "cWd (dropOperation t c) = cWd c"
  by (simp_all add: dropOperation_def)

lemma setOperation_keeps [simp]:
  "cHandshakePending (setOperation t f c) = cHandshakePending c"
  "cCallbackReady (setOperation t f c) = cCallbackReady c" "cContinuations (setOperation t f c) = cContinuations c"
  "cCloseOutcome (setOperation t f c) = cCloseOutcome c" "cHandshake (setOperation t f c) = cHandshake c"
  "cWdNext (setOperation t f c) = cWdNext c" "cReceivedSequence (setOperation t f c) = cReceivedSequence c"
  "cDeferredExpiry (setOperation t f c) = cDeferredExpiry c" "cCloseLocal (setOperation t f c) = cCloseLocal c"
  "cDisconnectWaiting (setOperation t f c) = cDisconnectWaiting c"
  "cPeerDisconnectSelected (setOperation t f c) = cPeerDisconnectSelected c"
  "cPeerCause (setOperation t f c) = cPeerCause c" "cPeerDPR (setOperation t f c) = cPeerDPR c"
  "cDisconnectToken (setOperation t f c) = cDisconnectToken c" "cFenceToken (setOperation t f c) = cFenceToken c"
  "cCloseRequest (setOperation t f c) = cCloseRequest c" "cEarlyDPA (setOperation t f c) = cEarlyDPA c"
  "cLateCERToken (setOperation t f c) = cLateCERToken c" "cLateCER (setOperation t f c) = cLateCER c"
  "cCfg (setOperation t f c) = cCfg c" "cPhase (setOperation t f c) = cPhase c"
  "cSerial (setOperation t f c) = cSerial c" "cStarted (setOperation t f c) = cStarted c"
  "cReady (setOperation t f c) = cReady c" "cTerminal (setOperation t f c) = cTerminal c"
  "cFrozen (setOperation t f c) = cFrozen c" "cCERDeferred (setOperation t f c) = cCERDeferred c"
  "cPassiveResponder (setOperation t f c) = cPassiveResponder c" "cPassiveCER (setOperation t f c) = cPassiveCER c"
  "cPassiveWatchdog (setOperation t f c) = cPassiveWatchdog c"
  "cPassivePresent (setOperation t f c) = cPassivePresent c"
  "cCandidateToken (setOperation t f c) = cCandidateToken c" "cAdmission (setOperation t f c) = cAdmission c"
  "cCaps (setOperation t f c) = cCaps c" "cCer (setOperation t f c) = cCer c"
  "cCompletedCEA (setOperation t f c) = cCompletedCEA c" "cHookToken (setOperation t f c) = cHookToken c"
  "cTimers (setOperation t f c) = cTimers c" "cReservations (setOperation t f c) = cReservations c"
  "cControls (setOperation t f c) = cControls c" "cStore (setOperation t f c) = cStore c"
  "cCloseCause (setOperation t f c) = cCloseCause c" "cWd (setOperation t f c) = cWd c"
  by (simp_all add: setOperation_def)

lemma setWd_keeps [simp]:
  "cHandshakePending (setWd m c) = cHandshakePending c" "cCallbackReady (setWd m c) = cCallbackReady c"
  "cContinuations (setWd m c) = cContinuations c" "cCloseOutcome (setWd m c) = cCloseOutcome c"
  "cHandshake (setWd m c) = cHandshake c" "cWdNext (setWd m c) = cWdNext c"
  "cReceivedSequence (setWd m c) = cReceivedSequence c" "cDeferredExpiry (setWd m c) = cDeferredExpiry c"
  "cCloseLocal (setWd m c) = cCloseLocal c" "cDisconnectWaiting (setWd m c) = cDisconnectWaiting c"
  "cPeerDisconnectSelected (setWd m c) = cPeerDisconnectSelected c" "cPeerCause (setWd m c) = cPeerCause c"
  "cPeerDPR (setWd m c) = cPeerDPR c" "cDisconnectToken (setWd m c) = cDisconnectToken c"
  "cFenceToken (setWd m c) = cFenceToken c" "cCloseRequest (setWd m c) = cCloseRequest c"
  "cEarlyDPA (setWd m c) = cEarlyDPA c" "cLateCERToken (setWd m c) = cLateCERToken c"
  "cLateCER (setWd m c) = cLateCER c" "cCfg (setWd m c) = cCfg c" "cPhase (setWd m c) = cPhase c"
  "cSerial (setWd m c) = cSerial c" "cStarted (setWd m c) = cStarted c" "cReady (setWd m c) = cReady c"
  "cTerminal (setWd m c) = cTerminal c" "cFrozen (setWd m c) = cFrozen c" "cCERDeferred (setWd m c) = cCERDeferred c"
  "cPassiveResponder (setWd m c) = cPassiveResponder c" "cPassiveCER (setWd m c) = cPassiveCER c"
  "cPassiveWatchdog (setWd m c) = cPassiveWatchdog c" "cPassivePresent (setWd m c) = cPassivePresent c"
  "cCandidateToken (setWd m c) = cCandidateToken c" "cAdmission (setWd m c) = cAdmission c"
  "cCaps (setWd m c) = cCaps c" "cCer (setWd m c) = cCer c" "cCompletedCEA (setWd m c) = cCompletedCEA c"
  "cHookToken (setWd m c) = cHookToken c" "cTimers (setWd m c) = cTimers c"
  "cReservations (setWd m c) = cReservations c" "cControls (setWd m c) = cControls c" "cStore (setWd m c) = cStore c"
  "cOperations (setWd m c) = cOperations c" "cCloseCause (setWd m c) = cCloseCause c"
  by (simp_all add: setWd_def)

lemma setWdNext_keeps [simp]:
  "cHandshakePending (setWdNext m c) = cHandshakePending c" "cCallbackReady (setWdNext m c) = cCallbackReady c"
  "cContinuations (setWdNext m c) = cContinuations c" "cCloseOutcome (setWdNext m c) = cCloseOutcome c"
  "cHandshake (setWdNext m c) = cHandshake c" "cReceivedSequence (setWdNext m c) = cReceivedSequence c"
  "cDeferredExpiry (setWdNext m c) = cDeferredExpiry c" "cCloseLocal (setWdNext m c) = cCloseLocal c"
  "cDisconnectWaiting (setWdNext m c) = cDisconnectWaiting c"
  "cPeerDisconnectSelected (setWdNext m c) = cPeerDisconnectSelected c" "cPeerCause (setWdNext m c) = cPeerCause c"
  "cPeerDPR (setWdNext m c) = cPeerDPR c" "cDisconnectToken (setWdNext m c) = cDisconnectToken c"
  "cFenceToken (setWdNext m c) = cFenceToken c" "cCloseRequest (setWdNext m c) = cCloseRequest c"
  "cEarlyDPA (setWdNext m c) = cEarlyDPA c" "cLateCERToken (setWdNext m c) = cLateCERToken c"
  "cLateCER (setWdNext m c) = cLateCER c" "cCfg (setWdNext m c) = cCfg c" "cPhase (setWdNext m c) = cPhase c"
  "cSerial (setWdNext m c) = cSerial c" "cStarted (setWdNext m c) = cStarted c" "cReady (setWdNext m c) = cReady c"
  "cTerminal (setWdNext m c) = cTerminal c" "cFrozen (setWdNext m c) = cFrozen c"
  "cCERDeferred (setWdNext m c) = cCERDeferred c" "cPassiveResponder (setWdNext m c) = cPassiveResponder c"
  "cPassiveCER (setWdNext m c) = cPassiveCER c" "cPassiveWatchdog (setWdNext m c) = cPassiveWatchdog c"
  "cPassivePresent (setWdNext m c) = cPassivePresent c" "cCandidateToken (setWdNext m c) = cCandidateToken c"
  "cAdmission (setWdNext m c) = cAdmission c" "cCaps (setWdNext m c) = cCaps c" "cCer (setWdNext m c) = cCer c"
  "cCompletedCEA (setWdNext m c) = cCompletedCEA c" "cHookToken (setWdNext m c) = cHookToken c"
  "cTimers (setWdNext m c) = cTimers c" "cReservations (setWdNext m c) = cReservations c"
  "cControls (setWdNext m c) = cControls c" "cStore (setWdNext m c) = cStore c"
  "cOperations (setWdNext m c) = cOperations c" "cCloseCause (setWdNext m c) = cCloseCause c"
  "cWd (setWdNext m c) = cWd c"
  by (simp_all add: setWdNext_def)

lemma addControl_keeps [simp]:
  "cHandshakePending (addControl cmd r c) = cHandshakePending c"
  "cCallbackReady (addControl cmd r c) = cCallbackReady c" "cContinuations (addControl cmd r c) = cContinuations c"
  "cCloseOutcome (addControl cmd r c) = cCloseOutcome c" "cHandshake (addControl cmd r c) = cHandshake c"
  "cWdNext (addControl cmd r c) = cWdNext c" "cReceivedSequence (addControl cmd r c) = cReceivedSequence c"
  "cDeferredExpiry (addControl cmd r c) = cDeferredExpiry c" "cCloseLocal (addControl cmd r c) = cCloseLocal c"
  "cDisconnectWaiting (addControl cmd r c) = cDisconnectWaiting c"
  "cPeerDisconnectSelected (addControl cmd r c) = cPeerDisconnectSelected c"
  "cPeerCause (addControl cmd r c) = cPeerCause c" "cPeerDPR (addControl cmd r c) = cPeerDPR c"
  "cDisconnectToken (addControl cmd r c) = cDisconnectToken c" "cFenceToken (addControl cmd r c) = cFenceToken c"
  "cCloseRequest (addControl cmd r c) = cCloseRequest c" "cEarlyDPA (addControl cmd r c) = cEarlyDPA c"
  "cLateCERToken (addControl cmd r c) = cLateCERToken c" "cLateCER (addControl cmd r c) = cLateCER c"
  "cCfg (addControl cmd r c) = cCfg c" "cPhase (addControl cmd r c) = cPhase c"
  "cSerial (addControl cmd r c) = cSerial c" "cStarted (addControl cmd r c) = cStarted c"
  "cReady (addControl cmd r c) = cReady c" "cTerminal (addControl cmd r c) = cTerminal c"
  "cFrozen (addControl cmd r c) = cFrozen c" "cCERDeferred (addControl cmd r c) = cCERDeferred c"
  "cPassiveResponder (addControl cmd r c) = cPassiveResponder c" "cPassiveCER (addControl cmd r c) = cPassiveCER c"
  "cPassiveWatchdog (addControl cmd r c) = cPassiveWatchdog c"
  "cPassivePresent (addControl cmd r c) = cPassivePresent c"
  "cCandidateToken (addControl cmd r c) = cCandidateToken c" "cAdmission (addControl cmd r c) = cAdmission c"
  "cCaps (addControl cmd r c) = cCaps c" "cCer (addControl cmd r c) = cCer c"
  "cCompletedCEA (addControl cmd r c) = cCompletedCEA c" "cHookToken (addControl cmd r c) = cHookToken c"
  "cTimers (addControl cmd r c) = cTimers c" "cReservations (addControl cmd r c) = cReservations c"
  "cOperations (addControl cmd r c) = cOperations c" "cCloseCause (addControl cmd r c) = cCloseCause c"
  "cWd (addControl cmd r c) = cWd c"
  by (simp_all add: addControl_def)

lemma addWriter_keeps [simp]:
  "cHandshakePending (addWriter r c) = cHandshakePending c" "cCallbackReady (addWriter r c) = cCallbackReady c"
  "cContinuations (addWriter r c) = cContinuations c" "cCloseOutcome (addWriter r c) = cCloseOutcome c"
  "cHandshake (addWriter r c) = cHandshake c" "cWdNext (addWriter r c) = cWdNext c"
  "cReceivedSequence (addWriter r c) = cReceivedSequence c" "cDeferredExpiry (addWriter r c) = cDeferredExpiry c"
  "cCloseLocal (addWriter r c) = cCloseLocal c" "cDisconnectWaiting (addWriter r c) = cDisconnectWaiting c"
  "cPeerDisconnectSelected (addWriter r c) = cPeerDisconnectSelected c" "cPeerCause (addWriter r c) = cPeerCause c"
  "cPeerDPR (addWriter r c) = cPeerDPR c" "cDisconnectToken (addWriter r c) = cDisconnectToken c"
  "cFenceToken (addWriter r c) = cFenceToken c" "cCloseRequest (addWriter r c) = cCloseRequest c"
  "cEarlyDPA (addWriter r c) = cEarlyDPA c" "cLateCERToken (addWriter r c) = cLateCERToken c"
  "cLateCER (addWriter r c) = cLateCER c" "cCfg (addWriter r c) = cCfg c" "cPhase (addWriter r c) = cPhase c"
  "cSerial (addWriter r c) = cSerial c" "cStarted (addWriter r c) = cStarted c" "cReady (addWriter r c) = cReady c"
  "cTerminal (addWriter r c) = cTerminal c" "cFrozen (addWriter r c) = cFrozen c"
  "cCERDeferred (addWriter r c) = cCERDeferred c" "cPassiveResponder (addWriter r c) = cPassiveResponder c"
  "cPassiveCER (addWriter r c) = cPassiveCER c" "cPassiveWatchdog (addWriter r c) = cPassiveWatchdog c"
  "cPassivePresent (addWriter r c) = cPassivePresent c" "cCandidateToken (addWriter r c) = cCandidateToken c"
  "cAdmission (addWriter r c) = cAdmission c" "cCaps (addWriter r c) = cCaps c" "cCer (addWriter r c) = cCer c"
  "cCompletedCEA (addWriter r c) = cCompletedCEA c" "cHookToken (addWriter r c) = cHookToken c"
  "cTimers (addWriter r c) = cTimers c" "cReservations (addWriter r c) = cReservations c"
  "cControls (addWriter r c) = cControls c" "cOperations (addWriter r c) = cOperations c"
  "cCloseCause (addWriter r c) = cCloseCause c" "cWd (addWriter r c) = cWd c"
  by (simp_all add: addWriter_def split: option.split)

lemma fst_send:
  "fst (send m r q ca h n src hk s) =
     addWriter r ((tick (fst s))\<lparr>cOperations := cOperations (fst s) @ [(Suc (cSerial (fst s)), newOperation m r q ca h n src)]\<rparr>)"
  by (simp add: send_def newOperation_def addWriter_def Let_def tick_def split: option.split)

lemma hist_send:
  "\<exists>st. hist (send m r q ca h n src hk s) = hist s @ [Send (Suc (cSerial (fst s))) m q ca st hk n]"
  by (simp add: send_def Let_def split: option.split)

lemma fst_watchdogArm:
  "fst (watchdogArm at iv s) =
     (let c = fst s; iv = (if iv \<le> 0 then kWatchdogInterval (cCfg c) else iv)
      in if iv \<le> 0 then fst (stop WatchdogTimer s) else setTimer WatchdogTimer (Suc (cSerial c)) (at + iv) (tick c))"
  by (simp add: watchdogArm_def Let_def)


section \<open>Fields kept by the operations\<close>

lemma arm_keeps [simp]:
  "cHandshakePending (fst (arm k at d s)) = cHandshakePending (fst s)"
  "cCallbackReady (fst (arm k at d s)) = cCallbackReady (fst s)"
  "cContinuations (fst (arm k at d s)) = cContinuations (fst s)"
  "cCloseOutcome (fst (arm k at d s)) = cCloseOutcome (fst s)" "cHandshake (fst (arm k at d s)) = cHandshake (fst s)"
  "cWdNext (fst (arm k at d s)) = cWdNext (fst s)"
  "cReceivedSequence (fst (arm k at d s)) = cReceivedSequence (fst s)"
  "cDeferredExpiry (fst (arm k at d s)) = cDeferredExpiry (fst s)"
  "cCloseLocal (fst (arm k at d s)) = cCloseLocal (fst s)"
  "cDisconnectWaiting (fst (arm k at d s)) = cDisconnectWaiting (fst s)"
  "cPeerDisconnectSelected (fst (arm k at d s)) = cPeerDisconnectSelected (fst s)"
  "cPeerCause (fst (arm k at d s)) = cPeerCause (fst s)" "cPeerDPR (fst (arm k at d s)) = cPeerDPR (fst s)"
  "cDisconnectToken (fst (arm k at d s)) = cDisconnectToken (fst s)"
  "cFenceToken (fst (arm k at d s)) = cFenceToken (fst s)"
  "cCloseRequest (fst (arm k at d s)) = cCloseRequest (fst s)" "cEarlyDPA (fst (arm k at d s)) = cEarlyDPA (fst s)"
  "cLateCERToken (fst (arm k at d s)) = cLateCERToken (fst s)" "cLateCER (fst (arm k at d s)) = cLateCER (fst s)"
  "cCfg (fst (arm k at d s)) = cCfg (fst s)" "cPhase (fst (arm k at d s)) = cPhase (fst s)"
  "cStarted (fst (arm k at d s)) = cStarted (fst s)" "cReady (fst (arm k at d s)) = cReady (fst s)"
  "cTerminal (fst (arm k at d s)) = cTerminal (fst s)" "cFrozen (fst (arm k at d s)) = cFrozen (fst s)"
  "cCERDeferred (fst (arm k at d s)) = cCERDeferred (fst s)"
  "cPassiveResponder (fst (arm k at d s)) = cPassiveResponder (fst s)"
  "cPassiveCER (fst (arm k at d s)) = cPassiveCER (fst s)"
  "cPassiveWatchdog (fst (arm k at d s)) = cPassiveWatchdog (fst s)"
  "cPassivePresent (fst (arm k at d s)) = cPassivePresent (fst s)"
  "cCandidateToken (fst (arm k at d s)) = cCandidateToken (fst s)"
  "cAdmission (fst (arm k at d s)) = cAdmission (fst s)" "cCaps (fst (arm k at d s)) = cCaps (fst s)"
  "cCer (fst (arm k at d s)) = cCer (fst s)" "cCompletedCEA (fst (arm k at d s)) = cCompletedCEA (fst s)"
  "cHookToken (fst (arm k at d s)) = cHookToken (fst s)" "cReservations (fst (arm k at d s)) = cReservations (fst s)"
  "cControls (fst (arm k at d s)) = cControls (fst s)" "cStore (fst (arm k at d s)) = cStore (fst s)"
  "cOperations (fst (arm k at d s)) = cOperations (fst s)" "cCloseCause (fst (arm k at d s)) = cCloseCause (fst s)"
  "cWd (fst (arm k at d s)) = cWd (fst s)"
  by (simp_all add: fst_arm)

lemma stop_keeps [simp]:
  "cHandshakePending (fst (stop k s)) = cHandshakePending (fst s)"
  "cCallbackReady (fst (stop k s)) = cCallbackReady (fst s)"
  "cContinuations (fst (stop k s)) = cContinuations (fst s)" "cCloseOutcome (fst (stop k s)) = cCloseOutcome (fst s)"
  "cHandshake (fst (stop k s)) = cHandshake (fst s)" "cWdNext (fst (stop k s)) = cWdNext (fst s)"
  "cReceivedSequence (fst (stop k s)) = cReceivedSequence (fst s)"
  "cDeferredExpiry (fst (stop k s)) = cDeferredExpiry (fst s)" "cCloseLocal (fst (stop k s)) = cCloseLocal (fst s)"
  "cDisconnectWaiting (fst (stop k s)) = cDisconnectWaiting (fst s)"
  "cPeerDisconnectSelected (fst (stop k s)) = cPeerDisconnectSelected (fst s)"
  "cPeerCause (fst (stop k s)) = cPeerCause (fst s)" "cPeerDPR (fst (stop k s)) = cPeerDPR (fst s)"
  "cDisconnectToken (fst (stop k s)) = cDisconnectToken (fst s)" "cFenceToken (fst (stop k s)) = cFenceToken (fst s)"
  "cCloseRequest (fst (stop k s)) = cCloseRequest (fst s)" "cEarlyDPA (fst (stop k s)) = cEarlyDPA (fst s)"
  "cLateCERToken (fst (stop k s)) = cLateCERToken (fst s)" "cLateCER (fst (stop k s)) = cLateCER (fst s)"
  "cCfg (fst (stop k s)) = cCfg (fst s)" "cPhase (fst (stop k s)) = cPhase (fst s)"
  "cSerial (fst (stop k s)) = cSerial (fst s)" "cStarted (fst (stop k s)) = cStarted (fst s)"
  "cReady (fst (stop k s)) = cReady (fst s)" "cTerminal (fst (stop k s)) = cTerminal (fst s)"
  "cFrozen (fst (stop k s)) = cFrozen (fst s)" "cCERDeferred (fst (stop k s)) = cCERDeferred (fst s)"
  "cPassiveResponder (fst (stop k s)) = cPassiveResponder (fst s)"
  "cPassiveCER (fst (stop k s)) = cPassiveCER (fst s)" "cPassiveWatchdog (fst (stop k s)) = cPassiveWatchdog (fst s)"
  "cPassivePresent (fst (stop k s)) = cPassivePresent (fst s)"
  "cCandidateToken (fst (stop k s)) = cCandidateToken (fst s)" "cAdmission (fst (stop k s)) = cAdmission (fst s)"
  "cCaps (fst (stop k s)) = cCaps (fst s)" "cCer (fst (stop k s)) = cCer (fst s)"
  "cCompletedCEA (fst (stop k s)) = cCompletedCEA (fst s)" "cHookToken (fst (stop k s)) = cHookToken (fst s)"
  "cReservations (fst (stop k s)) = cReservations (fst s)" "cControls (fst (stop k s)) = cControls (fst s)"
  "cStore (fst (stop k s)) = cStore (fst s)" "cOperations (fst (stop k s)) = cOperations (fst s)"
  "cCloseCause (fst (stop k s)) = cCloseCause (fst s)" "cWd (fst (stop k s)) = cWd (fst s)"
  by (simp_all add: fst_stop)

lemma watchdogArm_keeps [simp]:
  "cHandshakePending (fst (watchdogArm at iv s)) = cHandshakePending (fst s)"
  "cCallbackReady (fst (watchdogArm at iv s)) = cCallbackReady (fst s)"
  "cContinuations (fst (watchdogArm at iv s)) = cContinuations (fst s)"
  "cCloseOutcome (fst (watchdogArm at iv s)) = cCloseOutcome (fst s)"
  "cHandshake (fst (watchdogArm at iv s)) = cHandshake (fst s)"
  "cWdNext (fst (watchdogArm at iv s)) = cWdNext (fst s)"
  "cReceivedSequence (fst (watchdogArm at iv s)) = cReceivedSequence (fst s)"
  "cDeferredExpiry (fst (watchdogArm at iv s)) = cDeferredExpiry (fst s)"
  "cCloseLocal (fst (watchdogArm at iv s)) = cCloseLocal (fst s)"
  "cDisconnectWaiting (fst (watchdogArm at iv s)) = cDisconnectWaiting (fst s)"
  "cPeerDisconnectSelected (fst (watchdogArm at iv s)) = cPeerDisconnectSelected (fst s)"
  "cPeerCause (fst (watchdogArm at iv s)) = cPeerCause (fst s)"
  "cPeerDPR (fst (watchdogArm at iv s)) = cPeerDPR (fst s)"
  "cDisconnectToken (fst (watchdogArm at iv s)) = cDisconnectToken (fst s)"
  "cFenceToken (fst (watchdogArm at iv s)) = cFenceToken (fst s)"
  "cCloseRequest (fst (watchdogArm at iv s)) = cCloseRequest (fst s)"
  "cEarlyDPA (fst (watchdogArm at iv s)) = cEarlyDPA (fst s)"
  "cLateCERToken (fst (watchdogArm at iv s)) = cLateCERToken (fst s)"
  "cLateCER (fst (watchdogArm at iv s)) = cLateCER (fst s)" "cCfg (fst (watchdogArm at iv s)) = cCfg (fst s)"
  "cPhase (fst (watchdogArm at iv s)) = cPhase (fst s)" "cStarted (fst (watchdogArm at iv s)) = cStarted (fst s)"
  "cReady (fst (watchdogArm at iv s)) = cReady (fst s)" "cTerminal (fst (watchdogArm at iv s)) = cTerminal (fst s)"
  "cFrozen (fst (watchdogArm at iv s)) = cFrozen (fst s)"
  "cCERDeferred (fst (watchdogArm at iv s)) = cCERDeferred (fst s)"
  "cPassiveResponder (fst (watchdogArm at iv s)) = cPassiveResponder (fst s)"
  "cPassiveCER (fst (watchdogArm at iv s)) = cPassiveCER (fst s)"
  "cPassiveWatchdog (fst (watchdogArm at iv s)) = cPassiveWatchdog (fst s)"
  "cPassivePresent (fst (watchdogArm at iv s)) = cPassivePresent (fst s)"
  "cCandidateToken (fst (watchdogArm at iv s)) = cCandidateToken (fst s)"
  "cAdmission (fst (watchdogArm at iv s)) = cAdmission (fst s)" "cCaps (fst (watchdogArm at iv s)) = cCaps (fst s)"
  "cCer (fst (watchdogArm at iv s)) = cCer (fst s)"
  "cCompletedCEA (fst (watchdogArm at iv s)) = cCompletedCEA (fst s)"
  "cHookToken (fst (watchdogArm at iv s)) = cHookToken (fst s)"
  "cReservations (fst (watchdogArm at iv s)) = cReservations (fst s)"
  "cControls (fst (watchdogArm at iv s)) = cControls (fst s)" "cStore (fst (watchdogArm at iv s)) = cStore (fst s)"
  "cOperations (fst (watchdogArm at iv s)) = cOperations (fst s)"
  "cCloseCause (fst (watchdogArm at iv s)) = cCloseCause (fst s)" "cWd (fst (watchdogArm at iv s)) = cWd (fst s)"
  by (simp_all add: fst_watchdogArm Let_def)

lemma reserve_keeps [simp]:
  "cHandshakePending (fst (reserve cmd s)) = cHandshakePending (fst s)"
  "cCallbackReady (fst (reserve cmd s)) = cCallbackReady (fst s)"
  "cContinuations (fst (reserve cmd s)) = cContinuations (fst s)"
  "cCloseOutcome (fst (reserve cmd s)) = cCloseOutcome (fst s)"
  "cHandshake (fst (reserve cmd s)) = cHandshake (fst s)" "cWdNext (fst (reserve cmd s)) = cWdNext (fst s)"
  "cReceivedSequence (fst (reserve cmd s)) = cReceivedSequence (fst s)"
  "cDeferredExpiry (fst (reserve cmd s)) = cDeferredExpiry (fst s)"
  "cCloseLocal (fst (reserve cmd s)) = cCloseLocal (fst s)"
  "cDisconnectWaiting (fst (reserve cmd s)) = cDisconnectWaiting (fst s)"
  "cPeerDisconnectSelected (fst (reserve cmd s)) = cPeerDisconnectSelected (fst s)"
  "cPeerCause (fst (reserve cmd s)) = cPeerCause (fst s)" "cPeerDPR (fst (reserve cmd s)) = cPeerDPR (fst s)"
  "cDisconnectToken (fst (reserve cmd s)) = cDisconnectToken (fst s)"
  "cFenceToken (fst (reserve cmd s)) = cFenceToken (fst s)"
  "cCloseRequest (fst (reserve cmd s)) = cCloseRequest (fst s)" "cEarlyDPA (fst (reserve cmd s)) = cEarlyDPA (fst s)"
  "cLateCERToken (fst (reserve cmd s)) = cLateCERToken (fst s)" "cLateCER (fst (reserve cmd s)) = cLateCER (fst s)"
  "cCfg (fst (reserve cmd s)) = cCfg (fst s)" "cPhase (fst (reserve cmd s)) = cPhase (fst s)"
  "cStarted (fst (reserve cmd s)) = cStarted (fst s)" "cReady (fst (reserve cmd s)) = cReady (fst s)"
  "cTerminal (fst (reserve cmd s)) = cTerminal (fst s)" "cFrozen (fst (reserve cmd s)) = cFrozen (fst s)"
  "cCERDeferred (fst (reserve cmd s)) = cCERDeferred (fst s)"
  "cPassiveResponder (fst (reserve cmd s)) = cPassiveResponder (fst s)"
  "cPassiveCER (fst (reserve cmd s)) = cPassiveCER (fst s)"
  "cPassiveWatchdog (fst (reserve cmd s)) = cPassiveWatchdog (fst s)"
  "cPassivePresent (fst (reserve cmd s)) = cPassivePresent (fst s)"
  "cCandidateToken (fst (reserve cmd s)) = cCandidateToken (fst s)"
  "cAdmission (fst (reserve cmd s)) = cAdmission (fst s)" "cCaps (fst (reserve cmd s)) = cCaps (fst s)"
  "cCer (fst (reserve cmd s)) = cCer (fst s)" "cCompletedCEA (fst (reserve cmd s)) = cCompletedCEA (fst s)"
  "cHookToken (fst (reserve cmd s)) = cHookToken (fst s)" "cTimers (fst (reserve cmd s)) = cTimers (fst s)"
  "cControls (fst (reserve cmd s)) = cControls (fst s)" "cStore (fst (reserve cmd s)) = cStore (fst s)"
  "cOperations (fst (reserve cmd s)) = cOperations (fst s)" "cCloseCause (fst (reserve cmd s)) = cCloseCause (fst s)"
  "cWd (fst (reserve cmd s)) = cWd (fst s)"
  by (simp_all add: fst_reserve Let_def)

lemma send_keeps [simp]:
  "cHandshakePending (fst (send m r q ca h n src hk s)) = cHandshakePending (fst s)"
  "cCallbackReady (fst (send m r q ca h n src hk s)) = cCallbackReady (fst s)"
  "cContinuations (fst (send m r q ca h n src hk s)) = cContinuations (fst s)"
  "cCloseOutcome (fst (send m r q ca h n src hk s)) = cCloseOutcome (fst s)"
  "cHandshake (fst (send m r q ca h n src hk s)) = cHandshake (fst s)"
  "cWdNext (fst (send m r q ca h n src hk s)) = cWdNext (fst s)"
  "cReceivedSequence (fst (send m r q ca h n src hk s)) = cReceivedSequence (fst s)"
  "cDeferredExpiry (fst (send m r q ca h n src hk s)) = cDeferredExpiry (fst s)"
  "cCloseLocal (fst (send m r q ca h n src hk s)) = cCloseLocal (fst s)"
  "cDisconnectWaiting (fst (send m r q ca h n src hk s)) = cDisconnectWaiting (fst s)"
  "cPeerDisconnectSelected (fst (send m r q ca h n src hk s)) = cPeerDisconnectSelected (fst s)"
  "cPeerCause (fst (send m r q ca h n src hk s)) = cPeerCause (fst s)"
  "cPeerDPR (fst (send m r q ca h n src hk s)) = cPeerDPR (fst s)"
  "cDisconnectToken (fst (send m r q ca h n src hk s)) = cDisconnectToken (fst s)"
  "cFenceToken (fst (send m r q ca h n src hk s)) = cFenceToken (fst s)"
  "cCloseRequest (fst (send m r q ca h n src hk s)) = cCloseRequest (fst s)"
  "cEarlyDPA (fst (send m r q ca h n src hk s)) = cEarlyDPA (fst s)"
  "cLateCERToken (fst (send m r q ca h n src hk s)) = cLateCERToken (fst s)"
  "cLateCER (fst (send m r q ca h n src hk s)) = cLateCER (fst s)"
  "cCfg (fst (send m r q ca h n src hk s)) = cCfg (fst s)"
  "cPhase (fst (send m r q ca h n src hk s)) = cPhase (fst s)"
  "cStarted (fst (send m r q ca h n src hk s)) = cStarted (fst s)"
  "cReady (fst (send m r q ca h n src hk s)) = cReady (fst s)"
  "cTerminal (fst (send m r q ca h n src hk s)) = cTerminal (fst s)"
  "cFrozen (fst (send m r q ca h n src hk s)) = cFrozen (fst s)"
  "cCERDeferred (fst (send m r q ca h n src hk s)) = cCERDeferred (fst s)"
  "cPassiveResponder (fst (send m r q ca h n src hk s)) = cPassiveResponder (fst s)"
  "cPassiveCER (fst (send m r q ca h n src hk s)) = cPassiveCER (fst s)"
  "cPassiveWatchdog (fst (send m r q ca h n src hk s)) = cPassiveWatchdog (fst s)"
  "cPassivePresent (fst (send m r q ca h n src hk s)) = cPassivePresent (fst s)"
  "cCandidateToken (fst (send m r q ca h n src hk s)) = cCandidateToken (fst s)"
  "cAdmission (fst (send m r q ca h n src hk s)) = cAdmission (fst s)"
  "cCaps (fst (send m r q ca h n src hk s)) = cCaps (fst s)" "cCer (fst (send m r q ca h n src hk s)) = cCer (fst s)"
  "cCompletedCEA (fst (send m r q ca h n src hk s)) = cCompletedCEA (fst s)"
  "cHookToken (fst (send m r q ca h n src hk s)) = cHookToken (fst s)"
  "cTimers (fst (send m r q ca h n src hk s)) = cTimers (fst s)"
  "cReservations (fst (send m r q ca h n src hk s)) = cReservations (fst s)"
  "cControls (fst (send m r q ca h n src hk s)) = cControls (fst s)"
  "cCloseCause (fst (send m r q ca h n src hk s)) = cCloseCause (fst s)"
  "cWd (fst (send m r q ca h n src hk s)) = cWd (fst s)"
  by (simp_all add: fst_send)

end
