(* ===== verification/CoreIds.thy ===== *)
theory CoreIds
  imports CoreFrames
begin

text \<open>
  Ownership of reserved identifiers in the protocol core. A control exchange holds its reservation while
  an answer is awaited (\<open>ctlLogical\<close>) or a writer has not reported; the invariant \<open>idsOK\<close> ties the
  writer counts to the outstanding operations and the controls in use to the command map.
\<close>

section \<open>Invariant\<close>

definition writersOf :: "Core \<Rightarrow> nat \<Rightarrow> nat" where
  "writersOf c i = length (filter (\<lambda>(t, op). opControl op = Some i) (cOperations c))"

definition logicalCmd :: "Core \<Rightarrow> u32 \<Rightarrow> bool" where
  "logicalCmd c cmd \<longleftrightarrow> (case cControls c cmd of None \<Rightarrow> False | Some i \<Rightarrow> ctlLogical (cStore c ! i))"

text \<open>A command is busy while its identifiers are being reserved or its answer is awaited.\<close>

definition busy :: "Core \<Rightarrow> u32 \<Rightarrow> bool" where
  "busy c cmd \<longleftrightarrow> (\<exists>t. cReservations c t = Some cmd) \<or> logicalCmd c cmd"

definition ctlOK :: "Core \<Rightarrow> nat \<Rightarrow> bool" where
  "ctlOK c i \<longleftrightarrow>
     (let r = cStore c ! i
      in ctlWriters r = int (writersOf c i) \<and>
         (ctlReleased r \<longrightarrow> \<not> ctlLogical r \<and> writersOf c i = 0) \<and>
         (ctlLogical r \<longrightarrow> cControls c (ctlCommand r) = Some i) \<and>
         (ctlCommand r \<noteq> CapabilitiesExchange \<longrightarrow> writersOf c i \<le> 1) \<and>
         ctlCommand r \<in> set controlCommands)"

definition controlsOK :: "Core \<Rightarrow> bool" where
  "controlsOK c \<longleftrightarrow> (\<forall>cmd i. cControls c cmd = Some i \<longrightarrow>
     i < length (cStore c) \<and> ctlCommand (cStore c ! i) = cmd \<and> \<not> ctlReleased (cStore c ! i))"

definition opsOK :: "Core \<Rightarrow> bool" where
  "opsOK c \<longleftrightarrow> distinct (map fst (cOperations c)) \<and>
     (\<forall>(t, op) \<in> set (cOperations c). t \<le> cSerial c \<and> (\<forall>i. opControl op = Some i \<longrightarrow> i < length (cStore c)))"

definition resOK :: "Core \<Rightarrow> bool" where
  "resOK c \<longleftrightarrow> (\<forall>t cmd. cReservations c t = Some cmd \<longrightarrow>
     t \<le> cSerial c \<and> cmd \<in> set controlCommands \<and> \<not> logicalCmd c cmd \<and> (\<forall>t'. cReservations c t' = Some cmd \<longrightarrow> t' = t))"

text \<open>Controls outside \<open>X\<close> are released as soon as nothing holds them.\<close>

definition settledOK :: "nat set \<Rightarrow> Core \<Rightarrow> bool" where
  "settledOK X c \<longleftrightarrow> (\<forall>i < length (cStore c). i \<notin> X \<longrightarrow>
     (let r = cStore c ! i in \<not> ctlLogical r \<and> ctlWriters r = 0 \<longrightarrow> ctlReleased r))"

definition idsOK :: "nat set \<Rightarrow> Core \<Rightarrow> bool" where
  "idsOK X c \<longleftrightarrow> (\<forall>i < length (cStore c). ctlOK c i) \<and> controlsOK c \<and> opsOK c \<and> resOK c \<and> settledOK X c"

lemmas ids_defs = idsOK_def ctlOK_def controlsOK_def opsOK_def resOK_def settledOK_def Let_def

lemma resOK_frame:
  assumes "resOK c" and "cReservations c' = cReservations c" and "cSerial c \<le> cSerial c'"
    and "\<And>cmd. logicalCmd c' cmd \<Longrightarrow> logicalCmd c cmd"
  shows "resOK c'"
  using assms order_trans unfolding resOK_def assms(2) by blast

lemma idsOK_frame:
  assumes "idsOK X c" and same: "cStore c' = cStore c" "cControls c' = cControls c" "cOperations c' = cOperations c"
      "cReservations c' = cReservations c" and le: "cSerial c \<le> cSerial c'"
  shows "idsOK X c'"
proof -
  have w: "writersOf c' i = writersOf c i" and l: "logicalCmd c' cmd = logicalCmd c cmd" for i cmd
    by (simp_all add: writersOf_def logicalCmd_def same cong: option.case_cong)
  have "ctlOK c' i = ctlOK c i" "controlsOK c' = controlsOK c" "settledOK X c' = settledOK X c" for i
    by (simp_all add: ctlOK_def controlsOK_def settledOK_def Let_def w same)
  moreover have "opsOK c \<Longrightarrow> opsOK c'"
    unfolding opsOK_def same using le order_trans by blast
  moreover have "resOK c \<Longrightarrow> resOK c'"
    by (rule resOK_frame) (simp_all add: same l le)
  ultimately show ?thesis
    using assms(1) by (simp add: idsOK_def same)
qed

section \<open>Balance of reservations\<close>

definition holds :: "Reservation \<Rightarrow> control \<Rightarrow> bool" where
  "holds x r \<longleftrightarrow> \<not> ctlReleased r \<and> ctlReservation r = x"

definition heldCount :: "Core \<Rightarrow> Reservation \<Rightarrow> nat" where
  "heldCount c x = length (filter (holds x) (cStore c))"

definition releasedCount :: "effect list \<Rightarrow> Reservation \<Rightarrow> nat" where
  "releasedCount es x = count_list es (ReleaseIDs x)"

definition balance :: "batch \<Rightarrow> Reservation \<Rightarrow> nat" where
  "balance s x = heldCount (fst s) x + releasedCount (hist s) x"

lemma filter_update:
  assumes "i < length xs"
  shows "length (filter P (xs[i := y])) + (if P (xs ! i) then 1 else 0) = length (filter P xs) + (if P y then 1 else 0)"
proof -
  have "xs = take i xs @ xs ! i # drop (Suc i) xs"
    by (rule id_take_nth_drop [OF assms])
  then have "length (filter P xs) = length (filter P (take i xs @ xs ! i # drop (Suc i) xs))"
    by simp
  then show ?thesis
    by (simp add: upd_conv_take_nth_drop [OF assms])
qed

lemma heldCount_setControl:
  assumes "\<And>r. holds x (f r) = holds x r"
  shows "heldCount (setControl i f c) x = heldCount c x"
proof (cases "i < length (cStore c)")
  case True
  then show ?thesis
    using filter_update [OF True, of "holds x" "f (cStore c ! i)"] assms by (simp add: heldCount_def setControl_def)
qed (simp add: heldCount_def setControl_def not_less list_update_beyond)

lemma heldCount_keeps: "cStore c' = cStore c \<Longrightarrow> heldCount c' x = heldCount c x"
  by (simp add: heldCount_def)

lemma releasedCount_append [simp]: "releasedCount (es @ fs) x = releasedCount es x + releasedCount fs x"
  by (simp add: releasedCount_def)

section \<open>Controls\<close>

lemma store_setControl: "cStore (setControl i f c) = (cStore c)[i := f (cStore c ! i)]"
  by (simp add: setControl_def)

lemma nth_setControl [simp]:
  "j < length (cStore c) \<Longrightarrow> cStore (setControl i f c) ! j = (if i = j then f (cStore c ! j) else cStore c ! j)"
  by (auto simp: setControl_def nth_list_update)

lemma length_setControl [simp]: "length (cStore (setControl i f c)) = length (cStore c)"
  by (simp add: setControl_def)

lemma writersOf_setControl [simp]: "writersOf (setControl i f c) j = writersOf c j"
  by (simp add: writersOf_def)

lemma idsOK_controls: "idsOK X c \<Longrightarrow> cControls c cmd = Some i \<Longrightarrow>
    i < length (cStore c) \<and> ctlCommand (cStore c ! i) = cmd \<and> \<not> ctlReleased (cStore c ! i)"
  by (auto simp: idsOK_def controlsOK_def)

lemma logicalCmd_setControl:
  assumes "idsOK X c" and "\<And>r. ctlLogical (f r) \<Longrightarrow> ctlLogical r"
  shows "logicalCmd (setControl i f c) cmd \<Longrightarrow> logicalCmd c cmd"
  using assms idsOK_controls [OF assms(1), of cmd]
  by (auto simp: logicalCmd_def split: option.splits if_splits)

text \<open>Flags of a control that play no part in its ownership.\<close>

lemma idsOK_flag:
  assumes ok: "idsOK X c" and same: "\<And>r. ctlLogical (f r) = ctlLogical r" "\<And>r. ctlWriters (f r) = ctlWriters r"
      "\<And>r. ctlReleased (f r) = ctlReleased r" "\<And>r. ctlCommand (f r) = ctlCommand r"
  shows "idsOK X (setControl i f c)"
proof -
  have "logicalCmd (setControl i f c) cmd = logicalCmd c cmd" for cmd
    using idsOK_controls [OF ok, of cmd] by (simp add: logicalCmd_def same split: option.split)
  moreover have "ctlOK (setControl i f c) j" if "j < length (cStore c)" for j
    using ok that by (simp add: idsOK_def ctlOK_def Let_def same)
  moreover have "controlsOK (setControl i f c)"
    using idsOK_controls [OF ok] by (simp add: controlsOK_def same)
  moreover have "resOK c \<Longrightarrow> resOK (setControl i f c)"
    by (rule resOK_frame) (simp_all add: calculation)
  ultimately show ?thesis
    using ok by (simp add: idsOK_def opsOK_def settledOK_def Let_def same)
qed

text \<open>Ending the wait for an answer leaves only the release open.\<close>

lemma idsOK_unlogical:
  assumes ok: "idsOK X c" and f: "\<And>r. \<not> ctlLogical (f r)" "\<And>r. ctlWriters (f r) = ctlWriters r"
      "\<And>r. ctlReleased (f r) = ctlReleased r" "\<And>r. ctlCommand (f r) = ctlCommand r"
  shows "idsOK (insert i X) (setControl i f c)"
proof -
  have "logicalCmd (setControl i f c) cmd \<Longrightarrow> logicalCmd c cmd" for cmd
    by (rule logicalCmd_setControl [OF ok]) (simp_all add: f)
  then have "resOK (setControl i f c)"
    using ok resOK_frame [of c "setControl i f c"] by (simp add: idsOK_def)
  moreover have "ctlOK (setControl i f c) j" if "j < length (cStore c)" for j
    using ok that by (simp add: idsOK_def ctlOK_def Let_def f)
  moreover have "controlsOK (setControl i f c)"
    using idsOK_controls [OF ok] by (simp add: controlsOK_def f)
  ultimately show ?thesis
    using ok by (simp add: idsOK_def opsOK_def settledOK_def Let_def f)
qed

lemma fst_release:
  "fst (release i s) =
     (let c = fst s; r = cStore c ! i
      in if ctlLogical r \<or> ctlWriters r \<noteq> 0 \<or> ctlReleased r then c
         else let c = setControl i (\<lambda>r. r\<lparr>ctlReleased := True\<rparr>) c
              in if cControls c (ctlCommand r) = Some i then c\<lparr>cControls := (cControls c)(ctlCommand r := None)\<rparr> else c)"
  by (simp add: release_def Let_def)

lemma release_keeps_control [simp]:
  "length (cStore (fst (release i s))) = length (cStore (fst s))"
  "j < length (cStore (fst s)) \<Longrightarrow> ctlCommand (cStore (fst (release i s)) ! j) = ctlCommand (cStore (fst s) ! j)"
  "j < length (cStore (fst s)) \<Longrightarrow> ctlLogical (cStore (fst (release i s)) ! j) = ctlLogical (cStore (fst s) ! j)"
  "j < length (cStore (fst s)) \<Longrightarrow> ctlWritten (cStore (fst (release i s)) ! j) = ctlWritten (cStore (fst s) ! j)"
  "j < length (cStore (fst s)) \<Longrightarrow> ctlWriters (cStore (fst (release i s)) ! j) = ctlWriters (cStore (fst s) ! j)"
  "j < length (cStore (fst s)) \<Longrightarrow> ctlFrame (cStore (fst (release i s)) ! j) = ctlFrame (cStore (fst s) ! j)"
  by (auto simp: fst_release Let_def)

lemma controls_release:
  assumes ok: "idsOK X (fst s)"
  shows "cControls (fst (release i s)) cmd =
     (let r = cStore (fst s) ! i
      in if cControls (fst s) cmd = Some i \<and> \<not> (ctlLogical r \<or> ctlWriters r \<noteq> 0 \<or> ctlReleased r) then None
         else cControls (fst s) cmd)"
proof -
  let ?r = "cStore (fst s) ! i"
  have cmd: "cControls (fst s) cmd = Some i \<Longrightarrow> ctlCommand ?r = cmd"
    using idsOK_controls [OF ok] by blast
  consider "ctlLogical ?r \<or> ctlWriters ?r \<noteq> 0 \<or> ctlReleased ?r"
    | "\<not> (ctlLogical ?r \<or> ctlWriters ?r \<noteq> 0 \<or> ctlReleased ?r)" "cControls (fst s) (ctlCommand ?r) = Some i"
    | "\<not> (ctlLogical ?r \<or> ctlWriters ?r \<noteq> 0 \<or> ctlReleased ?r)" "cControls (fst s) (ctlCommand ?r) \<noteq> Some i"
    by blast
  then show ?thesis
  proof cases
    case 1
    then have "fst (release i s) = fst s"
      unfolding fst_release Let_def by (rule if_P)
    then show ?thesis
      using 1 by (auto simp: Let_def)
  next
    case 2
    then have "fst (release i s) = (setControl i (\<lambda>r. r\<lparr>ctlReleased := True\<rparr>) (fst s))
        \<lparr>cControls := (cControls (fst s))(ctlCommand ?r := None)\<rparr>"
      by (simp add: fst_release Let_def)
    moreover have "cControls (fst s) cmd = Some i \<longleftrightarrow> cmd = ctlCommand ?r"
      using 2(2) cmd by blast
    ultimately show ?thesis
      using 2(1) by (simp add: Let_def)
  next
    case 3
    then have "fst (release i s) = setControl i (\<lambda>r. r\<lparr>ctlReleased := True\<rparr>) (fst s)"
      by (simp add: fst_release Let_def)
    moreover have "cControls (fst s) cmd \<noteq> Some i"
      using 3(2) cmd by blast
    ultimately show ?thesis
      by simp
  qed
qed

lemma logicalCmd_release:
  assumes ok: "idsOK X (fst s)"
  shows "logicalCmd (fst (release i s)) cmd = logicalCmd (fst s) cmd"
proof (cases "cControls (fst s) cmd")
  case (Some j)
  then have "j < length (cStore (fst s))"
    using idsOK_controls [OF ok] by blast
  then show ?thesis
    using Some by (simp add: logicalCmd_def controls_release [OF ok] Let_def)
qed (simp add: logicalCmd_def controls_release [OF ok] Let_def)

lemma released_release:
  assumes "\<not> ctlLogical (cStore (fst s) ! i)" "ctlWriters (cStore (fst s) ! i) = 0" "j < length (cStore (fst s))"
  shows "ctlReleased (cStore (fst (release i s)) ! j) \<longleftrightarrow> j = i \<or> ctlReleased (cStore (fst s) ! j)"
  using assms by (auto simp: fst_release Let_def)

lemma release_keeps [simp]:
  "cOperations (fst (release i s)) = cOperations (fst s)" "cReservations (fst (release i s)) = cReservations (fst s)"
  "cSerial (fst (release i s)) = cSerial (fst s)"
  by (simp_all add: fst_release Let_def)

lemma writersOf_release [simp]: "writersOf (fst (release i s)) j = writersOf (fst s) j"
  by (simp add: writersOf_def)

lemma idsOK_release:
  assumes ok: "idsOK (insert i X) (fst s)" and i: "i < length (cStore (fst s))"
  shows "idsOK X (fst (release i s))"
proof (cases "ctlLogical (cStore (fst s) ! i) \<or> ctlWriters (cStore (fst s) ! i) \<noteq> 0 \<or> ctlReleased (cStore (fst s) ! i)")
  case True
  then have "settledOK (insert i X) (fst s) \<Longrightarrow> settledOK X (fst s)"
    by (auto simp: settledOK_def)
  then show ?thesis
    using ok True by (simp add: fst_release idsOK_def Let_def)
next
  case False
  then have r: "ctlReleased (cStore (fst (release i s)) ! j) \<longleftrightarrow> j = i \<or> ctlReleased (cStore (fst s) ! j)"
    if "j < length (cStore (fst s))" for j
    using that by (simp add: released_release)
  have c: "cControls (fst (release i s)) cmd = (if cControls (fst s) cmd = Some i then None else cControls (fst s) cmd)" for cmd
    using False by (simp add: controls_release [OF ok])
  have "resOK (fst (release i s))"
    using ok resOK_frame [of "fst s" "fst (release i s)"] by (simp add: idsOK_def logicalCmd_release [OF ok])
  moreover have "ctlOK (fst (release i s)) j" if "j < length (cStore (fst s))" for j
    using ok that False by (auto simp: idsOK_def ctlOK_def Let_def r c)
  moreover have "controlsOK (fst (release i s))"
    using idsOK_controls [OF ok] by (auto simp: controlsOK_def r c split: if_splits)
  moreover have "settledOK X (fst (release i s))"
    using ok by (auto simp: idsOK_def settledOK_def Let_def r)
  moreover have "opsOK (fst (release i s))"
    using ok by (simp add: idsOK_def opsOK_def)
  ultimately show ?thesis
    by (simp add: idsOK_def)
qed

lemma hist_release:
  "hist (release i s) = hist s @
     (let r = cStore (fst s) ! i
      in if ctlLogical r \<or> ctlWriters r \<noteq> 0 \<or> ctlReleased r then [] else [ReleaseIDs (ctlReservation r)])"
  by (simp add: release_def Let_def hist_def emit_def)

lemma heldCount_release:
  assumes "i < length (cStore (fst s))" "\<not> ctlLogical (cStore (fst s) ! i)" "ctlWriters (cStore (fst s) ! i) = 0"
    "\<not> ctlReleased (cStore (fst s) ! i)"
  shows "heldCount (fst (release i s)) x + (if ctlReservation (cStore (fst s) ! i) = x then 1 else 0) = heldCount (fst s) x"
proof -
  have "cStore (fst (release i s)) = (cStore (fst s))[i := (cStore (fst s) ! i)\<lparr>ctlReleased := True\<rparr>]"
    using assms by (simp add: fst_release Let_def store_setControl)
  then show ?thesis
    using filter_update [OF assms(1), of "holds x" "(cStore (fst s) ! i)\<lparr>ctlReleased := True\<rparr>"] assms(4)
    by (simp add: heldCount_def holds_def)
qed

lemma balance_release:
  assumes "i < length (cStore (fst s))"
  shows "balance (release i s) x = balance s x"
proof (cases "ctlLogical (cStore (fst s) ! i) \<or> ctlWriters (cStore (fst s) ! i) \<noteq> 0 \<or> ctlReleased (cStore (fst s) ! i)")
  case True
  then have "release i s = s"
    unfolding release_def Let_def by (rule if_P)
  then show ?thesis
    by simp
next
  case False
  then show ?thesis
    using heldCount_release [OF assms, of x] by (auto simp: balance_def hist_release Let_def releasedCount_def)
qed

lemma balance_upd:
  assumes "\<And>x. heldCount (f (fst s)) x = heldCount (fst s) x"
  shows "balance (upd f s) x = balance s x"
  using assms by (simp add: balance_def)

lemma balance_emit: "(\<And>y. k \<noteq> ReleaseIDs y) \<Longrightarrow> balance (emit k s) x = balance s x"
  by (simp add: balance_def releasedCount_def)

section \<open>Settling and dropping\<close>

lemma idsOK_settle:
  assumes "idsOK {} (fst s)" "i < length (cStore (fst s))"
  shows "idsOK {} (fst (settle i s))"
  unfolding settle_def using assms by (intro idsOK_release) (simp_all add: idsOK_unlogical)

lemma balance_settle: "i < length (cStore (fst s)) \<Longrightarrow> balance (settle i s) x = balance s x"
  by (simp add: settle_def balance_release balance_upd heldCount_setControl holds_def)

lemma settle_logical:
  assumes "i < length (cStore (fst s))" "j < length (cStore (fst s))"
  shows "ctlLogical (cStore (fst (settle i s)) ! j) \<longleftrightarrow> j \<noteq> i \<and> ctlLogical (cStore (fst s) ! j)"
  using assms by (auto simp: settle_def)

lemma dropControl_cases:
  obtains "cControls (fst s) cmd = None" "dropControl cmd s = s"
  | i where "cControls (fst s) cmd = Some i"
      "dropControl cmd s = release i (upd (setControl i (\<lambda>r. r\<lparr>ctlLogical := False\<rparr>)) s)"
  by (cases "cControls (fst s) cmd") (auto simp: dropControl_def)

lemma dropControl_ids:
  assumes ok: "idsOK {} (fst s)"
  shows "idsOK {} (fst (dropControl cmd s))" and "balance (dropControl cmd s) x = balance s x"
    and "length (cStore (fst (dropControl cmd s))) = length (cStore (fst s))"
    and "j < length (cStore (fst s)) \<Longrightarrow> ctlCommand (cStore (fst (dropControl cmd s)) ! j) = ctlCommand (cStore (fst s) ! j)"
    and "j < length (cStore (fst s)) \<Longrightarrow> ctlLogical (cStore (fst (dropControl cmd s)) ! j) \<longleftrightarrow>
           ctlCommand (cStore (fst s) ! j) \<noteq> cmd \<and> ctlLogical (cStore (fst s) ! j)"
proof -
  have *: "idsOK {} (fst (dropControl cmd s)) \<and> balance (dropControl cmd s) x = balance s x \<and>
      length (cStore (fst (dropControl cmd s))) = length (cStore (fst s)) \<and>
      (\<forall>j < length (cStore (fst s)). ctlCommand (cStore (fst (dropControl cmd s)) ! j) = ctlCommand (cStore (fst s) ! j) \<and>
        (ctlLogical (cStore (fst (dropControl cmd s)) ! j) \<longleftrightarrow>
           ctlCommand (cStore (fst s) ! j) \<noteq> cmd \<and> ctlLogical (cStore (fst s) ! j)))"
  proof (rule dropControl_cases [of s cmd])
    assume "cControls (fst s) cmd = None" "dropControl cmd s = s"
    then show ?thesis
      using ok by (auto simp: idsOK_def ctlOK_def Let_def)
  next
    fix i
    assume i: "cControls (fst s) cmd = Some i"
      and d: "dropControl cmd s = release i (upd (setControl i (\<lambda>r. r\<lparr>ctlLogical := False\<rparr>)) s)"
    note ci = idsOK_controls [OF ok i]
    have "idsOK {} (fst (dropControl cmd s))"
      unfolding d using ok ci by (intro idsOK_release) (simp_all add: idsOK_unlogical)
    moreover have "balance (dropControl cmd s) x = balance s x"
      unfolding d using ci by (simp add: balance_release balance_upd heldCount_setControl holds_def)
    moreover have "ctlLogical (cStore (fst s) ! j) \<Longrightarrow> ctlCommand (cStore (fst s) ! j) = cmd \<Longrightarrow> j = i"
      if "j < length (cStore (fst s))" for j
      using ok that i by (auto simp: idsOK_def ctlOK_def Let_def)
    ultimately show ?thesis
      unfolding d using ci by auto
  qed
  then show "idsOK {} (fst (dropControl cmd s))" "balance (dropControl cmd s) x = balance s x"
    "length (cStore (fst (dropControl cmd s))) = length (cStore (fst s))"
    "j < length (cStore (fst s)) \<Longrightarrow> ctlCommand (cStore (fst (dropControl cmd s)) ! j) = ctlCommand (cStore (fst s) ! j)"
    "j < length (cStore (fst s)) \<Longrightarrow> ctlLogical (cStore (fst (dropControl cmd s)) ! j) \<longleftrightarrow>
           ctlCommand (cStore (fst s) ! j) \<noteq> cmd \<and> ctlLogical (cStore (fst s) ! j)"
    by auto
qed

end
