(* ===== verification/CoreEnd.thy ===== *)
theory CoreEnd
  imports CoreIds
begin

text \<open>
  Termination of a connection: what \<open>terminate\<close> leaves in the core and adds to the history, and that it
  keeps the ownership of identifiers, ends every wait for an answer and stops every timer.
\<close>

lemma clearCore_keeps [simp]:
  "cHandshakePending (clearCore p c) = cHandshakePending c" "cCloseOutcome (clearCore p c) = cCloseOutcome c"
  "cHandshake (clearCore p c) = cHandshake c" "cReceivedSequence (clearCore p c) = cReceivedSequence c"
  "cCloseLocal (clearCore p c) = cCloseLocal c" "cDisconnectWaiting (clearCore p c) = cDisconnectWaiting c"
  "cPeerDisconnectSelected (clearCore p c) = cPeerDisconnectSelected c" "cPeerCause (clearCore p c) = cPeerCause c"
  "cPeerDPR (clearCore p c) = cPeerDPR c" "cDisconnectToken (clearCore p c) = cDisconnectToken c"
  "cFenceToken (clearCore p c) = cFenceToken c" "cCloseRequest (clearCore p c) = cCloseRequest c"
  "cLateCERToken (clearCore p c) = cLateCERToken c" "cLateCER (clearCore p c) = cLateCER c"
  "cCfg (clearCore p c) = cCfg c" "cSerial (clearCore p c) = cSerial c" "cStarted (clearCore p c) = cStarted c"
  "cTerminal (clearCore p c) = cTerminal c" "cFrozen (clearCore p c) = cFrozen c"
  "cCERDeferred (clearCore p c) = cCERDeferred c" "cPassiveResponder (clearCore p c) = cPassiveResponder c"
  "cPassiveCER (clearCore p c) = cPassiveCER c" "cPassiveWatchdog (clearCore p c) = cPassiveWatchdog c"
  "cPassivePresent (clearCore p c) = cPassivePresent c" "cCaps (clearCore p c) = cCaps c"
  "cCompletedCEA (clearCore p c) = cCompletedCEA c" "cTimers (clearCore p c) = cTimers c"
  "cReservations (clearCore p c) = cReservations c" "cControls (clearCore p c) = cControls c"
  "cStore (clearCore p c) = cStore c" "cOperations (clearCore p c) = cOperations c"
  "cCloseCause (clearCore p c) = cCloseCause c"
  by (simp_all add: clearCore_def)

lemma fold_stop_keeps [simp]:
  "cHandshakePending (fst (fold stop ks s)) = cHandshakePending (fst s)"
  "cCallbackReady (fst (fold stop ks s)) = cCallbackReady (fst s)"
  "cContinuations (fst (fold stop ks s)) = cContinuations (fst s)"
  "cCloseOutcome (fst (fold stop ks s)) = cCloseOutcome (fst s)"
  "cHandshake (fst (fold stop ks s)) = cHandshake (fst s)" "cWdNext (fst (fold stop ks s)) = cWdNext (fst s)"
  "cReceivedSequence (fst (fold stop ks s)) = cReceivedSequence (fst s)"
  "cDeferredExpiry (fst (fold stop ks s)) = cDeferredExpiry (fst s)"
  "cCloseLocal (fst (fold stop ks s)) = cCloseLocal (fst s)"
  "cDisconnectWaiting (fst (fold stop ks s)) = cDisconnectWaiting (fst s)"
  "cPeerDisconnectSelected (fst (fold stop ks s)) = cPeerDisconnectSelected (fst s)"
  "cPeerCause (fst (fold stop ks s)) = cPeerCause (fst s)" "cPeerDPR (fst (fold stop ks s)) = cPeerDPR (fst s)"
  "cDisconnectToken (fst (fold stop ks s)) = cDisconnectToken (fst s)"
  "cFenceToken (fst (fold stop ks s)) = cFenceToken (fst s)"
  "cCloseRequest (fst (fold stop ks s)) = cCloseRequest (fst s)"
  "cEarlyDPA (fst (fold stop ks s)) = cEarlyDPA (fst s)"
  "cLateCERToken (fst (fold stop ks s)) = cLateCERToken (fst s)" "cLateCER (fst (fold stop ks s)) = cLateCER (fst s)"
  "cCfg (fst (fold stop ks s)) = cCfg (fst s)" "cPhase (fst (fold stop ks s)) = cPhase (fst s)"
  "cSerial (fst (fold stop ks s)) = cSerial (fst s)" "cStarted (fst (fold stop ks s)) = cStarted (fst s)"
  "cReady (fst (fold stop ks s)) = cReady (fst s)" "cTerminal (fst (fold stop ks s)) = cTerminal (fst s)"
  "cFrozen (fst (fold stop ks s)) = cFrozen (fst s)" "cCERDeferred (fst (fold stop ks s)) = cCERDeferred (fst s)"
  "cPassiveResponder (fst (fold stop ks s)) = cPassiveResponder (fst s)"
  "cPassiveCER (fst (fold stop ks s)) = cPassiveCER (fst s)"
  "cPassiveWatchdog (fst (fold stop ks s)) = cPassiveWatchdog (fst s)"
  "cPassivePresent (fst (fold stop ks s)) = cPassivePresent (fst s)"
  "cCandidateToken (fst (fold stop ks s)) = cCandidateToken (fst s)"
  "cAdmission (fst (fold stop ks s)) = cAdmission (fst s)" "cCaps (fst (fold stop ks s)) = cCaps (fst s)"
  "cCer (fst (fold stop ks s)) = cCer (fst s)" "cCompletedCEA (fst (fold stop ks s)) = cCompletedCEA (fst s)"
  "cHookToken (fst (fold stop ks s)) = cHookToken (fst s)"
  "cReservations (fst (fold stop ks s)) = cReservations (fst s)"
  "cControls (fst (fold stop ks s)) = cControls (fst s)" "cStore (fst (fold stop ks s)) = cStore (fst s)"
  "cOperations (fst (fold stop ks s)) = cOperations (fst s)"
  "cCloseCause (fst (fold stop ks s)) = cCloseCause (fst s)" "cWd (fst (fold stop ks s)) = cWd (fst s)"
  by (induction ks arbitrary: s) simp_all

lemma release_keeps_fields [simp]:
  "cHandshakePending (fst (release i s)) = cHandshakePending (fst s)"
  "cCallbackReady (fst (release i s)) = cCallbackReady (fst s)"
  "cContinuations (fst (release i s)) = cContinuations (fst s)"
  "cCloseOutcome (fst (release i s)) = cCloseOutcome (fst s)" "cHandshake (fst (release i s)) = cHandshake (fst s)"
  "cWdNext (fst (release i s)) = cWdNext (fst s)" "cReceivedSequence (fst (release i s)) = cReceivedSequence (fst s)"
  "cDeferredExpiry (fst (release i s)) = cDeferredExpiry (fst s)"
  "cCloseLocal (fst (release i s)) = cCloseLocal (fst s)"
  "cDisconnectWaiting (fst (release i s)) = cDisconnectWaiting (fst s)"
  "cPeerDisconnectSelected (fst (release i s)) = cPeerDisconnectSelected (fst s)"
  "cPeerCause (fst (release i s)) = cPeerCause (fst s)" "cPeerDPR (fst (release i s)) = cPeerDPR (fst s)"
  "cDisconnectToken (fst (release i s)) = cDisconnectToken (fst s)"
  "cFenceToken (fst (release i s)) = cFenceToken (fst s)" "cCloseRequest (fst (release i s)) = cCloseRequest (fst s)"
  "cEarlyDPA (fst (release i s)) = cEarlyDPA (fst s)" "cLateCERToken (fst (release i s)) = cLateCERToken (fst s)"
  "cLateCER (fst (release i s)) = cLateCER (fst s)" "cCfg (fst (release i s)) = cCfg (fst s)"
  "cPhase (fst (release i s)) = cPhase (fst s)" "cSerial (fst (release i s)) = cSerial (fst s)"
  "cStarted (fst (release i s)) = cStarted (fst s)" "cReady (fst (release i s)) = cReady (fst s)"
  "cTerminal (fst (release i s)) = cTerminal (fst s)" "cFrozen (fst (release i s)) = cFrozen (fst s)"
  "cCERDeferred (fst (release i s)) = cCERDeferred (fst s)"
  "cPassiveResponder (fst (release i s)) = cPassiveResponder (fst s)"
  "cPassiveCER (fst (release i s)) = cPassiveCER (fst s)"
  "cPassiveWatchdog (fst (release i s)) = cPassiveWatchdog (fst s)"
  "cPassivePresent (fst (release i s)) = cPassivePresent (fst s)"
  "cCandidateToken (fst (release i s)) = cCandidateToken (fst s)"
  "cAdmission (fst (release i s)) = cAdmission (fst s)" "cCaps (fst (release i s)) = cCaps (fst s)"
  "cCer (fst (release i s)) = cCer (fst s)" "cCompletedCEA (fst (release i s)) = cCompletedCEA (fst s)"
  "cHookToken (fst (release i s)) = cHookToken (fst s)" "cTimers (fst (release i s)) = cTimers (fst s)"
  "cReservations (fst (release i s)) = cReservations (fst s)" "cOperations (fst (release i s)) = cOperations (fst s)"
  "cCloseCause (fst (release i s)) = cCloseCause (fst s)" "cWd (fst (release i s)) = cWd (fst s)"
  by (simp_all add: fst_release Let_def)

lemma dropControl_keeps [simp]:
  "cHandshakePending (fst (dropControl cmd s)) = cHandshakePending (fst s)"
  "cCallbackReady (fst (dropControl cmd s)) = cCallbackReady (fst s)"
  "cContinuations (fst (dropControl cmd s)) = cContinuations (fst s)"
  "cCloseOutcome (fst (dropControl cmd s)) = cCloseOutcome (fst s)"
  "cHandshake (fst (dropControl cmd s)) = cHandshake (fst s)" "cWdNext (fst (dropControl cmd s)) = cWdNext (fst s)"
  "cReceivedSequence (fst (dropControl cmd s)) = cReceivedSequence (fst s)"
  "cDeferredExpiry (fst (dropControl cmd s)) = cDeferredExpiry (fst s)"
  "cCloseLocal (fst (dropControl cmd s)) = cCloseLocal (fst s)"
  "cDisconnectWaiting (fst (dropControl cmd s)) = cDisconnectWaiting (fst s)"
  "cPeerDisconnectSelected (fst (dropControl cmd s)) = cPeerDisconnectSelected (fst s)"
  "cPeerCause (fst (dropControl cmd s)) = cPeerCause (fst s)" "cPeerDPR (fst (dropControl cmd s)) = cPeerDPR (fst s)"
  "cDisconnectToken (fst (dropControl cmd s)) = cDisconnectToken (fst s)"
  "cFenceToken (fst (dropControl cmd s)) = cFenceToken (fst s)"
  "cCloseRequest (fst (dropControl cmd s)) = cCloseRequest (fst s)"
  "cEarlyDPA (fst (dropControl cmd s)) = cEarlyDPA (fst s)"
  "cLateCERToken (fst (dropControl cmd s)) = cLateCERToken (fst s)"
  "cLateCER (fst (dropControl cmd s)) = cLateCER (fst s)" "cCfg (fst (dropControl cmd s)) = cCfg (fst s)"
  "cPhase (fst (dropControl cmd s)) = cPhase (fst s)" "cSerial (fst (dropControl cmd s)) = cSerial (fst s)"
  "cStarted (fst (dropControl cmd s)) = cStarted (fst s)" "cReady (fst (dropControl cmd s)) = cReady (fst s)"
  "cTerminal (fst (dropControl cmd s)) = cTerminal (fst s)" "cFrozen (fst (dropControl cmd s)) = cFrozen (fst s)"
  "cCERDeferred (fst (dropControl cmd s)) = cCERDeferred (fst s)"
  "cPassiveResponder (fst (dropControl cmd s)) = cPassiveResponder (fst s)"
  "cPassiveCER (fst (dropControl cmd s)) = cPassiveCER (fst s)"
  "cPassiveWatchdog (fst (dropControl cmd s)) = cPassiveWatchdog (fst s)"
  "cPassivePresent (fst (dropControl cmd s)) = cPassivePresent (fst s)"
  "cCandidateToken (fst (dropControl cmd s)) = cCandidateToken (fst s)"
  "cAdmission (fst (dropControl cmd s)) = cAdmission (fst s)" "cCaps (fst (dropControl cmd s)) = cCaps (fst s)"
  "cCer (fst (dropControl cmd s)) = cCer (fst s)" "cCompletedCEA (fst (dropControl cmd s)) = cCompletedCEA (fst s)"
  "cHookToken (fst (dropControl cmd s)) = cHookToken (fst s)" "cTimers (fst (dropControl cmd s)) = cTimers (fst s)"
  "cReservations (fst (dropControl cmd s)) = cReservations (fst s)"
  "cOperations (fst (dropControl cmd s)) = cOperations (fst s)"
  "cCloseCause (fst (dropControl cmd s)) = cCloseCause (fst s)" "cWd (fst (dropControl cmd s)) = cWd (fst s)"
  by (simp_all add: dropControl_def split: option.split)

lemma settle_keeps [simp]:
  "cHandshakePending (fst (settle i s)) = cHandshakePending (fst s)"
  "cCallbackReady (fst (settle i s)) = cCallbackReady (fst s)"
  "cContinuations (fst (settle i s)) = cContinuations (fst s)"
  "cCloseOutcome (fst (settle i s)) = cCloseOutcome (fst s)" "cHandshake (fst (settle i s)) = cHandshake (fst s)"
  "cWdNext (fst (settle i s)) = cWdNext (fst s)" "cReceivedSequence (fst (settle i s)) = cReceivedSequence (fst s)"
  "cDeferredExpiry (fst (settle i s)) = cDeferredExpiry (fst s)"
  "cCloseLocal (fst (settle i s)) = cCloseLocal (fst s)"
  "cDisconnectWaiting (fst (settle i s)) = cDisconnectWaiting (fst s)"
  "cPeerDisconnectSelected (fst (settle i s)) = cPeerDisconnectSelected (fst s)"
  "cPeerCause (fst (settle i s)) = cPeerCause (fst s)" "cPeerDPR (fst (settle i s)) = cPeerDPR (fst s)"
  "cDisconnectToken (fst (settle i s)) = cDisconnectToken (fst s)"
  "cFenceToken (fst (settle i s)) = cFenceToken (fst s)" "cCloseRequest (fst (settle i s)) = cCloseRequest (fst s)"
  "cEarlyDPA (fst (settle i s)) = cEarlyDPA (fst s)" "cLateCERToken (fst (settle i s)) = cLateCERToken (fst s)"
  "cLateCER (fst (settle i s)) = cLateCER (fst s)" "cCfg (fst (settle i s)) = cCfg (fst s)"
  "cPhase (fst (settle i s)) = cPhase (fst s)" "cSerial (fst (settle i s)) = cSerial (fst s)"
  "cStarted (fst (settle i s)) = cStarted (fst s)" "cReady (fst (settle i s)) = cReady (fst s)"
  "cTerminal (fst (settle i s)) = cTerminal (fst s)" "cFrozen (fst (settle i s)) = cFrozen (fst s)"
  "cCERDeferred (fst (settle i s)) = cCERDeferred (fst s)"
  "cPassiveResponder (fst (settle i s)) = cPassiveResponder (fst s)"
  "cPassiveCER (fst (settle i s)) = cPassiveCER (fst s)"
  "cPassiveWatchdog (fst (settle i s)) = cPassiveWatchdog (fst s)"
  "cPassivePresent (fst (settle i s)) = cPassivePresent (fst s)"
  "cCandidateToken (fst (settle i s)) = cCandidateToken (fst s)" "cAdmission (fst (settle i s)) = cAdmission (fst s)"
  "cCaps (fst (settle i s)) = cCaps (fst s)" "cCer (fst (settle i s)) = cCer (fst s)"
  "cCompletedCEA (fst (settle i s)) = cCompletedCEA (fst s)" "cHookToken (fst (settle i s)) = cHookToken (fst s)"
  "cTimers (fst (settle i s)) = cTimers (fst s)" "cReservations (fst (settle i s)) = cReservations (fst s)"
  "cOperations (fst (settle i s)) = cOperations (fst s)" "cCloseCause (fst (settle i s)) = cCloseCause (fst s)"
  "cWd (fst (settle i s)) = cWd (fst s)"
  by (simp_all add: settle_def)

lemma noticesAtEnd_keeps [simp]:
  "cCallbackReady (fst (noticesAtEnd s)) = cCallbackReady (fst s)"
  "cContinuations (fst (noticesAtEnd s)) = cContinuations (fst s)"
  "cCloseOutcome (fst (noticesAtEnd s)) = cCloseOutcome (fst s)"
  "cHandshake (fst (noticesAtEnd s)) = cHandshake (fst s)" "cWdNext (fst (noticesAtEnd s)) = cWdNext (fst s)"
  "cReceivedSequence (fst (noticesAtEnd s)) = cReceivedSequence (fst s)"
  "cDeferredExpiry (fst (noticesAtEnd s)) = cDeferredExpiry (fst s)"
  "cCloseLocal (fst (noticesAtEnd s)) = cCloseLocal (fst s)"
  "cPeerDisconnectSelected (fst (noticesAtEnd s)) = cPeerDisconnectSelected (fst s)"
  "cPeerCause (fst (noticesAtEnd s)) = cPeerCause (fst s)" "cPeerDPR (fst (noticesAtEnd s)) = cPeerDPR (fst s)"
  "cDisconnectToken (fst (noticesAtEnd s)) = cDisconnectToken (fst s)"
  "cFenceToken (fst (noticesAtEnd s)) = cFenceToken (fst s)"
  "cCloseRequest (fst (noticesAtEnd s)) = cCloseRequest (fst s)"
  "cEarlyDPA (fst (noticesAtEnd s)) = cEarlyDPA (fst s)"
  "cLateCERToken (fst (noticesAtEnd s)) = cLateCERToken (fst s)" "cLateCER (fst (noticesAtEnd s)) = cLateCER (fst s)"
  "cCfg (fst (noticesAtEnd s)) = cCfg (fst s)" "cPhase (fst (noticesAtEnd s)) = cPhase (fst s)"
  "cSerial (fst (noticesAtEnd s)) = cSerial (fst s)" "cStarted (fst (noticesAtEnd s)) = cStarted (fst s)"
  "cReady (fst (noticesAtEnd s)) = cReady (fst s)" "cTerminal (fst (noticesAtEnd s)) = cTerminal (fst s)"
  "cFrozen (fst (noticesAtEnd s)) = cFrozen (fst s)" "cCERDeferred (fst (noticesAtEnd s)) = cCERDeferred (fst s)"
  "cPassiveResponder (fst (noticesAtEnd s)) = cPassiveResponder (fst s)"
  "cPassiveCER (fst (noticesAtEnd s)) = cPassiveCER (fst s)"
  "cPassiveWatchdog (fst (noticesAtEnd s)) = cPassiveWatchdog (fst s)"
  "cPassivePresent (fst (noticesAtEnd s)) = cPassivePresent (fst s)"
  "cCandidateToken (fst (noticesAtEnd s)) = cCandidateToken (fst s)"
  "cAdmission (fst (noticesAtEnd s)) = cAdmission (fst s)" "cCaps (fst (noticesAtEnd s)) = cCaps (fst s)"
  "cCer (fst (noticesAtEnd s)) = cCer (fst s)" "cCompletedCEA (fst (noticesAtEnd s)) = cCompletedCEA (fst s)"
  "cHookToken (fst (noticesAtEnd s)) = cHookToken (fst s)" "cTimers (fst (noticesAtEnd s)) = cTimers (fst s)"
  "cReservations (fst (noticesAtEnd s)) = cReservations (fst s)"
  "cControls (fst (noticesAtEnd s)) = cControls (fst s)" "cStore (fst (noticesAtEnd s)) = cStore (fst s)"
  "cOperations (fst (noticesAtEnd s)) = cOperations (fst s)"
  "cCloseCause (fst (noticesAtEnd s)) = cCloseCause (fst s)" "cWd (fst (noticesAtEnd s)) = cWd (fst s)"
  by (simp_all add: noticesAtEnd_def Let_def)

lemma fst_cancel [simp]: "fst (fold (\<lambda>t. emit (CancelSend t)) ts s) = fst s"
  by (induction ts arbitrary: s) simp_all

lemma fst_emitIf [simp]: "fst (if b then emit k s else s) = fst s"
  by simp

lemma terminate_keeps [simp]:
  "cCloseOutcome (fst (terminate p s)) = cCloseOutcome (fst s)"
  "cHandshake (fst (terminate p s)) = cHandshake (fst s)"
  "cReceivedSequence (fst (terminate p s)) = cReceivedSequence (fst s)"
  "cCloseLocal (fst (terminate p s)) = cCloseLocal (fst s)"
  "cPeerDisconnectSelected (fst (terminate p s)) = cPeerDisconnectSelected (fst s)"
  "cPeerCause (fst (terminate p s)) = cPeerCause (fst s)" "cPeerDPR (fst (terminate p s)) = cPeerDPR (fst s)"
  "cDisconnectToken (fst (terminate p s)) = cDisconnectToken (fst s)"
  "cFenceToken (fst (terminate p s)) = cFenceToken (fst s)"
  "cCloseRequest (fst (terminate p s)) = cCloseRequest (fst s)"
  "cLateCERToken (fst (terminate p s)) = cLateCERToken (fst s)" "cLateCER (fst (terminate p s)) = cLateCER (fst s)"
  "cCfg (fst (terminate p s)) = cCfg (fst s)" "cSerial (fst (terminate p s)) = cSerial (fst s)"
  "cStarted (fst (terminate p s)) = cStarted (fst s)" "cTerminal (fst (terminate p s)) = cTerminal (fst s)"
  "cFrozen (fst (terminate p s)) = cFrozen (fst s)" "cCERDeferred (fst (terminate p s)) = cCERDeferred (fst s)"
  "cPassiveResponder (fst (terminate p s)) = cPassiveResponder (fst s)"
  "cPassiveCER (fst (terminate p s)) = cPassiveCER (fst s)"
  "cPassiveWatchdog (fst (terminate p s)) = cPassiveWatchdog (fst s)"
  "cPassivePresent (fst (terminate p s)) = cPassivePresent (fst s)" "cCaps (fst (terminate p s)) = cCaps (fst s)"
  "cCompletedCEA (fst (terminate p s)) = cCompletedCEA (fst s)"
  "cReservations (fst (terminate p s)) = cReservations (fst s)"
  "cOperations (fst (terminate p s)) = cOperations (fst s)" "cCloseCause (fst (terminate p s)) = cCloseCause (fst s)"
  by (simp_all add: terminate_def Let_def controlCommands_def)

section \<open>What termination leaves\<close>

lemma terminate_sets [simp]:
  "cPhase (fst (terminate p s)) = p" "cEarlyDPA (fst (terminate p s)) = None" "cCandidateToken (fst (terminate p s)) = 0"
  "cHookToken (fst (terminate p s)) = 0" "cAdmission (fst (terminate p s)) = 0" "cReady (fst (terminate p s)) = False"
  "cCallbackReady (fst (terminate p s)) = False" "cContinuations (fst (terminate p s)) = Map.empty"
  "cCer (fst (terminate p s)) = None" "cWdNext (fst (terminate p s)) = None" "cDeferredExpiry (fst (terminate p s)) = None"
  "cHandshakePending (fst (terminate p s)) = False" "cDisconnectWaiting (fst (terminate p s)) = False"
  by (simp_all add: terminate_def Let_def controlCommands_def clearCore_def noticesAtEnd_def)

lemma terminate_wd:
  "cWd (fst (terminate p s)) =
     (let c = fst s in if kWatchdog (cCfg c) \<and> wdState (cWd c) \<noteq> WdInitial
        then (fst (Step (cWd c) ConnectionDown))\<lparr>Pending := False\<rparr> else cWd c)"
  by (simp add: terminate_def Let_def controlCommands_def clearCore_def)

lemma timers_stop: "cTimers (fst (stop k s)) j = (if j = k \<and> fst (cTimers (fst s) k) \<noteq> 0 then (0, 0) else cTimers (fst s) j)"
  by (simp add: fst_stop setTimer_def)

lemma allTimers_all: "k \<in> set allTimers"
  by (cases k) (simp_all add: allTimers_def)

lemma fold_stop_timer: "fst (cTimers (fst s) k) = 0 \<or> k \<in> set ks \<Longrightarrow> fst (cTimers (fst (fold stop ks s)) k) = 0"
proof (induction ks arbitrary: s)
  case (Cons a ks)
  from Cons.prems have "fst (cTimers (fst (stop a s)) k) = 0 \<or> k \<in> set ks"
    by (auto simp: timers_stop)
  from Cons.IH [OF this] show ?case
    by simp
qed simp

lemma terminate_timers [simp]: "fst (cTimers (fst (terminate p s)) k) = 0"
  using allTimers_all by (simp add: terminate_def Let_def controlCommands_def fold_stop_timer)

text \<open>The two halves of \<open>terminate\<close>: everything up to the controls, and the effects after them.\<close>

definition endControls :: "Phase \<Rightarrow> batch \<Rightarrow> batch" where
  "endControls p s = fold dropControl controlCommands (fold stop allTimers (upd (clearCore p) s))"

definition endEffects :: "Phase \<Rightarrow> batch \<Rightarrow> effect list" where
  "endEffects p s = map CancelSend (sort (map fst (cOperations (fst s)))) @ (if p = Closed then [CloseConnection] else []) @
     (if cHandshakePending (fst s)
      then [Notify (notice0\<lparr>nKind := HandshakeNotice, nOutcome := cCloseOutcome (fst s), nHandshake := cHandshake (fst s)\<rparr>) 0] else []) @
     (if cDisconnectWaiting (fst s)
      then [Notify (notice0\<lparr>nKind := DisconnectNotice, nOutcome := cCloseOutcome (fst s)\<rparr>) (cDisconnectToken (fst s))] else [])"

lemma hist_cancel: "hist (fold (\<lambda>t. emit (CancelSend t)) ts s) = hist s @ map CancelSend ts"
  by (induction ts arbitrary: s) simp_all

lemma hist_terminate: "hist (terminate p s) = hist (endControls p s) @ endEffects p s"
  by (simp add: terminate_def endControls_def endEffects_def Let_def noticesAtEnd_def notify_def notifyToken_def
        controlCommands_def hist_cancel)

lemma store_terminate: "cStore (fst (terminate p s)) = cStore (fst (endControls p s))"
  "cControls (fst (terminate p s)) = cControls (fst (endControls p s))"
  by (simp_all add: terminate_def endControls_def Let_def controlCommands_def)

lemma hist_fold_stop: "\<exists>es. hist (fold stop ks s) = hist s @ es \<and> (\<forall>e \<in> set es. \<exists>k t. e = StopTimer k t)"
proof (induction ks arbitrary: s)
  case (Cons k ks)
  from Cons.IH [of "stop k s"] show ?case
    by (auto simp: hist_stop)
qed simp

lemma hist_dropControl: "\<exists>es. hist (dropControl cmd s) = hist s @ es \<and> (\<forall>e \<in> set es. \<exists>x. e = ReleaseIDs x)"
  by (auto simp: dropControl_def hist_release Let_def split: option.split)

lemma hist_endControls:
  "\<exists>es. hist (endControls p s) = hist s @ es \<and> (\<forall>e \<in> set es. (\<exists>k t. e = StopTimer k t) \<or> (\<exists>x. e = ReleaseIDs x))"
proof -
  let ?a = "fold stop allTimers (upd (clearCore p) s)"
  obtain e0 where e0: "hist ?a = hist s @ e0" "\<forall>e \<in> set e0. \<exists>k t. e = StopTimer k t"
    using hist_fold_stop [of allTimers "upd (clearCore p) s"] by auto
  obtain e1 where e1: "hist (dropControl CapabilitiesExchange ?a) = hist ?a @ e1" "\<forall>e \<in> set e1. \<exists>x. e = ReleaseIDs x"
    using hist_dropControl by blast
  let ?b = "dropControl CapabilitiesExchange ?a"
  obtain e2 where e2: "hist (dropControl DeviceWatchdog ?b) = hist ?b @ e2" "\<forall>e \<in> set e2. \<exists>x. e = ReleaseIDs x"
    using hist_dropControl by blast
  let ?c = "dropControl DeviceWatchdog ?b"
  obtain e3 where e3: "hist (dropControl DisconnectPeer ?c) = hist ?c @ e3" "\<forall>e \<in> set e3. \<exists>x. e = ReleaseIDs x"
    using hist_dropControl by blast
  have "hist (endControls p s) = hist s @ (e0 @ e1 @ e2 @ e3)"
    using e0(1) e1(1) e2(1) e3(1) by (simp add: endControls_def controlCommands_def)
  moreover have "\<forall>e \<in> set (e0 @ e1 @ e2 @ e3). (\<exists>k t. e = StopTimer k t) \<or> (\<exists>x. e = ReleaseIDs x)"
    using e0(2) e1(2) e2(2) e3(2) by auto
  ultimately show ?thesis
    by blast
qed

section \<open>Ownership\<close>

lemma balance_stop [simp]: "balance (stop k s) x = balance s x"
  by (simp add: stop_def Let_def balance_emit balance_upd heldCount_def)

lemma balance_fold_stop: "balance (fold stop ks s) x = balance s x"
  by (induction ks arbitrary: s) simp_all

lemma endControls_ids:
  assumes ok: "idsOK {} (fst s)"
  shows "idsOK {} (fst (endControls p s))" and "balance (endControls p s) x = balance s x"
    and "length (cStore (fst (endControls p s))) = length (cStore (fst s))"
    and "j < length (cStore (fst s)) \<Longrightarrow> \<not> ctlLogical (cStore (fst (endControls p s)) ! j)"
proof -
  let ?a = "fold stop allTimers (upd (clearCore p) s)"
  have a: "idsOK {} (fst ?a)" "balance ?a x = balance s x"
    by (auto intro: idsOK_frame [OF ok] simp: balance_fold_stop balance_upd heldCount_def)
  note b = dropControl_ids [OF a(1), where cmd = CapabilitiesExchange]
  note c = dropControl_ids [OF b(1), where cmd = DeviceWatchdog]
  note d = dropControl_ids [OF c(1), where cmd = DisconnectPeer]
  have e: "endControls p s = dropControl DisconnectPeer (dropControl DeviceWatchdog (dropControl CapabilitiesExchange ?a))"
    by (simp add: endControls_def controlCommands_def)
  show "idsOK {} (fst (endControls p s))" "balance (endControls p s) x = balance s x"
    "length (cStore (fst (endControls p s))) = length (cStore (fst s))"
    unfolding e using d(1-3) c(2,3) b(2,3) a(2) by simp_all
  assume j: "j < length (cStore (fst s))"
  then have "ctlCommand (cStore (fst s) ! j) \<in> set controlCommands"
    using ok by (simp add: idsOK_def ctlOK_def Let_def)
  then show "\<not> ctlLogical (cStore (fst (endControls p s)) ! j)"
    unfolding e using j by (auto simp: d(5) c(3-5) b(3-5) controlCommands_def)
qed

lemma terminate_ids:
  assumes ok: "idsOK {} (fst s)"
  shows "idsOK {} (fst (terminate p s))" and "balance (terminate p s) x = balance s x"
    and "length (cStore (fst (terminate p s))) = length (cStore (fst s))"
    and "j < length (cStore (fst s)) \<Longrightarrow> \<not> ctlLogical (cStore (fst (terminate p s)) ! j)"
proof -
  have same: "cOperations (fst (endControls p s)) = cOperations (fst s)" "cReservations (fst (endControls p s)) = cReservations (fst s)"
      "cSerial (fst (endControls p s)) = cSerial (fst s)"
    by (simp_all add: endControls_def controlCommands_def)
  show "idsOK {} (fst (terminate p s))"
    using same by (intro idsOK_frame [OF endControls_ids(1) [OF ok, of p]]) (simp_all add: store_terminate)
  have "releasedCount (endEffects p s) x = 0"
    by (auto simp: releasedCount_def endEffects_def count_list_0_iff)
  then show "balance (terminate p s) x = balance s x"
    using endControls_ids(2) [OF ok, of p x] by (simp add: balance_def heldCount_def store_terminate hist_terminate)
  show "length (cStore (fst (terminate p s))) = length (cStore (fst s))"
    "j < length (cStore (fst s)) \<Longrightarrow> \<not> ctlLogical (cStore (fst (terminate p s)) ! j)"
    using endControls_ids(3,4) [OF ok] by (simp_all add: store_terminate)
qed

end
