(* ===== verification/CoreWrites.thy ===== *)
theory CoreWrites
  imports CoreEnd
begin

text \<open>
  Reservations, selected writers and their results: each operation keeps the ownership invariant and moves
  reservations only between the held and the released ones.
\<close>

section \<open>Reserving\<close>

lemma logicalCmd_frame: "cStore c' = cStore c \<Longrightarrow> cControls c' = cControls c \<Longrightarrow> logicalCmd c' cmd = logicalCmd c cmd"
  by (simp add: logicalCmd_def cong: option.case_cong)

lemma busy_frame:
  "cStore c' = cStore c \<Longrightarrow> cControls c' = cControls c \<Longrightarrow> cReservations c' = cReservations c \<Longrightarrow> busy c' cmd = busy c cmd"
  using logicalCmd_frame [of c' c cmd] by (simp add: busy_def)

lemma idsOK_resOK:
  assumes ok: "idsOK X c" and same: "cStore c' = cStore c" "cControls c' = cControls c" "cOperations c' = cOperations c"
    and "cSerial c \<le> cSerial c'" "resOK c'"
  shows "idsOK X c'"
proof -
  have w: "writersOf c' i = writersOf c i" for i
    by (simp add: writersOf_def same)
  have "ctlOK c' i = ctlOK c i" "controlsOK c' = controlsOK c" "settledOK X c' = settledOK X c" for i
    by (simp_all add: ctlOK_def controlsOK_def settledOK_def Let_def w same)
  moreover have "opsOK c \<Longrightarrow> opsOK c'"
    unfolding opsOK_def same using assms(5) order_trans by blast
  ultimately show ?thesis
    using ok \<open>resOK c'\<close> by (simp add: idsOK_def same)
qed

lemma resOK_reserve:
  assumes "resOK c" "cmd \<in> set controlCommands" "\<not> busy c cmd"
    and "cReservations c' = (cReservations c)(Suc (cSerial c) \<mapsto> cmd)" "cSerial c' = Suc (cSerial c)"
    and "\<And>cmd. logicalCmd c' cmd = logicalCmd c cmd"
  shows "resOK c'"
  unfolding resOK_def
proof (intro allI impI)
  fix t k
  assume t: "cReservations c' t = Some k"
  show "t \<le> cSerial c' \<and> k \<in> set controlCommands \<and> \<not> logicalCmd c' k \<and> (\<forall>t'. cReservations c' t' = Some k \<longrightarrow> t' = t)"
  proof (cases "t = Suc (cSerial c)")
    case True
    then have "k = cmd"
      using t assms(4) by simp
    moreover from this have "cReservations c t' \<noteq> Some k" for t'
      using assms(3) by (auto simp: busy_def)
    ultimately show ?thesis
      using True assms(2-6) by (simp add: busy_def)
  next
    case False
    then have "cReservations c t = Some k"
      using t assms(4) by simp
    moreover from this have "k \<noteq> cmd"
      using assms(3) by (auto simp: busy_def)
    ultimately have "t \<le> cSerial c" "k \<in> set controlCommands" "\<not> logicalCmd c k" "\<And>t'. cReservations c t' = Some k \<Longrightarrow> t' = t"
      using assms(1) unfolding resOK_def by blast+
    then show ?thesis
      using \<open>k \<noteq> cmd\<close> assms(4-6) by auto
  qed
qed

lemma reserve_sets [simp]:
  "cSerial (fst (reserve cmd s)) = Suc (cSerial (fst s))"
  "cReservations (fst (reserve cmd s)) = (cReservations (fst s))(Suc (cSerial (fst s)) \<mapsto> cmd)"
  by (simp_all add: fst_reserve Let_def)

lemma idsOK_reserve:
  assumes ok: "idsOK {} (fst s)" and "cmd \<in> set controlCommands" "\<not> busy (fst s) cmd"
  shows "idsOK {} (fst (reserve cmd s))"
proof -
  let ?c = "fst (reserve cmd s)"
  have l: "logicalCmd ?c k = logicalCmd (fst s) k" for k
    by (rule logicalCmd_frame) simp_all
  have "resOK (fst s)"
    using ok by (simp add: idsOK_def)
  then have "resOK ?c"
    by (rule resOK_reserve [OF _ assms(2,3)]) (simp_all add: l)
  then show ?thesis
    by (intro idsOK_resOK [OF ok]) simp_all
qed

lemma balance_reserve [simp]: "balance (reserve cmd s) x = balance s x"
  by (simp add: balance_def heldCount_def releasedCount_def)

definition unreserve :: "nat \<Rightarrow> Core \<Rightarrow> Core" where
  "unreserve t c = c\<lparr>cReservations := (cReservations c)(t := None)\<rparr>"

lemma unreserve_ids:
  assumes ok: "idsOK X c"
  shows "idsOK X (unreserve t c)" and "cReservations c t = Some cmd \<Longrightarrow> \<not> busy (unreserve t c) cmd"
proof -
  have l: "logicalCmd (unreserve t c) k = logicalCmd c k" for k
    by (rule logicalCmd_frame) (simp_all add: unreserve_def)
  have "resOK c"
    using ok by (simp add: idsOK_def)
  then have "resOK (unreserve t c)"
    unfolding resOK_def l by (simp add: unreserve_def)
  then show "idsOK X (unreserve t c)"
    by (intro idsOK_resOK [OF ok]) (simp_all add: unreserve_def)
  assume "cReservations c t = Some cmd"
  then have "\<not> logicalCmd c cmd" "\<And>t'. cReservations c t' = Some cmd \<Longrightarrow> t' = t"
    using ok unfolding idsOK_def resOK_def by blast+
  then show "\<not> busy (unreserve t c) cmd"
    by (auto simp: busy_def l) (auto simp: unreserve_def split: if_splits)
qed

lemma busy_unreserve: "busy (unreserve t c) cmd \<Longrightarrow> busy c cmd"
  using logicalCmd_frame [of "unreserve t c" c] by (auto simp: busy_def unreserve_def split: if_splits)

section \<open>Writers\<close>

text \<open>Tokens of outstanding operations are old, so a new one is fresh.\<close>

lemma opsOK_append:
  assumes "opsOK c" and "cOperations c' = cOperations c @ [(Suc (cSerial c), op)]" "cSerial c' = Suc (cSerial c)"
    and "length (cStore c') = length (cStore c)" and "\<And>i. opControl op = Some i \<Longrightarrow> i < length (cStore c)"
  shows "opsOK c'"
proof -
  have "Suc (cSerial c) \<notin> set (map fst (cOperations c))"
    using assms(1) by (force simp: opsOK_def)
  then show ?thesis
    using assms unfolding opsOK_def by force
qed

lemma writersOf_append:
  "cOperations c' = cOperations c @ [(t, op)] \<Longrightarrow>
   writersOf c' i = writersOf c i + (if opControl op = Some i then 1 else 0)"
  by (simp add: writersOf_def)

text \<open>A control may take another writer if it awaits its answer and has none yet, or retries a CER.\<close>

definition mayWrite :: "Core \<Rightarrow> nat option \<Rightarrow> bool" where
  "mayWrite c r \<longleftrightarrow>
     (case r of
        None \<Rightarrow> True
      | Some i \<Rightarrow> i < length (cStore c) \<and> ctlLogical (cStore c ! i) \<and>
          (ctlCommand (cStore c ! i) = CapabilitiesExchange \<or> writersOf c i = 0))"

lemma opControl_newOperation [simp]: "opControl (newOperation m r q ca h n src) = r"
  by (simp add: newOperation_def)

lemma store_addWriter:
  "length (cStore (addWriter r c)) = length (cStore c)"
  "j < length (cStore c) \<Longrightarrow> cStore (addWriter r c) ! j =
     (if r = Some j then (cStore c ! j)\<lparr>ctlWriters := ctlWriters (cStore c ! j) + 1, ctlAttempts := ctlAttempts (cStore c ! j) + 1\<rparr>
      else cStore c ! j)"
  by (auto simp: addWriter_def split: option.split)

lemma idsOK_send:
  assumes ok: "idsOK {} (fst s)" and may: "mayWrite (fst s) r"
  shows "idsOK {} (fst (send m r q ca h n src hk s))"
proof -
  let ?c = "fst (send m r q ca h n src hk s)" and ?d = "fst s"
  let ?op = "newOperation m r q ca h n src"
  have ops: "cOperations ?c = cOperations ?d @ [(Suc (cSerial ?d), ?op)]" "cSerial ?c = Suc (cSerial ?d)"
    by (simp_all add: fst_send)
  have len: "length (cStore ?c) = length (cStore ?d)"
    by (simp add: fst_send store_addWriter)
  have st: "cStore ?c ! j = (if r = Some j then (cStore ?d ! j)\<lparr>ctlWriters := ctlWriters (cStore ?d ! j) + 1,
      ctlAttempts := ctlAttempts (cStore ?d ! j) + 1\<rparr> else cStore ?d ! j)" if "j < length (cStore ?d)" for j
    using that by (simp add: fst_send store_addWriter)
  have w: "writersOf ?c j = writersOf ?d j + (if r = Some j then 1 else 0)" for j
    using writersOf_append [OF ops(1), of j] by simp
  have "logicalCmd ?c k = logicalCmd ?d k" for k
    using idsOK_controls [OF ok, of k] by (simp add: logicalCmd_def st split: option.split)
  then have "resOK ?c"
    using ok resOK_frame [of ?d ?c] by (simp add: idsOK_def ops)
  moreover have "opsOK ?c"
    by (rule opsOK_append [of ?d _ ?op]) (use ok may in \<open>auto simp: idsOK_def ops len mayWrite_def\<close>)
  moreover have "ctlOK ?c j" if "j < length (cStore ?d)" for j
    using ok may that by (auto simp: idsOK_def ctlOK_def Let_def st w mayWrite_def)
  moreover have "controlsOK ?c"
    using idsOK_controls [OF ok] by (simp add: controlsOK_def len st)
  moreover have "settledOK {} ?c"
    using ok may by (auto simp: idsOK_def settledOK_def Let_def len st mayWrite_def)
  ultimately show ?thesis
    by (simp add: idsOK_def len)
qed

lemma heldCount_addWriter [simp]: "heldCount (addWriter r c) x = heldCount c x"
  by (simp add: addWriter_def heldCount_setControl holds_def split: option.split)

lemma balance_send [simp]: "balance (send m r q ca h n src hk s) x = balance s x"
proof -
  obtain st where "hist (send m r q ca h n src hk s) = hist s @ [Send (Suc (cSerial (fst s))) m q ca st hk n]"
    using hist_send by blast
  then show ?thesis
    by (simp add: balance_def fst_send releasedCount_def) (simp add: heldCount_def)
qed

section \<open>Granted reservations\<close>

lemma store_addControl:
  "cStore (addControl cmd r c) = cStore c @ [r]" "cControls (addControl cmd r c) = (cControls c)(cmd \<mapsto> length (cStore c))"
  by (simp_all add: addControl_def)

lemma idsOK_addControl:
  assumes ok: "idsOK {} c" and free: "\<not> busy c cmd" and cmd: "cmd \<in> set controlCommands"
    and r: "ctlCommand r = cmd" "ctlLogical r" "\<not> ctlReleased r" "ctlWriters r = 0"
  shows "idsOK {} (addControl cmd r c)" and "writersOf (addControl cmd r c) (length (cStore c)) = 0"
proof -
  let ?c = "addControl cmd r c"
  have w: "writersOf ?c i = writersOf c i" for i
    by (simp add: writersOf_def)
  have "\<forall>(t, op) \<in> set (cOperations c). opControl op \<noteq> Some (length (cStore c))"
    using ok by (auto simp: idsOK_def opsOK_def)
  then have new: "writersOf c (length (cStore c)) = 0"
    by (auto simp: writersOf_def filter_empty_conv)
  then show "writersOf ?c (length (cStore c)) = 0"
    by (simp add: w)
  have l: "logicalCmd ?c k \<longleftrightarrow> k = cmd \<or> logicalCmd c k" for k
    using idsOK_controls [OF ok, of k] r by (auto simp: logicalCmd_def store_addControl nth_append split: option.split)
  have "resOK c"
    using ok by (simp add: idsOK_def)
  then have "resOK ?c"
    using free unfolding resOK_def l by (auto simp: busy_def)
  moreover have "ctlOK ?c i" if i: "i < length (cStore ?c)" for i
  proof (cases "i = length (cStore c)")
    case True
    then show ?thesis
      using r cmd new by (simp add: ctlOK_def w store_addControl)
  next
    case False
    then have i: "i < length (cStore c)"
      using i by (simp add: store_addControl)
    then have "ctlLogical (cStore c ! i) \<Longrightarrow> ctlCommand (cStore c ! i) \<noteq> cmd"
      using ok free by (auto simp: idsOK_def ctlOK_def busy_def logicalCmd_def Let_def)
    then show ?thesis
      using ok i by (auto simp: idsOK_def ctlOK_def w store_addControl nth_append Let_def)
  qed
  moreover have "controlsOK ?c"
    using idsOK_controls [OF ok] r by (auto simp: controlsOK_def store_addControl nth_append less_Suc_eq)
  moreover have "opsOK ?c"
    using ok by (fastforce simp: idsOK_def opsOK_def store_addControl)
  moreover have "settledOK {} ?c"
    using ok r by (auto simp: idsOK_def settledOK_def store_addControl nth_append Let_def less_Suc_eq)
  ultimately show "idsOK {} ?c"
    by (simp add: idsOK_def)
qed

lemma heldCount_addControl:
  "\<not> ctlReleased r \<Longrightarrow> heldCount (addControl cmd r c) x = heldCount c x + (if ctlReservation r = x then 1 else 0)"
  by (simp add: heldCount_def store_addControl holds_def)

section \<open>Results of writes\<close>

lemma length_filter_drop:
  assumes "map_of ops t = Some op" "distinct (map fst ops)"
  shows "length (filter P (filter (\<lambda>(u, op). u \<noteq> t) ops)) + (if P (t, op) then 1 else 0) = length (filter P ops)"
  using assms
proof (induction ops)
  case (Cons x ops)
  have "fst x = t \<Longrightarrow> filter (\<lambda>(u, op). u \<noteq> t) ops = ops"
    using Cons.prems(2) by (intro filter_True) (force simp: image_iff)
  then show ?case
    using Cons by (cases x) (auto split: if_splits)
qed simp

lemma writersOf_drop:
  assumes "map_of (cOperations c) t = Some op" "opsOK c"
  shows "writersOf (dropOperation t c) i + (if opControl op = Some i then 1 else 0) = writersOf c i"
  using length_filter_drop [of "cOperations c" t op "\<lambda>(t, op). opControl op = Some i"] assms
  by (simp add: writersOf_def dropOperation_def opsOK_def)

lemma opsOK_drop: "opsOK c \<Longrightarrow> opsOK (dropOperation t c)"
  by (auto simp: opsOK_def dropOperation_def distinct_map_filter)

definition minusWriter :: "nat \<Rightarrow> Core \<Rightarrow> Core" where
  "minusWriter r = setControl r (\<lambda>r. r\<lparr>ctlWriters := ctlWriters r - 1\<rparr>)"

lemma minusWriter_ids:
  assumes ok: "idsOK {} c" and op: "map_of (cOperations c) t = Some op" "opControl op = Some r"
  shows "idsOK {r} (minusWriter r (dropOperation t c))" and "r < length (cStore c)"
proof -
  let ?c = "minusWriter r (dropOperation t c)"
  have "(t, op) \<in> set (cOperations c)"
    using op(1) by (rule map_of_SomeD)
  then show r: "r < length (cStore c)"
    using ok op(2) by (auto simp: idsOK_def opsOK_def)
  have w: "writersOf ?c i + (if r = i then 1 else 0) = writersOf c i" for i
    using writersOf_drop [OF op(1), of i] ok op(2) by (simp add: minusWriter_def idsOK_def)
  have st: "cStore ?c ! j = (if j = r then (cStore c ! j)\<lparr>ctlWriters := ctlWriters (cStore c ! j) - 1\<rparr> else cStore c ! j)"
    if "j < length (cStore c)" for j
    using that by (simp add: minusWriter_def)
  have len: "length (cStore ?c) = length (cStore c)"
    by (simp add: minusWriter_def)
  have "logicalCmd ?c k = logicalCmd c k" for k
    using idsOK_controls [OF ok, of k] by (simp add: logicalCmd_def minusWriter_def split: option.split)
  then have "resOK ?c"
    using ok resOK_frame [of c ?c] by (simp add: idsOK_def minusWriter_def)
  moreover have "opsOK ?c"
    using ok opsOK_drop [of c t] by (simp add: idsOK_def opsOK_def minusWriter_def)
  moreover have "ctlOK ?c j" if "j < length (cStore c)" for j
    using ok that w [of j] by (auto simp: idsOK_def ctlOK_def Let_def st minusWriter_def split: if_splits)
  moreover have "controlsOK ?c"
    using idsOK_controls [OF ok] by (simp add: controlsOK_def len st minusWriter_def)
  moreover have "settledOK {r} ?c"
    using ok by (auto simp: idsOK_def settledOK_def Let_def len st)
  ultimately show "idsOK {r} ?c"
    by (simp add: idsOK_def len)
qed

lemma heldCount_minusWriter [simp]: "heldCount (minusWriter r c) x = heldCount c x"
  by (simp add: minusWriter_def heldCount_setControl holds_def)

lemma heldCount_dropOperation [simp]: "heldCount (dropOperation t c) x = heldCount c x"
  by (simp add: heldCount_def)

lemma endWriter_ids:
  assumes ok: "idsOK {} (fst s)" and op: "map_of (cOperations (fst s)) t = Some op"
  shows "idsOK {} (fst (endWriter t op s)) \<and> balance (endWriter t op s) x = balance s x"
proof (cases "opControl op")
  case None
  let ?c = "dropOperation t (fst s)"
  have w: "writersOf ?c i = writersOf (fst s) i" for i
    using writersOf_drop [OF op, of i] ok None by (simp add: idsOK_def)
  have "resOK ?c"
    using ok resOK_frame [of "fst s" ?c] logicalCmd_frame [of ?c "fst s"] by (simp add: idsOK_def)
  moreover have "ctlOK ?c i = ctlOK (fst s) i" "controlsOK ?c = controlsOK (fst s)" "settledOK {} ?c = settledOK {} (fst s)" for i
    by (simp_all add: ctlOK_def controlsOK_def settledOK_def w)
  ultimately show ?thesis
    using ok opsOK_drop by (simp add: endWriter_def None idsOK_def balance_upd)
next
  case (Some r)
  then have e: "endWriter t op s = release r (upd (minusWriter r) (upd (dropOperation t) s))"
    by (simp add: endWriter_def minusWriter_def [abs_def])
  note ids = minusWriter_ids [OF ok op Some]
  have "idsOK {} (fst (endWriter t op s))"
    unfolding e using ids by (intro idsOK_release) (simp_all add: minusWriter_def)
  moreover have "balance (endWriter t op s) x = balance s x"
    unfolding e using ids(2) by (simp add: balance_release balance_upd minusWriter_def heldCount_setControl holds_def)
  ultimately show ?thesis ..
qed

lemmas endWriter_keeps_ids = endWriter_ids [THEN conjunct1] and endWriter_balance = endWriter_ids [THEN conjunct2]

text \<open>A skipped writer also ends the wait for an answer when it was the only one and nothing was written.\<close>

definition withdraw :: "nat \<Rightarrow> Core \<Rightarrow> Core" where
  "withdraw r = setControl r (\<lambda>r. if ctlWriters r = 0 \<and> \<not> ctlWritten r then r\<lparr>ctlLogical := False\<rparr> else r)"

definition skipWriter :: "nat \<Rightarrow> nat \<Rightarrow> batch \<Rightarrow> batch" where
  "skipWriter t r s = release r (upd (withdraw r) (upd (minusWriter r) (upd (dropOperation t) s)))"

lemma withdraw_ids:
  assumes "idsOK {r} c" "r < length (cStore c)"
  shows "idsOK {r} (withdraw r c)"
proof (cases "ctlWriters (cStore c ! r) = 0 \<and> \<not> ctlWritten (cStore c ! r)")
  case True
  then have "withdraw r c = setControl r (\<lambda>r. r\<lparr>ctlLogical := False\<rparr>) c"
    by (simp add: withdraw_def setControl_def)
  then show ?thesis
    using idsOK_unlogical [OF assms(1), of "\<lambda>r. r\<lparr>ctlLogical := False\<rparr>" r] by simp
next
  case False
  then have "withdraw r c = c"
    by (auto simp: withdraw_def setControl_def)
  then show ?thesis
    using assms(1) by simp
qed

lemma skipWriter_ids:
  assumes ok: "idsOK {} (fst s)" and op: "map_of (cOperations (fst s)) t = Some op" "opControl op = Some r"
  shows "idsOK {} (fst (skipWriter t r s))" and "balance (skipWriter t r s) x = balance s x"
    and "r < length (cStore (fst s))" and "length (cStore (fst (skipWriter t r s))) = length (cStore (fst s))"
proof -
  note ids = minusWriter_ids [OF ok op]
  let ?c = "minusWriter r (dropOperation t (fst s))"
  have len: "length (cStore ?c) = length (cStore (fst s))" "length (cStore (withdraw r ?c)) = length (cStore (fst s))"
    by (simp_all add: minusWriter_def withdraw_def)
  then show "idsOK {} (fst (skipWriter t r s))"
    unfolding skipWriter_def using ids withdraw_ids [OF ids(1)] by (intro idsOK_release) simp_all
  have "heldCount (withdraw r c) x = heldCount c x" for c x
    by (simp add: withdraw_def heldCount_setControl holds_def)
  then show "balance (skipWriter t r s) x = balance s x"
    unfolding skipWriter_def using ids(2) len by (simp add: balance_release balance_upd)
  show "r < length (cStore (fst s))" "length (cStore (fst (skipWriter t r s))) = length (cStore (fst s))"
    using ids(2) len by (simp_all add: skipWriter_def)
qed

text \<open>Flags of an operation.\<close>

lemma writersOf_setOperation:
  assumes "\<And>op. opControl (f op) = opControl op"
  shows "writersOf (setOperation t f c) i = writersOf c i"
proof -
  have "filter (\<lambda>(u, op). opControl op = Some i) (map (\<lambda>(u, op). (u, if u = t then f op else op)) xs) =
      map (\<lambda>(u, op). (u, if u = t then f op else op)) (filter (\<lambda>(u, op). opControl op = Some i) xs)" for xs
    by (induction xs) (auto simp: assms split: if_splits)
  then show ?thesis
    by (simp add: writersOf_def setOperation_def)
qed

lemma idsOK_setOperation:
  assumes ok: "idsOK X c" and f: "\<And>op. opControl (f op) = opControl op"
  shows "idsOK X (setOperation t f c)"
proof -
  let ?c = "setOperation t f c"
  have "map fst (cOperations ?c) = map fst (cOperations c)"
    by (auto simp: setOperation_def)
  moreover have "\<forall>(u, op) \<in> set (cOperations ?c). u \<le> cSerial c \<and> (\<forall>i. opControl op = Some i \<longrightarrow> i < length (cStore c))"
    using ok by (auto simp: setOperation_def idsOK_def opsOK_def f split: if_splits)
  ultimately have "opsOK ?c"
    using ok by (simp add: idsOK_def opsOK_def)
  moreover have "resOK ?c"
    using ok resOK_frame [of c ?c] logicalCmd_frame [of ?c c] by (simp add: idsOK_def)
  moreover have "ctlOK ?c i = ctlOK c i" "controlsOK ?c = controlsOK c" "settledOK X ?c = settledOK X c" for i
    by (simp_all add: ctlOK_def controlsOK_def settledOK_def writersOf_setOperation f)
  ultimately show ?thesis
    using ok by (simp add: idsOK_def)
qed

lemma heldCount_setOperation [simp]: "heldCount (setOperation t f c) x = heldCount c x"
  by (simp add: heldCount_def)

end
