(* ===== verification/CoreMachine.thy ===== *)
theory CoreMachine
  imports CoreWrites
begin

text \<open>
  The protocol core as a machine of small actions. \<open>reach L s\<close> holds of every batch (core and history
  of effects) that the actions below produce from a new core; \<open>L\<close> records an external admission, the
  reservations granted and the local disconnects asked for. Each action has the condition under which the handlers take it, so an
  invariant of the core is proved by induction over \<open>reach\<close>, one small action at a time. That the
  handlers are made of these actions is shown in \<open>CoreRefinement\<close>.
\<close>

section \<open>Actions\<close>

datatype label = External | Granted Reservation | Asked

definition view where
  "view c = ((cPhase c, cSerial c, cStarted c, cReady c, cFrozen c, cCERDeferred c, cPassiveResponder c),
     (cCandidateToken c, cAdmission c, cCer c, cHookToken c, cTimers c),
     (cReservations c, cControls c, cStore c, cOperations c),
     (cWd c, cWdNext c, kWatchdog (cCfg c), kRole (cCfg c)),
     (cHandshakePending c, cCallbackReady c, cContinuations c, cCloseLocal c, cDisconnectWaiting c),
     (cFenceToken c, cCloseRequest c, cEarlyDPA c, cLateCERToken c))"

text \<open>Effects that carry no obligation of the core.\<close>

definition plainNotice :: "Notification \<Rightarrow> bool" where
  "plainNotice n \<longleftrightarrow> nKind n \<noteq> HandshakeNotice \<and> nKind n \<noteq> DisconnectNotice"

fun quiet :: "effect \<Rightarrow> bool" where
  "quiet (Notify n t) \<longleftrightarrow> plainNotice n"
| "quiet Discard \<longleftrightarrow> True"
| "quiet (Hold i) \<longleftrightarrow> True"
| "quiet (CompleteRequest d) \<longleftrightarrow> True"
| "quiet (PeerDisconnectDecision u) \<longleftrightarrow> True"
| "quiet k \<longleftrightarrow> False"

text \<open>The watchdog machine as if a selected probe were already published.\<close>

definition effective :: "Core \<Rightarrow> Machine" where
  "effective c = (case cWdNext c of None \<Rightarrow> cWd c | Some next \<Rightarrow> next)"

definition freshControl :: "control \<Rightarrow> u32 \<Rightarrow> Reservation \<Rightarrow> bool" where
  "freshControl r cmd x \<longleftrightarrow> ctlCommand r = cmd \<and> ctlReservation r = x \<and> ctlLogical r \<and> \<not> ctlReleased r \<and> ctlWriters r = 0"

inductive reach :: "label list \<Rightarrow> batch \<Rightarrow> bool" where
  new: "New cfg = Some c \<Longrightarrow> reach [] (c, [])"
| newAdmitted: "NewAdmitted cfg p = Some c \<Longrightarrow> reach [External] (c, [])"
| frame: "reach L s \<Longrightarrow> view (f (fst s)) = view (fst s) \<Longrightarrow> reach L (upd f s)"
| mark: "reach L s \<Longrightarrow> reach L (markDispatch n s)"
| quiet: "reach L s \<Longrightarrow> quiet k \<Longrightarrow> reach L (emit k s)"
| refused: "reach L s \<Longrightarrow> nKind n = DisconnectNotice \<Longrightarrow> reach (L @ [Asked]) (emit (Notify n t) s)"
| closeAgain: "reach L s \<Longrightarrow> cPhase (fst s) = Closed \<Longrightarrow> reach L (emit CloseConnection s)"
| admit: "reach L s \<Longrightarrow>
    cPhase (fst s) = Open \<and> cReady (fst s) \<or> cPhase (fst s) = Closing \<and> \<not> isRequest m \<and> ow \<noteq> 0 \<Longrightarrow>
    reach L (emit (Admit m ow) s)"
| arm: "reach L s \<Longrightarrow> \<not> over (cPhase (fst s)) \<Longrightarrow> reach L (arm k at d s)"
| stop: "reach L s \<Longrightarrow> reach L (stop k s)"
| watchdogArm: "reach L s \<Longrightarrow> \<not> over (cPhase (fst s)) \<Longrightarrow> reach L (watchdogArm at iv s)"
| reply: "reach L s \<Longrightarrow> \<not> over (cPhase (fst s)) \<Longrightarrow> pred_option plainNotice n \<Longrightarrow> reach L (send m None q ca h n src hk s)"
| retry: "reach L s \<Longrightarrow> cControls (fst s) CapabilitiesExchange = Some r \<Longrightarrow> ctlLogical (cStore (fst s) ! r) \<Longrightarrow>
    pred_option plainNotice n \<Longrightarrow> reach L (send m (Some r) q ca h n src hk s)"
| terminate: "reach L s \<Longrightarrow> \<not> over (cPhase (fst s)) \<Longrightarrow> over p \<Longrightarrow> reach L (terminate p s)"
| completed: "reach L s \<Longrightarrow> cDisconnectWaiting (fst s) \<Longrightarrow> nKind n = DisconnectNotice \<Longrightarrow>
    reach L (emit (Notify n t) (terminate Closed (upd (\<lambda>c. c\<lparr>cEarlyDPA := None, cDisconnectWaiting := False\<rparr>) s)))"
| settle: "reach L s \<Longrightarrow> cControls (fst s) cmd = Some r \<Longrightarrow> reach L (settle r s)"
| answerDWA: "reach L s \<Longrightarrow> cControls (fst s) DeviceWatchdog = Some r \<Longrightarrow> ctlLogical (cStore (fst s) ! r) \<Longrightarrow>
    cPhase (fst s) = Open \<Longrightarrow>
    reach L (settle r (consumeControl r m (upd (\<lambda>c. setWdNext None (setWd (fst (Step (effective c) ReceiveDWA)) c)) s)))"
| consume: "reach L s \<Longrightarrow> cControls (fst s) cmd = Some r \<Longrightarrow> reach L (consumeControl r m s)"
| written: "reach L s \<Longrightarrow> reach L (upd (setControl r (\<lambda>r. r\<lparr>ctlWritten := True\<rparr>)) s)"
| unreserve: "reach L s \<Longrightarrow> reach L (upd (unreserve t) s)"
| refuse: "reach L s \<Longrightarrow> reach (L @ [Granted x]) (emit (ReleaseIDs x) (upd (unreserve t) s))"
| grant: "reach L s \<Longrightarrow> cReservations (fst s) t = Some cmd \<Longrightarrow> \<not> over (cPhase (fst s)) \<Longrightarrow> freshControl r cmd x \<Longrightarrow>
    ctlFrame r \<noteq> None \<Longrightarrow> pred_option plainNotice n \<Longrightarrow>
    reach (L @ [Granted x]) (send m (Some (length (cStore (fst s)))) q ca h n src hk (upd (addControl cmd r) (upd (unreserve t) s)))"
| grantFailed: "reach L s \<Longrightarrow> cReservations (fst s) t = Some cmd \<Longrightarrow> \<not> over (cPhase (fst s)) \<Longrightarrow> freshControl r cmd x \<Longrightarrow>
    (\<And>c. view (g c) = view c) \<Longrightarrow>
    reach (L @ [Granted x]) (terminate Closed (upd g (upd (addControl cmd r) (upd (unreserve t) s))))"
| reserve: "reach L s \<Longrightarrow> \<not> over (cPhase (fst s)) \<Longrightarrow> \<not> busy (fst s) cmd \<Longrightarrow>
    cmd = CapabilitiesExchange \<and> cStarted (fst s) \<and> \<not> cCERDeferred (fst s) \<or>
    cmd = DisconnectPeer \<and> cPhase (fst s) = Closing \<and> cFrozen (fst s) \<and> cDisconnectWaiting (fst s) \<Longrightarrow>
    reach L (reserve cmd s)"
| probe: "reach L s \<Longrightarrow> cPhase (fst s) = Open \<Longrightarrow> cReady (fst s) \<Longrightarrow> kWatchdog (cCfg (fst s)) \<Longrightarrow>
    \<not> cPassiveResponder (fst s) \<Longrightarrow> \<not> busy (fst s) DeviceWatchdog \<Longrightarrow> cWdNext (fst s) = None \<Longrightarrow>
    e = ConnectionUp \<or> e = Expired \<Longrightarrow> aSend (snd (Step (cWd (fst s)) e)) \<Longrightarrow> next = fst (Step (cWd (fst s)) e) \<Longrightarrow>
    reach L (reserve DeviceWatchdog (upd (\<lambda>c. setWdNext (Some next) (setWd (next\<lparr>Pending := False\<rparr>) c)) s))"
| wdStep: "reach L s \<Longrightarrow> cPhase (fst s) = Open \<Longrightarrow> e = Receive \<or> cWdNext (fst s) = None \<and> (e = ConnectionUp \<or> e = Expired) \<Longrightarrow>
    \<not> aSend (snd (Step (cWd (fst s)) e)) \<Longrightarrow> kWatchdog (cCfg (fst s)) \<Longrightarrow>
    e = ConnectionUp \<longrightarrow> cReady (fst s) \<and> \<not> cPassiveResponder (fst s) \<Longrightarrow> reach L (upd (setWd (fst (Step (cWd (fst s)) e))) s)"
| published: "reach L s \<Longrightarrow> cWdNext (fst s) = Some next \<Longrightarrow> cPhase (fst s) = Open \<Longrightarrow>
    reach L (upd (\<lambda>c. setWdNext None (setWd next c)) s)"
| unsupervised: "reach L s \<Longrightarrow> reach L (upd (\<lambda>c. c\<lparr>cCfg := (cCfg c)\<lparr>kWatchdog := False\<rparr>,
    cWd := (cWd c)\<lparr>Pending := False\<rparr>, cWdNext := None\<rparr>) s)"
| skip: "reach L s \<Longrightarrow> map_of (cOperations (fst s)) t = Some op \<Longrightarrow> opControl op = Some r \<Longrightarrow> reach L (skipWriter t r s)"
| withdrawn: "reach L s \<Longrightarrow> \<not> busy (fst s) DeviceWatchdog \<Longrightarrow>
    reach L (upd (\<lambda>c. setWdNext None (setWd ((cWd c)\<lparr>Pending := False\<rparr>) c)) s)"
| endWriter: "reach L s \<Longrightarrow> map_of (cOperations (fst s)) t = Some op \<Longrightarrow> reach L (endWriter t op s)"
| flag: "reach L s \<Longrightarrow> (\<And>op. opControl (g op) = opControl op) \<Longrightarrow> (\<And>op. opNotice (g op) = opNotice op) \<Longrightarrow> reach L (upd (setOperation t g) s)"
| started: "reach L s \<Longrightarrow> reach L (upd (\<lambda>c. c\<lparr>cStarted := True\<rparr>) s)"
| deferred: "reach L s \<Longrightarrow> cPhase (fst s) = PreCER \<Longrightarrow> kRole (cCfg (fst s)) = Initiator \<Longrightarrow> \<not> busy (fst s) CapabilitiesExchange \<Longrightarrow>
    cStarted (fst s) \<Longrightarrow> reach L (upd (\<lambda>c. c\<lparr>cPhase := WaitCEA, cCERDeferred := True\<rparr>) s)"
| waiting: "reach L s \<Longrightarrow> cPhase (fst s) = PreCER \<Longrightarrow> kRole (cCfg (fst s)) = Initiator \<Longrightarrow>
    reach L (upd (\<lambda>c. c\<lparr>cPhase := WaitCEA, cHandshakePending := True\<rparr>) s)"
| undeferred: "reach L s \<Longrightarrow> reach L (upd (\<lambda>c. c\<lparr>cCERDeferred := False\<rparr>) s)"
| native: "reach L s \<Longrightarrow> cPhase (fst s) = PreCER \<Longrightarrow> reach L (upd (\<lambda>c. c\<lparr>cPassiveResponder := False\<rparr>) s)"
| candidate: "reach L s \<Longrightarrow> cPhase (fst s) = PreCER \<Longrightarrow> kRole (cCfg (fst s)) = Responder \<Longrightarrow> \<not> cPassiveResponder (fst s) \<Longrightarrow>
    cHookToken (fst s) = 0 \<Longrightarrow> g = id \<or> g = stop HandshakeTimer \<Longrightarrow> t = Suc (cSerial (fst s)) \<Longrightarrow>
    reach L (emit (ValidatedCER t sn) (g (upd (\<lambda>c. c\<lparr>cCandidateToken := t, cCer := Some m\<rparr>) (upd tick s))))"
| uncandidate: "reach L s \<Longrightarrow> reach L (upd (\<lambda>c. c\<lparr>cCandidateToken := 0\<rparr>) s)"
| recover: "reach L s \<Longrightarrow> cPhase (fst s) = PreCER \<Longrightarrow> reach L (upd (\<lambda>c. c\<lparr>cWd := (cWd c)\<lparr>wdState := WdDown\<rparr>\<rparr>) s)"
| publish: "reach L s \<Longrightarrow> cPhase (fst s) = PreCER \<or> cPhase (fst s) = WaitCEA \<Longrightarrow> \<not> cPassiveResponder (fst s) \<Longrightarrow>
    cCandidateToken (fst s) = 0 \<Longrightarrow> cHookToken (fst s) = 0 \<Longrightarrow> g = id \<or> g = stop HandshakeTimer \<Longrightarrow> t = Suc (cSerial (fst s)) \<Longrightarrow>
    reach L (emit (Publish t sn) (g (upd (\<lambda>c. c\<lparr>cAdmission := t\<rparr>) (upd tick (upd (\<lambda>c. c\<lparr>cPhase := Open, cHandshakePending := True\<rparr>) s)))))"
| callback: "reach L s \<Longrightarrow> cPhase (fst s) = Open \<Longrightarrow> reach L (emit (HandshakeReady t sn) (upd (\<lambda>c. c\<lparr>cCallbackReady := True\<rparr>) s))"
| admitPeer: "reach L s \<Longrightarrow> cPhase (fst s) = Open \<Longrightarrow> \<not> cReady (fst s) \<Longrightarrow> nKind n = HandshakeNotice \<Longrightarrow>
    reach L (emit (Notify n t) (upd (\<lambda>c. c\<lparr>cReady := True, cHandshakePending := False\<rparr>) s))"
| closing: "reach L s \<Longrightarrow> cPhase (fst s) = Open \<Longrightarrow> local \<or> inMessage i \<noteq> None \<Longrightarrow>
    reach (L @ (if local then [Asked] else [])) (beginClosing i local s)"
| askClosing: "reach L s \<Longrightarrow> cPhase (fst s) = Closing \<Longrightarrow> \<not> cDisconnectWaiting (fst s) \<Longrightarrow>
    reach (L @ [Asked]) (upd (\<lambda>c. c\<lparr>cDisconnectWaiting := True, cDisconnectToken := t, cCloseCause := u\<rparr>) s)"
| frozen: "reach L s \<Longrightarrow> cPhase (fst s) = Closing \<Longrightarrow> reach L (upd (\<lambda>c. c\<lparr>cFrozen := True, cFenceToken := 0\<rparr>) s)"
| answeredDPR: "reach L s \<Longrightarrow> cFrozen (fst s) \<Longrightarrow> reach L (upd (\<lambda>c. c\<lparr>cCloseRequest := None\<rparr>) s)"
| early: "reach L s \<Longrightarrow> cDisconnectWaiting (fst s) \<Longrightarrow> reach L (upd (\<lambda>c. c\<lparr>cEarlyDPA := Some i\<rparr>) s)"
| pause: "reach L s \<Longrightarrow> \<not> over (cPhase (fst s)) \<Longrightarrow> inMessage i = Some m \<Longrightarrow> cHookToken (fst s) = 0 \<Longrightarrow>
    CommandCode (msgHeader m) = DeviceWatchdog \<and> cPhase (fst s) \<noteq> PreCER \<or>
    CommandCode (msgHeader m) = CapabilitiesExchange \<and> cPhase (fst s) = Open \<or>
    cPhase (fst s) = PreCER \<and> kRole (cCfg (fst s)) = Responder \<and> cCandidateToken (fst s) = 0 \<Longrightarrow>
    reach L (pauseHook m i s)"
| resume: "reach L s \<Longrightarrow> reach L (upd (\<lambda>c. c\<lparr>cContinuations := (cContinuations c)(t := None),
    cHookToken := (if cHookToken c = t then 0 else cHookToken c)\<rparr>) s)"
| late: "reach L s \<Longrightarrow> reach L (upd (keepLateCER k) s)"
| lateDone: "reach L s \<Longrightarrow> reach L (upd (\<lambda>c. c\<lparr>cLateCERToken := 0, cLateCER := None\<rparr>) s)"
| refresh: "reach L s \<Longrightarrow> reach L (upd (RefreshAdmission p) s)"

section \<open>Frames\<close>

lemma view_fields:
  assumes "view c' = view c"
  shows "cPhase c' = cPhase c" "cSerial c' = cSerial c" "cStarted c' = cStarted c" "cReady c' = cReady c" "cFrozen c' = cFrozen c"
    "cCERDeferred c' = cCERDeferred c" "cPassiveResponder c' = cPassiveResponder c" "cCandidateToken c' = cCandidateToken c"
    "cAdmission c' = cAdmission c" "cCer c' = cCer c" "cHookToken c' = cHookToken c" "cTimers c' = cTimers c"
    "cReservations c' = cReservations c" "cControls c' = cControls c" "cStore c' = cStore c" "cOperations c' = cOperations c"
    "cWd c' = cWd c" "cWdNext c' = cWdNext c" "kWatchdog (cCfg c') = kWatchdog (cCfg c)" "kRole (cCfg c') = kRole (cCfg c)"
    "cHandshakePending c' = cHandshakePending c" "cCallbackReady c' = cCallbackReady c" "cContinuations c' = cContinuations c"
    "cCloseLocal c' = cCloseLocal c" "cDisconnectWaiting c' = cDisconnectWaiting c" "cFenceToken c' = cFenceToken c"
    "cCloseRequest c' = cCloseRequest c" "cEarlyDPA c' = cEarlyDPA c" "cLateCERToken c' = cLateCERToken c"
  using assms unfolding view_def by blast+

text \<open>The larger actions keep the fields that hold controls, operations and reservations.\<close>

lemma consumeControl_ids:
  assumes "idsOK X (fst s)"
  shows "idsOK X (fst (consumeControl r m s))" and "balance (consumeControl r m s) x = balance s x"
    and "length (cStore (fst (consumeControl r m s))) = length (cStore (fst s))"
  using assms
  by (simp_all add: consumeControl_def idsOK_flag balance_emit balance_upd heldCount_setControl holds_def)

lemma keepLateCER_keeps_ids [simp]:
  "cStore (keepLateCER k c) = cStore c" "cControls (keepLateCER k c) = cControls c" "cOperations (keepLateCER k c) = cOperations c"
  "cReservations (keepLateCER k c) = cReservations c" "cSerial (keepLateCER k c) = cSerial c"
  by (simp_all add: keepLateCER_def split: option.split)

lemma RefreshAdmission_keeps_ids [simp]:
  "cStore (RefreshAdmission p c) = cStore c" "cControls (RefreshAdmission p c) = cControls c"
  "cOperations (RefreshAdmission p c) = cOperations c" "cReservations (RefreshAdmission p c) = cReservations c"
  "cSerial (RefreshAdmission p c) = cSerial c"
  by (simp_all add: RefreshAdmission_def revokeAdmission_def grantAdmission_def negotiate_def setAdmission_def Let_def
        split: option.split)

lemma beginClosing_keeps_ids [simp]:
  "cStore (fst (beginClosing i local s)) = cStore (fst s)" "cControls (fst (beginClosing i local s)) = cControls (fst s)"
  "cOperations (fst (beginClosing i local s)) = cOperations (fst s)" "cReservations (fst (beginClosing i local s)) = cReservations (fst s)"
  "cSerial (fst s) \<le> cSerial (fst (beginClosing i local s))"
  by (simp_all add: beginClosing_def Let_def fst_arm)

lemma pauseHook_keeps_ids [simp]:
  "cStore (fst (pauseHook m i s)) = cStore (fst s)" "cControls (fst (pauseHook m i s)) = cControls (fst s)"
  "cOperations (fst (pauseHook m i s)) = cOperations (fst s)" "cReservations (fst (pauseHook m i s)) = cReservations (fst s)"
  "cSerial (fst (pauseHook m i s)) = Suc (cSerial (fst s))"
  by (simp_all add: pauseHook_def Let_def)

lemma serial_arm: "cSerial (fst s) \<le> cSerial (fst (arm k at d s))" "cSerial (fst s) \<le> cSerial (fst (watchdogArm at iv s))"
  by (simp_all add: fst_arm fst_watchdogArm fst_stop Let_def)

section \<open>Ownership of identifiers\<close>

lemma reach_ids: "reach L s \<Longrightarrow> idsOK {} (fst s)"
proof (induction rule: reach.induct)
  case (new cfg c)
  then show ?case
    by (auto simp: New_def freshCore_def ids_defs split: if_splits)
next
  case (newAdmitted cfg p c)
  then obtain d where "New (cfg\<lparr>kRole := Responder\<rparr>) = Some d"
    "c = RefreshAdmission (Some p) (d\<lparr>cPassiveResponder := True, cPassiveWatchdog := kWatchdog cfg, cStarted := True\<rparr>)"
    by (auto simp: NewAdmitted_def)
  moreover from this have "idsOK {} d"
    by (auto simp: New_def freshCore_def ids_defs split: if_splits)
  ultimately show ?case
    by (auto intro: idsOK_frame)
next
  case (frame L s f)
  then show ?case
    by (auto intro: idsOK_frame simp: view_fields [OF frame.hyps(2)])
next
  case (reply L s m q ca h n src hk)
  then show ?case
    by (simp add: idsOK_send mayWrite_def)
next
  case (retry L s r m q ca h n src hk)
  then show ?case
    using idsOK_controls [OF retry.IH retry.hyps(2)] by (simp add: idsOK_send mayWrite_def)
next
  case (terminate L s p)
  then show ?case
    by (simp add: terminate_ids)
next
  case (completed L s n t)
  then have "idsOK {} ((fst s)\<lparr>cEarlyDPA := None, cDisconnectWaiting := False\<rparr>)"
    by (auto intro: idsOK_frame)
  then show ?case
    by (simp add: terminate_ids)
next
  case (settle L s cmd r)
  then show ?case
    using idsOK_controls [OF settle.IH settle.hyps(2)] by (simp add: idsOK_settle)
next
  case (answerDWA L s r m)
  let ?s = "upd (\<lambda>c. setWdNext None (setWd (fst (Step (effective c) ReceiveDWA)) c)) s"
  have "idsOK {} (fst ?s)" "r < length (cStore (fst s))"
    using answerDWA.IH idsOK_controls [OF answerDWA.IH answerDWA.hyps(2)] by (auto intro: idsOK_frame)
  then show ?case
    using consumeControl_ids [of "{}" ?s r m] by (simp add: idsOK_settle)
next
  case (consume L s cmd r m)
  then show ?case
    by (simp add: consumeControl_ids)
next
  case (written L s r)
  then show ?case
    by (simp add: idsOK_flag)
next
  case (unreserve L s t)
  then show ?case
    by (simp add: unreserve_ids)
next
  case (refuse L s x t)
  then show ?case
    by (simp add: unreserve_ids)
next
  case (grant L s t cmd r x m q ca h n src hk)
  note un = unreserve_ids [OF grant.IH, of t]
  have "cmd \<in> set controlCommands"
    using grant by (simp add: idsOK_def resOK_def)
  note add = idsOK_addControl [OF un(1) un(2) [OF grant.hyps(2)] this, of r]
  show ?case
    using add grant by (simp add: idsOK_send mayWrite_def freshControl_def store_addControl unreserve_def)
next
  case (grantFailed L s t cmd r x g)
  note un = unreserve_ids [OF grantFailed.IH, of t]
  have "cmd \<in> set controlCommands"
    using grantFailed by (simp add: idsOK_def resOK_def)
  note add = idsOK_addControl [OF un(1) un(2) [OF grantFailed.hyps(2)] this, of r]
  show ?case
    using add grantFailed
    by (auto simp: freshControl_def view_fields [OF grantFailed.hyps(5)] intro!: terminate_ids(1) idsOK_frame [OF add(1)])
next
  case (reserve L s cmd)
  then show ?case
    by (auto simp: controlCommands_def intro: idsOK_reserve)
next
  case (probe L s e "next")
  let ?s = "upd (\<lambda>c. setWdNext (Some next) (setWd (next\<lparr>Pending := False\<rparr>) c)) s"
  have "idsOK {} (fst ?s)" "busy (fst ?s) DeviceWatchdog = busy (fst s) DeviceWatchdog"
    using probe.IH busy_frame [of "fst ?s" "fst s"] by (auto intro: idsOK_frame)
  then show ?case
    using probe by (simp add: controlCommands_def idsOK_reserve)
next
  case (skip L s t op r)
  then show ?case
    by (simp add: skipWriter_ids)
next
  case (endWriter L s t op)
  then show ?case
    by (simp add: endWriter_keeps_ids)
next
  case (flag L s g t)
  then show ?case
    by (simp add: idsOK_setOperation)
qed (erule idsOK_frame; (simp add: serial_arm; fail | elim disjE; simp))+

end
