(* ===== verification/CoreInvariant.thy ===== *)
theory CoreInvariant
  imports CoreMachine
begin

text \<open>
  The invariants of the protocol core beyond the ownership of identifiers: the phases and their flags, the
  exchanges in progress, the values handlers rely on to be present, and the bound of all tokens. Together
  with \<open>idsOK\<close> they are the well-formedness \<open>wfCore\<close> of a core.
\<close>

section \<open>Fields kept by the larger actions\<close>

lemma unreserve_keeps [simp]:
  "cHandshakePending (unreserve t c) = cHandshakePending c" "cCallbackReady (unreserve t c) = cCallbackReady c"
  "cContinuations (unreserve t c) = cContinuations c" "cCloseOutcome (unreserve t c) = cCloseOutcome c"
  "cHandshake (unreserve t c) = cHandshake c" "cWdNext (unreserve t c) = cWdNext c"
  "cReceivedSequence (unreserve t c) = cReceivedSequence c" "cDeferredExpiry (unreserve t c) = cDeferredExpiry c"
  "cCloseLocal (unreserve t c) = cCloseLocal c" "cDisconnectWaiting (unreserve t c) = cDisconnectWaiting c"
  "cPeerDisconnectSelected (unreserve t c) = cPeerDisconnectSelected c" "cPeerCause (unreserve t c) = cPeerCause c"
  "cPeerDPR (unreserve t c) = cPeerDPR c" "cDisconnectToken (unreserve t c) = cDisconnectToken c"
  "cFenceToken (unreserve t c) = cFenceToken c" "cCloseRequest (unreserve t c) = cCloseRequest c"
  "cEarlyDPA (unreserve t c) = cEarlyDPA c" "cLateCERToken (unreserve t c) = cLateCERToken c"
  "cLateCER (unreserve t c) = cLateCER c" "cCfg (unreserve t c) = cCfg c" "cPhase (unreserve t c) = cPhase c"
  "cSerial (unreserve t c) = cSerial c" "cStarted (unreserve t c) = cStarted c" "cReady (unreserve t c) = cReady c"
  "cTerminal (unreserve t c) = cTerminal c" "cFrozen (unreserve t c) = cFrozen c"
  "cCERDeferred (unreserve t c) = cCERDeferred c" "cPassiveResponder (unreserve t c) = cPassiveResponder c"
  "cPassiveCER (unreserve t c) = cPassiveCER c" "cPassiveWatchdog (unreserve t c) = cPassiveWatchdog c"
  "cPassivePresent (unreserve t c) = cPassivePresent c" "cCandidateToken (unreserve t c) = cCandidateToken c"
  "cAdmission (unreserve t c) = cAdmission c" "cCaps (unreserve t c) = cCaps c" "cCer (unreserve t c) = cCer c"
  "cCompletedCEA (unreserve t c) = cCompletedCEA c" "cHookToken (unreserve t c) = cHookToken c"
  "cTimers (unreserve t c) = cTimers c" "cControls (unreserve t c) = cControls c" "cStore (unreserve t c) = cStore c"
  "cOperations (unreserve t c) = cOperations c" "cCloseCause (unreserve t c) = cCloseCause c"
  "cWd (unreserve t c) = cWd c"
  by (simp_all add: unreserve_def)

lemma consumeControl_keeps [simp]:
  "cHandshakePending (fst (consumeControl r m s)) = cHandshakePending (fst s)"
  "cCallbackReady (fst (consumeControl r m s)) = cCallbackReady (fst s)"
  "cContinuations (fst (consumeControl r m s)) = cContinuations (fst s)"
  "cCloseOutcome (fst (consumeControl r m s)) = cCloseOutcome (fst s)"
  "cHandshake (fst (consumeControl r m s)) = cHandshake (fst s)"
  "cWdNext (fst (consumeControl r m s)) = cWdNext (fst s)"
  "cReceivedSequence (fst (consumeControl r m s)) = cReceivedSequence (fst s)"
  "cDeferredExpiry (fst (consumeControl r m s)) = cDeferredExpiry (fst s)"
  "cCloseLocal (fst (consumeControl r m s)) = cCloseLocal (fst s)"
  "cDisconnectWaiting (fst (consumeControl r m s)) = cDisconnectWaiting (fst s)"
  "cPeerDisconnectSelected (fst (consumeControl r m s)) = cPeerDisconnectSelected (fst s)"
  "cPeerCause (fst (consumeControl r m s)) = cPeerCause (fst s)"
  "cPeerDPR (fst (consumeControl r m s)) = cPeerDPR (fst s)"
  "cDisconnectToken (fst (consumeControl r m s)) = cDisconnectToken (fst s)"
  "cFenceToken (fst (consumeControl r m s)) = cFenceToken (fst s)"
  "cCloseRequest (fst (consumeControl r m s)) = cCloseRequest (fst s)"
  "cEarlyDPA (fst (consumeControl r m s)) = cEarlyDPA (fst s)"
  "cLateCERToken (fst (consumeControl r m s)) = cLateCERToken (fst s)"
  "cLateCER (fst (consumeControl r m s)) = cLateCER (fst s)" "cCfg (fst (consumeControl r m s)) = cCfg (fst s)"
  "cPhase (fst (consumeControl r m s)) = cPhase (fst s)" "cSerial (fst (consumeControl r m s)) = cSerial (fst s)"
  "cStarted (fst (consumeControl r m s)) = cStarted (fst s)" "cReady (fst (consumeControl r m s)) = cReady (fst s)"
  "cTerminal (fst (consumeControl r m s)) = cTerminal (fst s)"
  "cFrozen (fst (consumeControl r m s)) = cFrozen (fst s)"
  "cCERDeferred (fst (consumeControl r m s)) = cCERDeferred (fst s)"
  "cPassiveResponder (fst (consumeControl r m s)) = cPassiveResponder (fst s)"
  "cPassiveCER (fst (consumeControl r m s)) = cPassiveCER (fst s)"
  "cPassiveWatchdog (fst (consumeControl r m s)) = cPassiveWatchdog (fst s)"
  "cPassivePresent (fst (consumeControl r m s)) = cPassivePresent (fst s)"
  "cCandidateToken (fst (consumeControl r m s)) = cCandidateToken (fst s)"
  "cAdmission (fst (consumeControl r m s)) = cAdmission (fst s)" "cCaps (fst (consumeControl r m s)) = cCaps (fst s)"
  "cCer (fst (consumeControl r m s)) = cCer (fst s)"
  "cCompletedCEA (fst (consumeControl r m s)) = cCompletedCEA (fst s)"
  "cHookToken (fst (consumeControl r m s)) = cHookToken (fst s)"
  "cTimers (fst (consumeControl r m s)) = cTimers (fst s)"
  "cReservations (fst (consumeControl r m s)) = cReservations (fst s)"
  "cControls (fst (consumeControl r m s)) = cControls (fst s)"
  "cOperations (fst (consumeControl r m s)) = cOperations (fst s)"
  "cCloseCause (fst (consumeControl r m s)) = cCloseCause (fst s)" "cWd (fst (consumeControl r m s)) = cWd (fst s)"
  by (simp_all add: consumeControl_def)

lemma beginClosing_keeps [simp]:
  "cHandshakePending (fst (beginClosing i local s)) = cHandshakePending (fst s)"
  "cCallbackReady (fst (beginClosing i local s)) = cCallbackReady (fst s)"
  "cContinuations (fst (beginClosing i local s)) = cContinuations (fst s)"
  "cCloseOutcome (fst (beginClosing i local s)) = cCloseOutcome (fst s)"
  "cHandshake (fst (beginClosing i local s)) = cHandshake (fst s)"
  "cWdNext (fst (beginClosing i local s)) = cWdNext (fst s)"
  "cReceivedSequence (fst (beginClosing i local s)) = cReceivedSequence (fst s)"
  "cDeferredExpiry (fst (beginClosing i local s)) = cDeferredExpiry (fst s)"
  "cPeerDisconnectSelected (fst (beginClosing i local s)) = cPeerDisconnectSelected (fst s)"
  "cPeerCause (fst (beginClosing i local s)) = cPeerCause (fst s)"
  "cPeerDPR (fst (beginClosing i local s)) = cPeerDPR (fst s)"
  "cEarlyDPA (fst (beginClosing i local s)) = cEarlyDPA (fst s)"
  "cLateCERToken (fst (beginClosing i local s)) = cLateCERToken (fst s)"
  "cLateCER (fst (beginClosing i local s)) = cLateCER (fst s)" "cCfg (fst (beginClosing i local s)) = cCfg (fst s)"
  "cStarted (fst (beginClosing i local s)) = cStarted (fst s)"
  "cTerminal (fst (beginClosing i local s)) = cTerminal (fst s)"
  "cFrozen (fst (beginClosing i local s)) = cFrozen (fst s)"
  "cCERDeferred (fst (beginClosing i local s)) = cCERDeferred (fst s)"
  "cPassiveResponder (fst (beginClosing i local s)) = cPassiveResponder (fst s)"
  "cPassiveCER (fst (beginClosing i local s)) = cPassiveCER (fst s)"
  "cPassiveWatchdog (fst (beginClosing i local s)) = cPassiveWatchdog (fst s)"
  "cPassivePresent (fst (beginClosing i local s)) = cPassivePresent (fst s)"
  "cCandidateToken (fst (beginClosing i local s)) = cCandidateToken (fst s)"
  "cAdmission (fst (beginClosing i local s)) = cAdmission (fst s)"
  "cCaps (fst (beginClosing i local s)) = cCaps (fst s)" "cCer (fst (beginClosing i local s)) = cCer (fst s)"
  "cCompletedCEA (fst (beginClosing i local s)) = cCompletedCEA (fst s)"
  "cHookToken (fst (beginClosing i local s)) = cHookToken (fst s)"
  "cReservations (fst (beginClosing i local s)) = cReservations (fst s)"
  "cControls (fst (beginClosing i local s)) = cControls (fst s)"
  "cStore (fst (beginClosing i local s)) = cStore (fst s)"
  "cOperations (fst (beginClosing i local s)) = cOperations (fst s)"
  "cWd (fst (beginClosing i local s)) = cWd (fst s)"
  by (simp_all add: beginClosing_def Let_def)

lemma pauseHook_keeps [simp]:
  "cHandshakePending (fst (pauseHook m i s)) = cHandshakePending (fst s)"
  "cCallbackReady (fst (pauseHook m i s)) = cCallbackReady (fst s)"
  "cCloseOutcome (fst (pauseHook m i s)) = cCloseOutcome (fst s)"
  "cHandshake (fst (pauseHook m i s)) = cHandshake (fst s)" "cWdNext (fst (pauseHook m i s)) = cWdNext (fst s)"
  "cReceivedSequence (fst (pauseHook m i s)) = cReceivedSequence (fst s)"
  "cDeferredExpiry (fst (pauseHook m i s)) = cDeferredExpiry (fst s)"
  "cCloseLocal (fst (pauseHook m i s)) = cCloseLocal (fst s)"
  "cDisconnectWaiting (fst (pauseHook m i s)) = cDisconnectWaiting (fst s)"
  "cPeerDisconnectSelected (fst (pauseHook m i s)) = cPeerDisconnectSelected (fst s)"
  "cPeerCause (fst (pauseHook m i s)) = cPeerCause (fst s)" "cPeerDPR (fst (pauseHook m i s)) = cPeerDPR (fst s)"
  "cDisconnectToken (fst (pauseHook m i s)) = cDisconnectToken (fst s)"
  "cFenceToken (fst (pauseHook m i s)) = cFenceToken (fst s)"
  "cCloseRequest (fst (pauseHook m i s)) = cCloseRequest (fst s)"
  "cEarlyDPA (fst (pauseHook m i s)) = cEarlyDPA (fst s)"
  "cLateCERToken (fst (pauseHook m i s)) = cLateCERToken (fst s)"
  "cLateCER (fst (pauseHook m i s)) = cLateCER (fst s)" "cCfg (fst (pauseHook m i s)) = cCfg (fst s)"
  "cPhase (fst (pauseHook m i s)) = cPhase (fst s)" "cStarted (fst (pauseHook m i s)) = cStarted (fst s)"
  "cReady (fst (pauseHook m i s)) = cReady (fst s)" "cTerminal (fst (pauseHook m i s)) = cTerminal (fst s)"
  "cFrozen (fst (pauseHook m i s)) = cFrozen (fst s)" "cCERDeferred (fst (pauseHook m i s)) = cCERDeferred (fst s)"
  "cPassiveCER (fst (pauseHook m i s)) = cPassiveCER (fst s)"
  "cPassiveWatchdog (fst (pauseHook m i s)) = cPassiveWatchdog (fst s)"
  "cPassivePresent (fst (pauseHook m i s)) = cPassivePresent (fst s)"
  "cCandidateToken (fst (pauseHook m i s)) = cCandidateToken (fst s)"
  "cAdmission (fst (pauseHook m i s)) = cAdmission (fst s)" "cCaps (fst (pauseHook m i s)) = cCaps (fst s)"
  "cCer (fst (pauseHook m i s)) = cCer (fst s)" "cCompletedCEA (fst (pauseHook m i s)) = cCompletedCEA (fst s)"
  "cTimers (fst (pauseHook m i s)) = cTimers (fst s)" "cReservations (fst (pauseHook m i s)) = cReservations (fst s)"
  "cControls (fst (pauseHook m i s)) = cControls (fst s)" "cStore (fst (pauseHook m i s)) = cStore (fst s)"
  "cOperations (fst (pauseHook m i s)) = cOperations (fst s)"
  "cCloseCause (fst (pauseHook m i s)) = cCloseCause (fst s)" "cWd (fst (pauseHook m i s)) = cWd (fst s)"
  by (simp_all add: pauseHook_def Let_def)

lemma RefreshAdmission_keeps [simp]:
  "cHandshakePending (RefreshAdmission p c) = cHandshakePending c"
  "cCallbackReady (RefreshAdmission p c) = cCallbackReady c"
  "cContinuations (RefreshAdmission p c) = cContinuations c" "cCloseOutcome (RefreshAdmission p c) = cCloseOutcome c"
  "cHandshake (RefreshAdmission p c) = cHandshake c" "cWdNext (RefreshAdmission p c) = cWdNext c"
  "cReceivedSequence (RefreshAdmission p c) = cReceivedSequence c"
  "cDeferredExpiry (RefreshAdmission p c) = cDeferredExpiry c" "cCloseLocal (RefreshAdmission p c) = cCloseLocal c"
  "cDisconnectWaiting (RefreshAdmission p c) = cDisconnectWaiting c"
  "cPeerDisconnectSelected (RefreshAdmission p c) = cPeerDisconnectSelected c"
  "cPeerCause (RefreshAdmission p c) = cPeerCause c" "cPeerDPR (RefreshAdmission p c) = cPeerDPR c"
  "cDisconnectToken (RefreshAdmission p c) = cDisconnectToken c" "cFenceToken (RefreshAdmission p c) = cFenceToken c"
  "cCloseRequest (RefreshAdmission p c) = cCloseRequest c" "cEarlyDPA (RefreshAdmission p c) = cEarlyDPA c"
  "cLateCERToken (RefreshAdmission p c) = cLateCERToken c" "cLateCER (RefreshAdmission p c) = cLateCER c"
  "cSerial (RefreshAdmission p c) = cSerial c" "cStarted (RefreshAdmission p c) = cStarted c"
  "cTerminal (RefreshAdmission p c) = cTerminal c" "cFrozen (RefreshAdmission p c) = cFrozen c"
  "cCERDeferred (RefreshAdmission p c) = cCERDeferred c"
  "cPassiveResponder (RefreshAdmission p c) = cPassiveResponder c"
  "cPassiveWatchdog (RefreshAdmission p c) = cPassiveWatchdog c"
  "cCandidateToken (RefreshAdmission p c) = cCandidateToken c" "cAdmission (RefreshAdmission p c) = cAdmission c"
  "cCer (RefreshAdmission p c) = cCer c" "cCompletedCEA (RefreshAdmission p c) = cCompletedCEA c"
  "cHookToken (RefreshAdmission p c) = cHookToken c" "cTimers (RefreshAdmission p c) = cTimers c"
  "cReservations (RefreshAdmission p c) = cReservations c" "cControls (RefreshAdmission p c) = cControls c"
  "cStore (RefreshAdmission p c) = cStore c" "cOperations (RefreshAdmission p c) = cOperations c"
  "cCloseCause (RefreshAdmission p c) = cCloseCause c" "cWd (RefreshAdmission p c) = cWd c"
  by (simp_all add: RefreshAdmission_def revokeAdmission_def grantAdmission_def negotiate_def setAdmission_def Let_def
        split: option.split)

lemma keepLateCER_keeps [simp]:
  "cHandshakePending (keepLateCER k c) = cHandshakePending c" "cCallbackReady (keepLateCER k c) = cCallbackReady c"
  "cContinuations (keepLateCER k c) = cContinuations c" "cCloseOutcome (keepLateCER k c) = cCloseOutcome c"
  "cHandshake (keepLateCER k c) = cHandshake c" "cWdNext (keepLateCER k c) = cWdNext c"
  "cReceivedSequence (keepLateCER k c) = cReceivedSequence c" "cDeferredExpiry (keepLateCER k c) = cDeferredExpiry c"
  "cCloseLocal (keepLateCER k c) = cCloseLocal c" "cDisconnectWaiting (keepLateCER k c) = cDisconnectWaiting c"
  "cPeerDisconnectSelected (keepLateCER k c) = cPeerDisconnectSelected c"
  "cPeerCause (keepLateCER k c) = cPeerCause c" "cPeerDPR (keepLateCER k c) = cPeerDPR c"
  "cDisconnectToken (keepLateCER k c) = cDisconnectToken c" "cFenceToken (keepLateCER k c) = cFenceToken c"
  "cCloseRequest (keepLateCER k c) = cCloseRequest c" "cEarlyDPA (keepLateCER k c) = cEarlyDPA c"
  "cCfg (keepLateCER k c) = cCfg c" "cPhase (keepLateCER k c) = cPhase c" "cSerial (keepLateCER k c) = cSerial c"
  "cStarted (keepLateCER k c) = cStarted c" "cReady (keepLateCER k c) = cReady c"
  "cTerminal (keepLateCER k c) = cTerminal c" "cFrozen (keepLateCER k c) = cFrozen c"
  "cCERDeferred (keepLateCER k c) = cCERDeferred c" "cPassiveResponder (keepLateCER k c) = cPassiveResponder c"
  "cPassiveCER (keepLateCER k c) = cPassiveCER c" "cPassiveWatchdog (keepLateCER k c) = cPassiveWatchdog c"
  "cPassivePresent (keepLateCER k c) = cPassivePresent c" "cCandidateToken (keepLateCER k c) = cCandidateToken c"
  "cAdmission (keepLateCER k c) = cAdmission c" "cCaps (keepLateCER k c) = cCaps c" "cCer (keepLateCER k c) = cCer c"
  "cCompletedCEA (keepLateCER k c) = cCompletedCEA c" "cHookToken (keepLateCER k c) = cHookToken c"
  "cTimers (keepLateCER k c) = cTimers c" "cReservations (keepLateCER k c) = cReservations c"
  "cControls (keepLateCER k c) = cControls c" "cStore (keepLateCER k c) = cStore c"
  "cOperations (keepLateCER k c) = cOperations c" "cCloseCause (keepLateCER k c) = cCloseCause c"
  "cWd (keepLateCER k c) = cWd c"
  by (simp_all add: keepLateCER_def split: option.split)

lemma skipWriter_keeps [simp]:
  "cHandshakePending (fst (skipWriter t r s)) = cHandshakePending (fst s)"
  "cCallbackReady (fst (skipWriter t r s)) = cCallbackReady (fst s)"
  "cContinuations (fst (skipWriter t r s)) = cContinuations (fst s)"
  "cCloseOutcome (fst (skipWriter t r s)) = cCloseOutcome (fst s)"
  "cHandshake (fst (skipWriter t r s)) = cHandshake (fst s)" "cWdNext (fst (skipWriter t r s)) = cWdNext (fst s)"
  "cReceivedSequence (fst (skipWriter t r s)) = cReceivedSequence (fst s)"
  "cDeferredExpiry (fst (skipWriter t r s)) = cDeferredExpiry (fst s)"
  "cCloseLocal (fst (skipWriter t r s)) = cCloseLocal (fst s)"
  "cDisconnectWaiting (fst (skipWriter t r s)) = cDisconnectWaiting (fst s)"
  "cPeerDisconnectSelected (fst (skipWriter t r s)) = cPeerDisconnectSelected (fst s)"
  "cPeerCause (fst (skipWriter t r s)) = cPeerCause (fst s)" "cPeerDPR (fst (skipWriter t r s)) = cPeerDPR (fst s)"
  "cDisconnectToken (fst (skipWriter t r s)) = cDisconnectToken (fst s)"
  "cFenceToken (fst (skipWriter t r s)) = cFenceToken (fst s)"
  "cCloseRequest (fst (skipWriter t r s)) = cCloseRequest (fst s)"
  "cEarlyDPA (fst (skipWriter t r s)) = cEarlyDPA (fst s)"
  "cLateCERToken (fst (skipWriter t r s)) = cLateCERToken (fst s)"
  "cLateCER (fst (skipWriter t r s)) = cLateCER (fst s)" "cCfg (fst (skipWriter t r s)) = cCfg (fst s)"
  "cPhase (fst (skipWriter t r s)) = cPhase (fst s)" "cSerial (fst (skipWriter t r s)) = cSerial (fst s)"
  "cStarted (fst (skipWriter t r s)) = cStarted (fst s)" "cReady (fst (skipWriter t r s)) = cReady (fst s)"
  "cTerminal (fst (skipWriter t r s)) = cTerminal (fst s)" "cFrozen (fst (skipWriter t r s)) = cFrozen (fst s)"
  "cCERDeferred (fst (skipWriter t r s)) = cCERDeferred (fst s)"
  "cPassiveResponder (fst (skipWriter t r s)) = cPassiveResponder (fst s)"
  "cPassiveCER (fst (skipWriter t r s)) = cPassiveCER (fst s)"
  "cPassiveWatchdog (fst (skipWriter t r s)) = cPassiveWatchdog (fst s)"
  "cPassivePresent (fst (skipWriter t r s)) = cPassivePresent (fst s)"
  "cCandidateToken (fst (skipWriter t r s)) = cCandidateToken (fst s)"
  "cAdmission (fst (skipWriter t r s)) = cAdmission (fst s)" "cCaps (fst (skipWriter t r s)) = cCaps (fst s)"
  "cCer (fst (skipWriter t r s)) = cCer (fst s)" "cCompletedCEA (fst (skipWriter t r s)) = cCompletedCEA (fst s)"
  "cHookToken (fst (skipWriter t r s)) = cHookToken (fst s)" "cTimers (fst (skipWriter t r s)) = cTimers (fst s)"
  "cReservations (fst (skipWriter t r s)) = cReservations (fst s)"
  "cCloseCause (fst (skipWriter t r s)) = cCloseCause (fst s)" "cWd (fst (skipWriter t r s)) = cWd (fst s)"
  by (simp_all add: skipWriter_def withdraw_def minusWriter_def)

lemma endWriter_keeps [simp]:
  "cHandshakePending (fst (endWriter t op s)) = cHandshakePending (fst s)"
  "cCallbackReady (fst (endWriter t op s)) = cCallbackReady (fst s)"
  "cContinuations (fst (endWriter t op s)) = cContinuations (fst s)"
  "cCloseOutcome (fst (endWriter t op s)) = cCloseOutcome (fst s)"
  "cHandshake (fst (endWriter t op s)) = cHandshake (fst s)" "cWdNext (fst (endWriter t op s)) = cWdNext (fst s)"
  "cReceivedSequence (fst (endWriter t op s)) = cReceivedSequence (fst s)"
  "cDeferredExpiry (fst (endWriter t op s)) = cDeferredExpiry (fst s)"
  "cCloseLocal (fst (endWriter t op s)) = cCloseLocal (fst s)"
  "cDisconnectWaiting (fst (endWriter t op s)) = cDisconnectWaiting (fst s)"
  "cPeerDisconnectSelected (fst (endWriter t op s)) = cPeerDisconnectSelected (fst s)"
  "cPeerCause (fst (endWriter t op s)) = cPeerCause (fst s)" "cPeerDPR (fst (endWriter t op s)) = cPeerDPR (fst s)"
  "cDisconnectToken (fst (endWriter t op s)) = cDisconnectToken (fst s)"
  "cFenceToken (fst (endWriter t op s)) = cFenceToken (fst s)"
  "cCloseRequest (fst (endWriter t op s)) = cCloseRequest (fst s)"
  "cEarlyDPA (fst (endWriter t op s)) = cEarlyDPA (fst s)"
  "cLateCERToken (fst (endWriter t op s)) = cLateCERToken (fst s)"
  "cLateCER (fst (endWriter t op s)) = cLateCER (fst s)" "cCfg (fst (endWriter t op s)) = cCfg (fst s)"
  "cPhase (fst (endWriter t op s)) = cPhase (fst s)" "cSerial (fst (endWriter t op s)) = cSerial (fst s)"
  "cStarted (fst (endWriter t op s)) = cStarted (fst s)" "cReady (fst (endWriter t op s)) = cReady (fst s)"
  "cTerminal (fst (endWriter t op s)) = cTerminal (fst s)" "cFrozen (fst (endWriter t op s)) = cFrozen (fst s)"
  "cCERDeferred (fst (endWriter t op s)) = cCERDeferred (fst s)"
  "cPassiveResponder (fst (endWriter t op s)) = cPassiveResponder (fst s)"
  "cPassiveCER (fst (endWriter t op s)) = cPassiveCER (fst s)"
  "cPassiveWatchdog (fst (endWriter t op s)) = cPassiveWatchdog (fst s)"
  "cPassivePresent (fst (endWriter t op s)) = cPassivePresent (fst s)"
  "cCandidateToken (fst (endWriter t op s)) = cCandidateToken (fst s)"
  "cAdmission (fst (endWriter t op s)) = cAdmission (fst s)" "cCaps (fst (endWriter t op s)) = cCaps (fst s)"
  "cCer (fst (endWriter t op s)) = cCer (fst s)" "cCompletedCEA (fst (endWriter t op s)) = cCompletedCEA (fst s)"
  "cHookToken (fst (endWriter t op s)) = cHookToken (fst s)" "cTimers (fst (endWriter t op s)) = cTimers (fst s)"
  "cReservations (fst (endWriter t op s)) = cReservations (fst s)"
  "cCloseCause (fst (endWriter t op s)) = cCloseCause (fst s)" "cWd (fst (endWriter t op s)) = cWd (fst s)"
  by (simp_all add: endWriter_def Let_def split: option.split)

section \<open>Phases\<close>

text \<open>What holds in each phase.\<close>

definition phaseOK :: "Core \<Rightarrow> bool" where
  "phaseOK c \<longleftrightarrow> (cPassiveResponder c \<longrightarrow> kRole (cCfg c) = Responder) \<and>
     (case cPhase c of
        PreCER \<Rightarrow> \<not> cReady c \<and> \<not> cFrozen c \<and> \<not> cDisconnectWaiting c \<and> cEarlyDPA c = None \<and>
          (cCandidateToken c \<noteq> 0 \<longrightarrow> kRole (cCfg c) = Responder \<and> \<not> cPassiveResponder c \<and> cCer c \<noteq> None \<and> cHookToken c = 0) \<and>
          (cHookToken c \<noteq> 0 \<longrightarrow> kRole (cCfg c) = Responder \<and> \<not> cPassiveResponder c)
      | WaitCEA \<Rightarrow> kRole (cCfg c) = Initiator \<and> \<not> cReady c \<and> \<not> cFrozen c \<and> \<not> cDisconnectWaiting c \<and> cEarlyDPA c = None \<and>
          cCandidateToken c = 0 \<and> cHookToken c = 0
      | Open \<Rightarrow> \<not> cFrozen c \<and> \<not> cDisconnectWaiting c \<and> cEarlyDPA c = None \<and> cCandidateToken c = 0 \<and> cHookToken c = 0 \<and>
          (cPassiveResponder c \<longrightarrow> cReady c)
      | Closing \<Rightarrow> \<not> cReady c \<and> cCandidateToken c = 0 \<and> cHookToken c = 0 \<and> (cCloseLocal c \<longrightarrow> cDisconnectWaiting c) \<and>
          (cEarlyDPA c \<noteq> None \<longrightarrow> cDisconnectWaiting c) \<and>
          (\<not> cFrozen c \<and> \<not> cCloseLocal c \<longrightarrow> Option.bind (cCloseRequest c) inMessage \<noteq> None)
      | _ \<Rightarrow> \<not> cReady c \<and> \<not> cDisconnectWaiting c \<and> cEarlyDPA c = None \<and> cCandidateToken c = 0 \<and> cHookToken c = 0 \<and>
          cAdmission c = 0 \<and> (\<forall>k. fst (cTimers c k) = 0))"

lemma phaseOK_frame:
  assumes "phaseOK c" and "cPhase c' = cPhase c" "cPassiveResponder c' = cPassiveResponder c" "kRole (cCfg c') = kRole (cCfg c)"
    "cReady c' = cReady c" "cFrozen c' = cFrozen c" "cDisconnectWaiting c' = cDisconnectWaiting c" "cEarlyDPA c' = cEarlyDPA c"
    "cCandidateToken c' = cCandidateToken c" "cCer c' = cCer c" "cHookToken c' = cHookToken c" "cCloseLocal c' = cCloseLocal c"
    "cCloseRequest c' = cCloseRequest c" "cAdmission c' = cAdmission c"
    and "over (cPhase c) \<Longrightarrow> (\<forall>k. fst (cTimers c k) = 0) \<Longrightarrow> (\<forall>k. fst (cTimers c' k) = 0)"
  shows "phaseOK c'"
proof -
  have "phaseOK c \<longrightarrow> phaseOK c'"
    using assms(15) by (cases "cPhase c") (auto simp: phaseOK_def assms(2-14) over_def)
  then show ?thesis
    using assms(1) by blast
qed

lemma over_simps [simp]: "over Closed" "over Retired" "\<not> over PreCER" "\<not> over WaitCEA" "\<not> over Open" "\<not> over Closing"
  by (simp_all add: over_def)

lemma freshCore_fields:
  "New cfg = Some c \<Longrightarrow> c = freshCore cfg"
  by (simp add: New_def split: if_splits)

lemma NewAdmitted_cases:
  assumes "NewAdmitted cfg p = Some c"
  obtains cfg' where "kRole cfg' = Responder" "c = grantAdmission p
      ((freshCore cfg')\<lparr>cPassiveResponder := True, cPassiveWatchdog := kWatchdog cfg, cStarted := True\<rparr>)"
proof -
  from assms have "c = RefreshAdmission (Some p)
      ((freshCore (cfg\<lparr>kRole := Responder\<rparr>))\<lparr>cPassiveResponder := True, cPassiveWatchdog := kWatchdog cfg, cStarted := True\<rparr>)"
    by (auto simp: NewAdmitted_def dest: freshCore_fields)
  then show ?thesis
    by (intro that [of "cfg\<lparr>kRole := Responder\<rparr>"]) (simp_all add: RefreshAdmission_def freshCore_def)
qed

lemma beginClosing_sets [simp]:
  "cPhase (fst (beginClosing i local s)) = Closing" "cReady (fst (beginClosing i local s)) = False"
  "cCloseLocal (fst (beginClosing i local s)) = local" "cCloseRequest (fst (beginClosing i local s)) = Some i"
  "cDisconnectWaiting (fst (beginClosing i local s)) = (local \<or> cDisconnectWaiting (fst s))"
  by (simp_all add: beginClosing_def Let_def)

lemma RefreshAdmission_sets:
  "cPassiveResponder c \<Longrightarrow> \<not> over (cPhase c) \<Longrightarrow> cPhase (RefreshAdmission p c) =
     (case p of None \<Rightarrow> if cPhase c = Open then PreCER else cPhase c | Some q \<Rightarrow> if cPhase c = Closing then Closing else Open)"
  "cPassiveResponder c \<Longrightarrow> \<not> over (cPhase c) \<Longrightarrow> cReady (RefreshAdmission p c) =
     (case p of None \<Rightarrow> if cPhase c = Open then False else cReady c | Some q \<Rightarrow> if cPhase c = Closing then cReady c else True)"
  "kRole (cCfg (RefreshAdmission p c)) = kRole (cCfg c)"
  "\<not> cPassiveResponder c \<or> over (cPhase c) \<Longrightarrow> RefreshAdmission p c = c"
  by (auto simp: RefreshAdmission_def revokeAdmission_def grantAdmission_def negotiate_def setAdmission_def Let_def
        split: option.split)

lemma phaseOK_refresh:
  assumes "phaseOK c"
  shows "phaseOK (RefreshAdmission p c)"
proof (cases "cPassiveResponder c \<and> \<not> over (cPhase c)")
  case True
  then show ?thesis
    using assms by (cases "cPhase c"; cases p; simp add: phaseOK_def RefreshAdmission_sets(1-3))
next
  case False
  then show ?thesis
    using assms by (simp add: RefreshAdmission_sets(4))
qed

lemma pauseHook_sets:
  "cPassiveResponder (fst (pauseHook m i s)) = (cPhase (fst s) \<noteq> PreCER \<and> cPassiveResponder (fst s))"
  "cHookToken (fst (pauseHook m i s)) = (if cPhase (fst s) = PreCER then Suc (cSerial (fst s)) else cHookToken (fst s))"
  by (simp_all add: pauseHook_def Let_def)

lemma reach_phase: "reach L s \<Longrightarrow> phaseOK (fst s)"
proof (induction rule: reach.induct)
  case (new cfg c)
  then show ?case
    by (auto dest!: freshCore_fields simp: freshCore_def phaseOK_def)
next
  case (newAdmitted cfg p c)
  then show ?case
    by (elim NewAdmitted_cases) (simp add: phaseOK_def grantAdmission_def negotiate_def setAdmission_def freshCore_def Let_def)
next
  case (frame L s f)
  show ?case
    by (rule phaseOK_frame [OF frame.IH]) (simp_all add: view_fields [OF frame.hyps(2)])
next
  case (candidate L s m g t sn)
  then show ?case
    by (elim disjE) (simp_all add: phaseOK_def)
next
  case (publish L s g t sn)
  then show ?case
    by (elim disjE) (auto simp: phaseOK_def)
next
  case (refresh L s p)
  then show ?case
    by (simp add: phaseOK_refresh)
next
  case (pause L s i m)
  then show ?case
    by (cases "cPhase (fst s)") (auto simp: phaseOK_def pauseHook_sets)
next
  case (terminate L s p)
  then show ?case
    by (cases p) (simp_all add: phaseOK_def)
next
  case (resume L s t)
  then show ?case
    by (cases "cPhase (fst s)") (auto simp: phaseOK_def)
next
  case (uncandidate L s)
  then show ?case
    by (cases "cPhase (fst s)") (auto simp: phaseOK_def)
next
  case (early L s i)
  then show ?case
    by (cases "cPhase (fst s)") (auto simp: phaseOK_def)
next
  case (answeredDPR L s)
  then show ?case
    by (cases "cPhase (fst s)") (auto simp: phaseOK_def)
next
  case (grantFailed L s t cmd r x g)
  then show ?case
    by (simp add: phaseOK_def view_fields [OF grantFailed.hyps(5)])
next
  case (closing L s local i)
  then show ?case
    by (cases local) (auto simp: phaseOK_def)
qed ((erule phaseOK_frame; simp add: timers_stop; fail) | simp add: phaseOK_def; fail)+

section \<open>Watchdog transitions\<close>

text \<open>A selected probe differs from the current machine in its pending flag only.\<close>

definition wdNextOK :: "Core \<Rightarrow> bool" where
  "wdNextOK c \<longleftrightarrow>
     (case cWdNext c of
        None \<Rightarrow> True
      | Some m \<Rightarrow> \<not> cPassiveResponder c \<and> (cPhase c = Open \<and> cReady c \<or> cPhase c = Closing) \<and> Pending m \<and>
          (wdState m = WdOkay \<or> wdState m = WdReopen) \<and> cWd c = m\<lparr>Pending := False\<rparr>)"

lemma setWd_sets [simp]: "cWd (setWd m c) = m" "cWdNext (setWdNext n c) = n"
  by (simp_all add: setWd_def setWdNext_def)

lemma Step_send:
  assumes "aSend (snd (Step m e))" "e = ConnectionUp \<or> e = Expired"
  shows "Pending (fst (Step m e))" and "wdState (fst (Step m e)) = WdOkay \<or> wdState (fst (Step m e)) = WdReopen"
    and "e = Expired \<Longrightarrow> (fst (Step m e))\<lparr>Pending := False\<rparr> = m"
  using assms by (cases "wdState m"; auto simp: Step_defs split: if_splits)+

lemma Step_pending: "e = Receive \<or> e = ConnectionUp \<or> e = Expired \<Longrightarrow> \<not> aSend (snd (Step m e)) \<Longrightarrow> Pending (fst (Step m e)) = Pending m"
  by (cases "wdState m") (auto simp: Step_defs split: if_splits)

lemma Step_receive_idle: "wdState m = WdOkay \<or> wdState m = WdReopen \<Longrightarrow> fst (Step m Receive) = m"
  by (auto simp: Step_defs)

lemma reach_wdNext: "reach L s \<Longrightarrow> wdNextOK (fst s)"
proof (induction rule: reach.induct)
  case (new cfg c)
  then show ?case
    by (auto dest!: freshCore_fields simp: freshCore_def wdNextOK_def)
next
  case (newAdmitted cfg p c)
  then show ?case
    by (elim NewAdmitted_cases) (simp add: wdNextOK_def grantAdmission_def negotiate_def setAdmission_def freshCore_def Let_def)
next
  case (frame L s f)
  then show ?case
    by (simp add: wdNextOK_def view_fields [OF frame.hyps(2)] split: option.splits)
next
  case (candidate L s m g t sn)
  then show ?case
    by (elim disjE) (simp_all add: wdNextOK_def split: option.splits)
next
  case (publish L s g t sn)
  then show ?case
    by (elim disjE) (simp_all add: wdNextOK_def split: option.splits)
next
  case (refresh L s p)
  then show ?case
    by (cases "cPassiveResponder (fst s)") (simp_all add: wdNextOK_def RefreshAdmission_sets(4) split: option.splits)
next
  case (pause L s i m)
  then show ?case
    by (auto simp: wdNextOK_def pauseHook_sets split: option.splits)
next
  case (probe L s e "next")
  then show ?case
    using Step_send [OF probe.hyps(9,8)] by (simp add: wdNextOK_def)
next
  case (wdStep L s e)
  then show ?case
    using Step_receive_idle [of "cWd (fst s)"] by (auto simp: wdNextOK_def split: option.splits)
qed (simp add: wdNextOK_def split: option.splits; fail)+

section \<open>Exchanges in progress\<close>

text \<open>Which exchanges may be running in each phase.\<close>

definition linkOK :: "Core \<Rightarrow> bool" where
  "linkOK c \<longleftrightarrow> (\<not> cStarted c \<or> cCERDeferred c \<longrightarrow> \<not> busy c CapabilitiesExchange) \<and>
     (case cPhase c of
        Open \<Rightarrow> \<not> busy c DisconnectPeer \<and>
          (busy c DeviceWatchdog \<longrightarrow> cReady c \<and> \<not> cPassiveResponder c \<and>
             (kWatchdog (cCfg c) \<longrightarrow> cWdNext c \<noteq> None \<or> Pending (cWd c)))
      | Closing \<Rightarrow> busy c DisconnectPeer \<longrightarrow> cFrozen c \<and> cDisconnectWaiting c
      | Closed \<Rightarrow> True
      | Retired \<Rightarrow> True
      | _ \<Rightarrow> \<not> busy c DeviceWatchdog \<and> \<not> busy c DisconnectPeer)"

lemma linkOK_frame:
  assumes "linkOK c" and "\<And>cmd. busy c' cmd \<Longrightarrow> busy c cmd" and "cStarted c' = cStarted c" "cCERDeferred c' = cCERDeferred c"
    "cPhase c' = cPhase c" "cReady c' = cReady c" "cPassiveResponder c' = cPassiveResponder c"
    "kWatchdog (cCfg c') = kWatchdog (cCfg c)" "cWdNext c' = cWdNext c" "cWd c' = cWd c" "cFrozen c' = cFrozen c"
    "cDisconnectWaiting c' = cDisconnectWaiting c"
  shows "linkOK c'"
proof -
  have b: "busy c' CapabilitiesExchange \<Longrightarrow> busy c CapabilitiesExchange" "busy c' DeviceWatchdog \<Longrightarrow> busy c DeviceWatchdog"
    "busy c' DisconnectPeer \<Longrightarrow> busy c DisconnectPeer"
    using assms(2) by blast+
  then show ?thesis
    using assms(1) by (cases "cPhase c") (auto simp: linkOK_def assms(3-12))
qed

lemma busy_upds [simp]:
  "busy (c\<lparr>cStarted := x0\<rparr>) = busy c" "busy (c\<lparr>cPhase := x1\<rparr>) = busy c"
  "busy (c\<lparr>cCERDeferred := x2\<rparr>) = busy c" "busy (c\<lparr>cHandshakePending := x3\<rparr>) = busy c"
  "busy (c\<lparr>cPassiveResponder := x4\<rparr>) = busy c" "busy (c\<lparr>cCandidateToken := x5\<rparr>) = busy c"
  "busy (c\<lparr>cCer := x6\<rparr>) = busy c" "busy (c\<lparr>cWd := x7\<rparr>) = busy c"
  "busy (c\<lparr>cWdNext := x8\<rparr>) = busy c" "busy (c\<lparr>cAdmission := x9\<rparr>) = busy c"
  "busy (c\<lparr>cCallbackReady := x10\<rparr>) = busy c" "busy (c\<lparr>cReady := x11\<rparr>) = busy c"
  "busy (c\<lparr>cDisconnectWaiting := x12\<rparr>) = busy c"
  "busy (c\<lparr>cDisconnectToken := x13\<rparr>) = busy c" "busy (c\<lparr>cCloseCause := x14\<rparr>) = busy c"
  "busy (c\<lparr>cFrozen := x15\<rparr>) = busy c" "busy (c\<lparr>cFenceToken := x16\<rparr>) = busy c"
  "busy (c\<lparr>cCloseRequest := x17\<rparr>) = busy c" "busy (c\<lparr>cEarlyDPA := x18\<rparr>) = busy c"
  "busy (c\<lparr>cContinuations := x19\<rparr>) = busy c" "busy (c\<lparr>cHookToken := x20\<rparr>) = busy c"
  "busy (c\<lparr>cLateCERToken := x21\<rparr>) = busy c" "busy (c\<lparr>cLateCER := x22\<rparr>) = busy c"
  "busy (c\<lparr>cCfg := x23\<rparr>) = busy c" "busy (c\<lparr>cOperations := x24\<rparr>) = busy c"
  "busy (c\<lparr>cSerial := x25\<rparr>) = busy c"
  by (auto simp: busy_def logicalCmd_def fun_eq_iff split: option.split)

lemma busy_ops [simp]:
  "busy (tick c) = busy c" "busy (setWd m c) = busy c" "busy (setWdNext n c) = busy c"
  "busy (setTimer k u d c) = busy c" "busy (setOperation u g c) = busy c" "busy (dropOperation u c) = busy c"
  "busy (keepLateCER e c) = busy c" "busy (RefreshAdmission p c) = busy c"
  by (auto simp: busy_def logicalCmd_def fun_eq_iff split: option.split)

lemma busy_batch_ops [simp]:
  "busy (fst (arm k at d s)) = busy (fst s)" "busy (fst (stop k s)) = busy (fst s)"
  "busy (fst (watchdogArm at iv s)) = busy (fst s)" "busy (fst (beginClosing i local s)) = busy (fst s)"
  "busy (fst (pauseHook m i s)) = busy (fst s)"
  by (auto simp: busy_def logicalCmd_def fun_eq_iff split: option.split)

text \<open>How the actions change what is busy.\<close>

lemma busy_setControl:
  assumes "idsOK X c" "\<And>r. ctlLogical (f r) \<Longrightarrow> ctlLogical r" "busy (setControl i f c) cmd"
  shows "busy c cmd"
  using assms logicalCmd_setControl [OF assms(1), of f i cmd] by (auto simp: busy_def)

lemma busy_release: "idsOK X (fst s) \<Longrightarrow> busy (fst (release i s)) cmd = busy (fst s) cmd"
  by (simp add: busy_def logicalCmd_release)

lemma busy_settle:
  assumes "idsOK {} (fst s)" "busy (fst (settle r s)) cmd"
  shows "busy (fst s) cmd"
proof -
  let ?f = "\<lambda>r. r\<lparr>ctlLogical := False, ctlAnswered := True\<rparr>"
  have "idsOK {r} (setControl r ?f (fst s))"
    using idsOK_unlogical [OF assms(1), of ?f r] by simp
  then have "busy (setControl r ?f (fst s)) cmd"
    using assms(2) by (simp add: settle_def busy_release)
  then show ?thesis
    by (intro busy_setControl [OF assms(1), of ?f r]) simp_all
qed

lemma busy_send:
  assumes "idsOK {} (fst s)"
  shows "busy (fst (send m r q ca h n src hk s)) cmd = busy (fst s) cmd"
proof -
  have "logicalCmd (addWriter r c) cmd = logicalCmd (fst s) cmd" if "cStore c = cStore (fst s)" "cControls c = cControls (fst s)" for c
    using idsOK_controls [OF assms, of cmd] that by (simp add: logicalCmd_def store_addWriter split: option.split)
  then show ?thesis
    by (simp add: busy_def fst_send)
qed

lemma resOK_bound: "resOK c \<Longrightarrow> cReservations c t = Some cmd \<Longrightarrow> t \<le> cSerial c"
  unfolding resOK_def by blast

lemma busy_reserve: "busy (fst (reserve k s)) cmd \<longleftrightarrow> cmd = k \<or> busy (fst s) cmd" if "idsOK {} (fst s)"
proof -
  have "logicalCmd (fst (reserve k s)) cmd = logicalCmd (fst s) cmd"
    by (rule logicalCmd_frame) simp_all
  moreover have "cReservations (fst s) (Suc (cSerial (fst s))) \<noteq> Some cmd"
  proof
    assume "cReservations (fst s) (Suc (cSerial (fst s))) = Some cmd"
    moreover have "resOK (fst s)"
      using that unfolding idsOK_def by blast
    ultimately show False
      using resOK_bound not_less_eq_eq by blast
  qed
  then have "(\<exists>t. ((cReservations (fst s))(Suc (cSerial (fst s)) \<mapsto> k)) t = Some cmd) \<longleftrightarrow> cmd = k \<or> (\<exists>t. cReservations (fst s) t = Some cmd)"
    by (metis fun_upd_apply option.inject)
  ultimately show ?thesis
    by (simp add: busy_def)
qed

lemma busy_addControl:
  assumes "idsOK X c"
  shows "busy (addControl k r c) cmd \<Longrightarrow> cmd = k \<or> busy c cmd"
  using idsOK_controls [OF assms, of cmd]
  by (auto simp: busy_def logicalCmd_def store_addControl nth_append split: option.splits if_splits)

lemma busy_writers:
  assumes ok: "idsOK {} (fst s)" and op: "map_of (cOperations (fst s)) t = Some op"
  shows "busy (fst (endWriter t op s)) cmd \<Longrightarrow> busy (fst s) cmd"
    and "opControl op = Some r \<Longrightarrow> busy (fst (skipWriter t r s)) cmd \<Longrightarrow> busy (fst s) cmd"
proof -
  have d: "busy (dropOperation t (fst s)) cmd = busy (fst s) cmd"
    by (rule busy_frame) simp_all
  have m: "busy (minusWriter r (dropOperation t (fst s))) cmd \<Longrightarrow> busy (fst s) cmd" if "opControl op = Some r" for r
  proof -
    have "logicalCmd (minusWriter r (dropOperation t (fst s))) cmd = logicalCmd (fst s) cmd"
      using idsOK_controls [OF ok, of cmd] by (simp add: logicalCmd_def minusWriter_def split: option.split)
    then show "busy (minusWriter r (dropOperation t (fst s))) cmd \<Longrightarrow> busy (fst s) cmd"
      by (simp add: busy_def minusWriter_def)
  qed
  show "busy (fst s) cmd" if "busy (fst (endWriter t op s)) cmd"
  proof (cases "opControl op")
    case (Some r)
    then show ?thesis
      using that m [OF Some] busy_release [of "{r}" "upd (minusWriter r) (upd (dropOperation t) s)" r cmd]
        minusWriter_ids(1) [OF ok op Some]
      by (simp add: endWriter_def minusWriter_def [abs_def])
  qed (use that d in \<open>simp add: endWriter_def\<close>)
  show "busy (fst s) cmd" if r: "opControl op = Some r" and b: "busy (fst (skipWriter t r s)) cmd"
  proof -
    note ids = minusWriter_ids [OF ok op r]
    have "idsOK {r} (withdraw r (minusWriter r (dropOperation t (fst s))))"
      using ids by (intro withdraw_ids) (simp_all add: minusWriter_def)
    then have "busy (withdraw r (minusWriter r (dropOperation t (fst s)))) cmd"
      using b by (simp add: skipWriter_def busy_release)
    then have "busy (minusWriter r (dropOperation t (fst s))) cmd"
      unfolding withdraw_def by (rule busy_setControl [OF ids(1), rotated]) (simp split: if_splits)
    then show ?thesis
      by (rule m [OF r])
  qed
qed

lemma busy_flag:
  assumes "idsOK X c" "\<And>r. ctlLogical (f r) = ctlLogical r"
  shows "busy (setControl i f c) cmd = busy c cmd"
  using idsOK_controls [OF assms(1), of cmd] assms(2) by (simp add: busy_def logicalCmd_def split: option.split)

lemma busy_consume: "idsOK X (fst s) \<Longrightarrow> busy (fst (consumeControl r m s)) cmd = busy (fst s) cmd"
  by (simp add: consumeControl_def busy_flag)

text \<open>A settled or skipped exchange is over.\<close>

lemma settle_idle:
  assumes ok: "idsOK {} (fst s)" and r: "cControls (fst s) cmd = Some r" "ctlLogical (cStore (fst s) ! r)"
  shows "\<not> busy (fst (settle r s)) cmd"
proof -
  let ?f = "\<lambda>r. r\<lparr>ctlLogical := False, ctlAnswered := True\<rparr>"
  have i: "r < length (cStore (fst s))"
    using idsOK_controls [OF ok r(1)] by simp
  have "idsOK {r} (setControl r ?f (fst s))"
    using idsOK_unlogical [OF ok, of ?f r] by simp
  then have "logicalCmd (fst (settle r s)) cmd = logicalCmd (setControl r ?f (fst s)) cmd"
    by (simp add: settle_def logicalCmd_release)
  also have "\<not> \<dots>"
    using r(1) i by (simp add: logicalCmd_def)
  finally have "\<not> logicalCmd (fst (settle r s)) cmd" .
  moreover have "logicalCmd (fst s) cmd"
    using r by (simp add: logicalCmd_def)
  then have "cReservations (fst s) t \<noteq> Some cmd" for t
    using ok unfolding idsOK_def resOK_def by blast
  ultimately show ?thesis
    by (simp add: busy_def)
qed

lemma skip_idle:
  assumes ok: "idsOK {} (fst s)" and op: "map_of (cOperations (fst s)) t = Some op" "opControl op = Some r"
    and d: "ctlLogical (cStore (fst s) ! r)" "\<not> ctlWritten (cStore (fst s) ! r)"
      "ctlCommand (cStore (fst s) ! r) = cmd" "cmd \<noteq> CapabilitiesExchange"
  shows "\<not> busy (fst (skipWriter t r s)) cmd"
proof -
  note ids = minusWriter_ids [OF ok op]
  let ?m = "minusWriter r (dropOperation t (fst s))"
  have r: "cControls (fst s) cmd = Some r" "writersOf (fst s) r \<le> 1" "ctlWriters (cStore (fst s) ! r) = int (writersOf (fst s) r)"
    using ok ids(2) d by (auto simp: idsOK_def ctlOK_def Let_def)
  moreover have "writersOf ?m r + 1 = writersOf (fst s) r"
    using writersOf_drop [OF op(1), of r] ok op(2) by (simp add: minusWriter_def idsOK_def)
  ultimately have w: "ctlWriters (cStore ?m ! r) = 0"
    using ids(2) by (simp add: minusWriter_def)
  have i: "idsOK {r} (withdraw r ?m)"
    using ids by (intro withdraw_ids) (simp_all add: minusWriter_def)
  then have "logicalCmd (fst (skipWriter t r s)) cmd = logicalCmd (withdraw r ?m) cmd"
    by (simp add: skipWriter_def logicalCmd_release)
  also have "\<not> \<dots>"
    using r(1) ids(2) w d(2) by (simp add: logicalCmd_def withdraw_def minusWriter_def)
  finally have "\<not> logicalCmd (fst (skipWriter t r s)) cmd" .
  moreover have "logicalCmd (fst s) cmd"
    using r(1) d(1) by (simp add: logicalCmd_def)
  then have "cReservations (fst s) u \<noteq> Some cmd" for u
    using ok unfolding idsOK_def resOK_def by blast
  ultimately show ?thesis
    by (simp add: busy_def)
qed

lemma busy_terminate:
  assumes "idsOK {} (fst s)" "busy (fst (terminate p s)) cmd"
  shows "busy (fst s) cmd"
proof -
  let ?c = "fst (terminate p s)"
  have "\<not> logicalCmd ?c cmd"
    using terminate_ids [OF assms(1), where p = p] idsOK_controls [of "{}" ?c cmd] by (auto simp: logicalCmd_def split: option.split)
  then show ?thesis
    using assms(2) by (simp add: busy_def)
qed

text \<open>In a finished phase only the start of the exchange of capabilities is restricted.\<close>

definition startOK :: "Core \<Rightarrow> bool" where
  "startOK c \<longleftrightarrow> (\<not> cStarted c \<or> cCERDeferred c \<longrightarrow> \<not> busy c CapabilitiesExchange)"

lemma linkOK_start: "linkOK c \<Longrightarrow> startOK c" "over (cPhase c) \<Longrightarrow> linkOK c = startOK c"
  by (auto simp: linkOK_def startOK_def over_def)

lemma linkOK_terminate: "idsOK {} (fst s) \<Longrightarrow> startOK (fst s) \<Longrightarrow> over p \<Longrightarrow> linkOK (fst (terminate p s))"
  using busy_terminate [of s p] by (auto simp: linkOK_start(2) startOK_def)

lemma granted_ids:
  assumes "idsOK {} c" "cReservations c t = Some cmd" "freshControl r cmd x"
  shows "idsOK {} (addControl cmd r (unreserve t c))"
proof -
  have "cmd \<in> set controlCommands"
    using assms(1,2) unfolding idsOK_def resOK_def by blast
  then show ?thesis
    using assms(3) unreserve_ids [OF assms(1), of t] assms(2) by (intro idsOK_addControl(1)) (simp_all add: freshControl_def)
qed

lemma busy_granted:
  assumes "idsOK {} c" "cReservations c t = Some cmd" "busy (addControl cmd r (unreserve t c)) k"
  shows "busy c k"
proof (cases "k = cmd")
  case True
  then show ?thesis
    using assms(2) by (auto simp: busy_def)
next
  case False
  then have "busy (unreserve t c) k"
    using busy_addControl [OF unreserve_ids(1) [OF assms(1)] assms(3)] by simp
  then show ?thesis
    by (rule busy_unreserve)
qed

lemma linkOK_refresh:
  assumes "linkOK c" "phaseOK c"
  shows "linkOK (RefreshAdmission p c)"
proof (cases "cPassiveResponder c \<and> \<not> over (cPhase c)")
  case True
  then show ?thesis
    using assms by (cases "cPhase c"; cases p) (auto simp: linkOK_def phaseOK_def RefreshAdmission_sets(1-3))
next
  case False
  then show ?thesis
    using assms(1) by (simp add: RefreshAdmission_sets(4))
qed

lemma reach_link: "reach L s \<Longrightarrow> linkOK (fst s)"
proof (induction rule: reach.induct)
  case (new cfg c)
  then have "busy c cmd = False" for cmd
    by (auto dest!: freshCore_fields simp: freshCore_def busy_def logicalCmd_def)
  then show ?case
    by (cases "cPhase c") (simp_all add: linkOK_def)
next
  case (newAdmitted cfg p c)
  then have "busy c cmd = False" for cmd
    by (elim NewAdmitted_cases)
      (simp add: busy_def logicalCmd_def grantAdmission_def negotiate_def setAdmission_def freshCore_def Let_def)
  then show ?case
    by (cases "cPhase c") (simp_all add: linkOK_def)
next
  case (frame L s f)
  show ?case
    by (rule linkOK_frame [OF frame.IH])
      (simp_all add: view_fields [OF frame.hyps(2)] busy_frame [OF view_fields(15,14,13) [OF frame.hyps(2)]])
next
  case (reply L s m q ca h n src hk)
  show ?case
    by (rule linkOK_frame [OF reply.IH]) (simp_all add: busy_send reach_ids [OF reply.hyps(1)])
next
  case (retry L s r m q ca h n src hk)
  show ?case
    by (rule linkOK_frame [OF retry.IH]) (simp_all add: busy_send reach_ids [OF retry.hyps(1)])
next
  case (terminate L s p)
  then show ?case
    by (simp add: linkOK_terminate linkOK_start(1) reach_ids)
next
  case (settle L s cmd r)
  show ?case
    by (rule linkOK_frame [OF settle.IH]) (simp_all add: busy_settle [OF reach_ids [OF settle.hyps(1)]])
next
  case (consume L s cmd r m)
  show ?case
    by (rule linkOK_frame [OF consume.IH]) (simp_all add: busy_consume [OF reach_ids [OF consume.hyps(1)]])
next
  case (written L s r)
  show ?case
    by (rule linkOK_frame [OF written.IH]) (simp_all add: busy_flag [OF reach_ids [OF written.hyps(1)]])
next
  case (unreserve L s t)
  show ?case
    by (rule linkOK_frame [OF unreserve.IH]) (simp_all add: busy_unreserve)
next
  case (refuse L s x t)
  show ?case
    by (rule linkOK_frame [OF refuse.IH]) (simp_all add: busy_unreserve)
next
  case (endWriter L s t op)
  show ?case
    by (rule linkOK_frame [OF endWriter.IH]) (simp_all add: busy_writers(1) [OF reach_ids [OF endWriter.hyps(1)] endWriter.hyps(2)])
next
  case (skip L s t op r)
  show ?case
    by (rule linkOK_frame [OF skip.IH])
      (simp_all add: busy_writers(2) [OF reach_ids [OF skip.hyps(1)] skip.hyps(2,3)])
next
  case (reserve L s cmd)
  then show ?case
    using busy_reserve [OF reach_ids [OF reserve.hyps(1)], of cmd]
    by (cases "cPhase (fst s)") (auto simp: linkOK_def CapabilitiesExchange_def DeviceWatchdog_def DisconnectPeer_def)
next
  case (completed L s n t)
  let ?s = "upd (\<lambda>c. c\<lparr>cEarlyDPA := None, cDisconnectWaiting := False\<rparr>) s"
  have "idsOK {} (fst ?s)" "startOK (fst ?s)"
    using reach_ids [OF completed.hyps(1)] linkOK_start(1) [OF completed.IH] by (auto intro: idsOK_frame simp: startOK_def)
  then show ?case
    by (simp add: linkOK_terminate)
next
  case (answerDWA L s r m)
  let ?s = "upd (\<lambda>c. setWdNext None (setWd (fst (Step (effective c) ReceiveDWA)) c)) s"
  let ?t = "consumeControl r m ?s"
  have ok: "idsOK {} (fst ?s)"
    using reach_ids [OF answerDWA.hyps(1)] by (auto intro: idsOK_frame)
  note ct = consumeControl_ids [OF ok, of r m]
  have "r < length (cStore (fst s))"
    using idsOK_controls [OF reach_ids [OF answerDWA.hyps(1)] answerDWA.hyps(2)] by simp
  then have "\<not> busy (fst (settle r ?t)) DeviceWatchdog"
    using answerDWA.hyps by (intro settle_idle [OF ct(1)]) (simp_all add: consumeControl_def)
  moreover have "busy (fst (settle r ?t)) cmd \<Longrightarrow> busy (fst s) cmd" for cmd
    using busy_settle [OF ct(1), of r cmd] busy_consume [OF ok, of r m cmd] by simp
  ultimately show ?case
    using answerDWA.IH answerDWA.hyps(4) by (auto simp: linkOK_def)
next
  case (grant L s t cmd r x m q ca h n src hk)
  note ids = reach_ids [OF grant.hyps(1)]
  have "idsOK {} (addControl cmd r (unreserve t (fst s)))"
    by (rule granted_ids [OF ids grant.hyps(2,4)])
  then show ?case
    by (intro linkOK_frame [OF grant.IH]) (simp_all add: busy_send busy_granted [OF ids grant.hyps(2)])
next
  case (grantFailed L s t cmd r x g)
  note ids = reach_ids [OF grantFailed.hyps(1)]
  let ?c = "addControl cmd r (unreserve t (fst s))"
  have ok: "idsOK {} ?c"
    by (rule granted_ids [OF ids grantFailed.hyps(2,4)])
  have "startOK ?c"
    using linkOK_start(1) [OF grantFailed.IH] busy_granted [OF ids grantFailed.hyps(2)] by (auto simp: startOK_def)
  moreover have "busy (g ?c) k = busy ?c k" for k
    by (rule busy_frame) (simp_all add: view_fields [OF grantFailed.hyps(5)])
  ultimately have "startOK (g ?c)"
    by (simp add: startOK_def view_fields [OF grantFailed.hyps(5)])
  moreover have "idsOK {} (g ?c)"
    by (rule idsOK_frame [OF ok]) (simp_all add: view_fields [OF grantFailed.hyps(5)])
  ultimately show ?case
    by (simp add: linkOK_terminate)
next
  case (refresh L s p)
  then show ?case
    by (simp add: linkOK_refresh reach_phase)
next
  case (candidate L s m g t sn)
  then show ?case
    by (elim disjE) (simp_all add: linkOK_def)
next
  case (publish L s g t sn)
  then show ?case
    by (elim disjE) (simp_all add: linkOK_def)
next
  case (probe L s e "next")
  let ?s = "upd (\<lambda>c. setWdNext (Some next) (setWd (next\<lparr>Pending := False\<rparr>) c)) s"
  have "idsOK {} (fst ?s)"
    using reach_ids [OF probe.hyps(1)] by (auto intro: idsOK_frame)
  then show ?case
    using probe busy_reserve [of ?s DeviceWatchdog]
    by (auto simp: linkOK_def CapabilitiesExchange_def DeviceWatchdog_def DisconnectPeer_def)
next
  case (wdStep L s e)
  then show ?case
    using Step_pending [of e "cWd (fst s)"] by (auto simp: linkOK_def)
next
  case (published L s "next")
  then show ?case
    using reach_wdNext [OF published.hyps(1)] by (auto simp: linkOK_def wdNextOK_def)
next
  case (pause L s i m)
  then show ?case
    by (cases "cPhase (fst s)") (simp_all add: linkOK_def pauseHook_sets)
qed ((erule linkOK_frame; simp; fail) | simp add: linkOK_def split: Phase.splits; fail)+

section \<open>Values the handlers rely on\<close>

text \<open>A control that awaits its answer has its frame, and there is none once the connection is over.\<close>

definition storeOK :: "Core \<Rightarrow> bool" where
  "storeOK c \<longleftrightarrow> (\<forall>i < length (cStore c). ctlLogical (cStore c ! i) \<longrightarrow> \<not> over (cPhase c) \<and> ctlFrame (cStore c ! i) \<noteq> None)"

lemma storeOK_frame:
  assumes "storeOK c" and "over (cPhase c') \<Longrightarrow> over (cPhase c)" and "length (cStore c') = length (cStore c)"
    and "\<And>i. i < length (cStore c) \<Longrightarrow> ctlLogical (cStore c' ! i) \<Longrightarrow>
      ctlLogical (cStore c ! i) \<and> ctlFrame (cStore c' ! i) = ctlFrame (cStore c ! i)"
  shows "storeOK c'"
  using assms unfolding storeOK_def by metis

lemma storeOK_same: "storeOK c \<Longrightarrow> cStore c' = cStore c \<Longrightarrow> (over (cPhase c') \<Longrightarrow> over (cPhase c)) \<Longrightarrow> storeOK c'"
  by (auto simp: storeOK_def)

lemma storeOK_terminate: "idsOK {} (fst s) \<Longrightarrow> storeOK (fst (terminate p s))"
  using terminate_ids [of s, where p = p] by (simp add: storeOK_def)

lemma ctlFrame_settle:
  assumes "r < length (cStore (fst s))" "i < length (cStore (fst s))"
  shows "ctlFrame (cStore (fst (settle r s)) ! i) = ctlFrame (cStore (fst s) ! i)"
  using assms by (simp add: settle_def)

lemma storeOK_settle:
  assumes "storeOK (fst s)" "r < length (cStore (fst s))"
  shows "storeOK (fst (settle r s))"
  by (rule storeOK_frame [OF assms(1)]) (use assms in \<open>simp_all add: settle_logical ctlFrame_settle\<close>, simp add: settle_def)

lemma storeOK_consume: "storeOK (fst s) \<Longrightarrow> storeOK (fst (consumeControl r m s))"
  by (erule storeOK_frame) (auto simp: consumeControl_def split: if_splits)

lemma storeOK_send: "storeOK (fst s) \<Longrightarrow> storeOK (fst (send m r q ca h n src hk s))"
  by (erule storeOK_frame) (simp_all add: fst_send store_addWriter split: if_splits)

lemma storeOK_writers:
  assumes "storeOK (fst s)" "idsOK {} (fst s)" "map_of (cOperations (fst s)) t = Some op"
  shows "storeOK (fst (endWriter t op s))" and "opControl op = Some r \<Longrightarrow> storeOK (fst (skipWriter t r s))"
proof -
  show "storeOK (fst (endWriter t op s))"
    by (rule storeOK_frame [OF assms(1)]) (auto simp: endWriter_def Let_def split: option.splits)
  show "storeOK (fst (skipWriter t r s))" if "opControl op = Some r"
    by (rule storeOK_frame [OF assms(1)]) (auto simp: skipWriter_def withdraw_def minusWriter_def split: if_splits)
qed

lemma reach_store: "reach L s \<Longrightarrow> storeOK (fst s)"
proof (induction rule: reach.induct)
  case (new cfg c)
  then show ?case
    by (auto dest!: freshCore_fields simp: freshCore_def storeOK_def)
next
  case (newAdmitted cfg p c)
  then show ?case
    by (elim NewAdmitted_cases) (simp add: storeOK_def grantAdmission_def negotiate_def setAdmission_def freshCore_def Let_def)
next
  case (frame L s f)
  show ?case
    by (rule storeOK_same [OF frame.IH]) (simp_all add: view_fields [OF frame.hyps(2)])
next
  case (terminate L s p)
  then show ?case
    by (simp add: storeOK_terminate reach_ids)
next
  case (completed L s n t)
  have "idsOK {} ((fst s)\<lparr>cEarlyDPA := None, cDisconnectWaiting := False\<rparr>)"
    using reach_ids [OF completed.hyps(1)] by (auto intro: idsOK_frame)
  then show ?case
    by (simp add: storeOK_terminate)
next
  case (settle L s cmd r)
  then show ?case
    using idsOK_controls [OF reach_ids [OF settle.hyps(1)] settle.hyps(2)] by (simp add: storeOK_settle)
next
  case (answerDWA L s r m)
  let ?s = "upd (\<lambda>c. setWdNext None (setWd (fst (Step (effective c) ReceiveDWA)) c)) s"
  have "storeOK (fst ?s)"
    by (rule storeOK_same [OF answerDWA.IH]) simp_all
  moreover have "r < length (cStore (fst (consumeControl r m ?s)))"
    using idsOK_controls [OF reach_ids [OF answerDWA.hyps(1)] answerDWA.hyps(2)] by (simp add: consumeControl_def)
  ultimately show ?case
    by (intro storeOK_settle storeOK_consume)
next
  case (written L s r)
  show ?case
    by (rule storeOK_frame [OF written.IH]) (auto split: if_splits)
next
  case (grant L s t cmd r x m q ca h n src hk)
  then have "storeOK (addControl cmd r (unreserve t (fst s)))"
    by (auto simp: storeOK_def store_addControl nth_append less_Suc_eq)
  then show ?case
    by (simp add: storeOK_send)
next
  case (grantFailed L s t cmd r x g)
  have "idsOK {} (addControl cmd r (unreserve t (fst s)))"
    by (rule granted_ids [OF reach_ids [OF grantFailed.hyps(1)] grantFailed.hyps(2,4)])
  then have "idsOK {} (g (addControl cmd r (unreserve t (fst s))))"
    by (rule idsOK_frame) (simp_all add: view_fields [OF grantFailed.hyps(5)])
  then show ?case
    by (simp add: storeOK_terminate)
next
  case (endWriter L s t op)
  then show ?case
    by (simp add: storeOK_writers reach_ids)
next
  case (skip L s t op r)
  then show ?case
    by (simp add: storeOK_writers(2) reach_ids)
next
  case (candidate L s m g t sn)
  then show ?case
    by (elim disjE) (simp_all add: storeOK_def)
next
  case (publish L s g t sn)
  then show ?case
    by (elim disjE) (simp_all add: storeOK_def)
next
  case (refresh L s p)
  show ?case
    by (rule storeOK_same [OF refresh.IH])
      (auto simp: RefreshAdmission_def revokeAdmission_def grantAdmission_def negotiate_def setAdmission_def Let_def split: option.splits if_splits)
qed (simp add: storeOK_send; fail | simp add: storeOK_consume; fail | simp add: storeOK_def; fail)+

text \<open>Paused hooks keep their message; a paused CER of a responder is the one its hook token names.\<close>

definition contOK :: "Core \<Rightarrow> bool" where
  "contOK c \<longleftrightarrow> (\<forall>t p. cContinuations c t = Some p \<longrightarrow> t \<noteq> 0 \<and> t \<le> cSerial c \<and>
     (\<exists>m. inMessage (conInput p) = Some m \<and>
        (CommandCode (msgHeader m) = DeviceWatchdog \<or> conRepeatedCER p \<or> cHookToken c = t)))"

lemma contOK_frame:
  "contOK c \<Longrightarrow> cContinuations c' = cContinuations c \<Longrightarrow> cHookToken c' = cHookToken c \<Longrightarrow> cSerial c \<le> cSerial c' \<Longrightarrow> contOK c'"
  unfolding contOK_def by (metis order_trans)

lemma cont_pause:
  "cContinuations (fst (pauseHook m i s)) = (cContinuations (fst s))(Suc (cSerial (fst s)) \<mapsto>
     \<lparr>conInput = i, conRepeatedCER = (cPhase (fst s) = Open \<and> CommandCode (msgHeader m) = CapabilitiesExchange)\<rparr>)"
  by (simp add: pauseHook_def Let_def)

lemma reach_cont: "reach L s \<Longrightarrow> contOK (fst s)"
proof (induction rule: reach.induct)
  case (new cfg c)
  then show ?case
    by (auto dest!: freshCore_fields simp: freshCore_def contOK_def)
next
  case (newAdmitted cfg p c)
  then show ?case
    by (elim NewAdmitted_cases) (simp add: contOK_def grantAdmission_def negotiate_def setAdmission_def freshCore_def Let_def)
next
  case (frame L s f)
  show ?case
    by (rule contOK_frame [OF frame.IH]) (simp_all add: view_fields [OF frame.hyps(2)])
next
  case (pause L s i m)
  then show ?case
    by (auto simp: contOK_def cont_pause pauseHook_sets le_Suc_eq split: if_splits)
next
  case (resume L s t)
  then show ?case
    by (auto simp: contOK_def)
next
  case (candidate L s m g t sn)
  show ?case
    by (rule contOK_frame [OF candidate.IH]; use candidate.hyps in \<open>elim disjE; simp\<close>)
next
  case (publish L s g t sn)
  show ?case
    by (rule contOK_frame [OF publish.IH]; use publish.hyps in \<open>elim disjE; simp\<close>)
qed ((erule contOK_frame; simp add: serial_arm fst_send; fail) | simp add: contOK_def; fail)+

section \<open>Tokens\<close>

definition tokOK :: "Core \<Rightarrow> bool" where
  "tokOK c \<longleftrightarrow> (\<forall>k. fst (cTimers c k) \<le> cSerial c) \<and> cCandidateToken c \<le> cSerial c \<and> cAdmission c \<le> cSerial c \<and>
     cHookToken c \<le> cSerial c \<and> cFenceToken c \<le> cSerial c \<and> cLateCERToken c \<le> cSerial c"

lemma tokOK_frame:
  assumes "tokOK c" and "cSerial c \<le> cSerial c'" and "\<And>k. fst (cTimers c' k) \<le> cSerial c' \<or> fst (cTimers c' k) = fst (cTimers c k)"
    "cCandidateToken c' = cCandidateToken c \<or> cCandidateToken c' \<le> cSerial c'"
    "cAdmission c' = cAdmission c \<or> cAdmission c' \<le> cSerial c'" "cHookToken c' = cHookToken c \<or> cHookToken c' \<le> cSerial c'"
    "cFenceToken c' = cFenceToken c \<or> cFenceToken c' \<le> cSerial c'"
    "cLateCERToken c' = cLateCERToken c \<or> cLateCERToken c' \<le> cSerial c'"
  shows "tokOK c'"
proof -
  have le: "x' \<le> cSerial c'" if "x \<le> cSerial c" "x' = x \<or> x' \<le> cSerial c'" for x x' :: nat
    using that assms(2) by auto
  have "fst (cTimers c k) \<le> cSerial c" for k
    using assms(1) by (simp add: tokOK_def)
  then have "fst (cTimers c' k) \<le> cSerial c'" for k
    using assms(3) le by blast
  moreover have "cCandidateToken c' \<le> cSerial c'" "cAdmission c' \<le> cSerial c'" "cHookToken c' \<le> cSerial c'"
    "cFenceToken c' \<le> cSerial c'" "cLateCERToken c' \<le> cSerial c'"
    using assms(1) le [OF _ assms(4)] le [OF _ assms(5)] le [OF _ assms(6)] le [OF _ assms(7)] le [OF _ assms(8)]
    by (simp_all add: tokOK_def)
  ultimately show ?thesis
    by (simp add: tokOK_def)
qed

lemma timer_arm: "fst (cTimers (fst (arm k at d s)) j) \<le> cSerial (fst (arm k at d s)) \<or>
    fst (cTimers (fst (arm k at d s)) j) = fst (cTimers (fst s) j)"
  by (simp add: fst_arm setTimer_def)

lemma timer_watchdogArm: "fst (cTimers (fst (watchdogArm at iv s)) j) \<le> cSerial (fst (watchdogArm at iv s)) \<or>
    fst (cTimers (fst (watchdogArm at iv s)) j) = fst (cTimers (fst s) j)"
  by (simp add: fst_watchdogArm fst_stop setTimer_def Let_def)

lemma serial_send [simp]: "cSerial (fst (send m r q ca h n src hk s)) = Suc (cSerial (fst s))"
  by (simp add: fst_send)

lemma tokOK_closing: "tokOK (fst s) \<Longrightarrow> tokOK (fst (beginClosing i local s))"
  by (auto simp: tokOK_def beginClosing_def Let_def fst_arm fst_stop setTimer_def intro: le_SucI)

lemma tokOK_late: "tokOK c \<Longrightarrow> tokOK (keepLateCER k c)"
  by (auto simp: tokOK_def keepLateCER_def split: option.split)

lemma reach_tok: "reach L s \<Longrightarrow> tokOK (fst s)"
proof (induction rule: reach.induct)
  case (new cfg c)
  then show ?case
    by (auto dest!: freshCore_fields simp: freshCore_def tokOK_def)
next
  case (newAdmitted cfg p c)
  then show ?case
    by (elim NewAdmitted_cases) (simp add: tokOK_def grantAdmission_def negotiate_def setAdmission_def freshCore_def Let_def)
next
  case (frame L s f)
  then show ?case
    by (simp add: tokOK_def view_fields [OF frame.hyps(2)])
next
  case (arm L s k at d)
  show ?case
    by (rule tokOK_frame [OF arm.IH]) (simp_all add: serial_arm timer_arm)
next
  case (watchdogArm L s at iv)
  show ?case
    by (rule tokOK_frame [OF watchdogArm.IH]) (simp_all add: serial_arm timer_watchdogArm)
next
  case (stop L s k)
  show ?case
    by (rule tokOK_frame [OF stop.IH]) (simp_all add: timers_stop)
next
  case (pause L s i m)
  show ?case
    by (rule tokOK_frame [OF pause.IH]) (simp_all add: pauseHook_sets)
next
  case (candidate L s m g t sn)
  show ?case
    by (rule tokOK_frame [OF candidate.IH]; use candidate.hyps in \<open>elim disjE; simp add: timers_stop\<close>)
next
  case (publish L s g t sn)
  show ?case
    by (rule tokOK_frame [OF publish.IH]; use publish.hyps in \<open>elim disjE; simp add: timers_stop\<close>)
next
  case (closing L s local i)
  then show ?case
    by (simp add: tokOK_closing)
next
  case (late L s k)
  then show ?case
    by (simp add: tokOK_late)
next
  case (terminate L s p)
  then show ?case
    by (simp add: tokOK_def)
next
  case (completed L s n t)
  then show ?case
    by (simp add: tokOK_def)
next
  case (grantFailed L s t cmd r x g)
  then show ?case
    by (simp add: tokOK_def view_fields [OF grantFailed.hyps(5)])
qed (erule tokOK_frame; simp; fail)+

text \<open>A startup is deferred only once it has begun.\<close>

definition deferOK :: "Core \<Rightarrow> bool" where
  "deferOK c \<longleftrightarrow> (cCERDeferred c \<longrightarrow> cStarted c)"

lemma reach_defer: "reach L s \<Longrightarrow> deferOK (fst s)"
proof (induction rule: reach.induct)
  case (new cfg c)
  then show ?case
    by (auto dest!: freshCore_fields simp: freshCore_def deferOK_def)
next
  case (newAdmitted cfg p c)
  then show ?case
    by (elim NewAdmitted_cases) (simp add: deferOK_def grantAdmission_def negotiate_def setAdmission_def freshCore_def Let_def)
next
  case (frame L s f)
  then show ?case
    by (simp add: deferOK_def view_fields [OF frame.hyps(2)])
next
  case (grantFailed L s t cmd r x g)
  then show ?case
    by (simp add: deferOK_def view_fields [OF grantFailed.hyps(5)])
next
  case (candidate L s m g t sn)
  then show ?case
    by (elim disjE) (simp_all add: deferOK_def)
next
  case (publish L s g t sn)
  then show ?case
    by (elim disjE) (simp_all add: deferOK_def)
qed (simp add: deferOK_def; fail)+

text \<open>The watchdog moves only on a connection the core admitted itself.\<close>

definition idleOK :: "Core \<Rightarrow> bool" where
  "idleOK c \<longleftrightarrow> (cPassiveResponder c \<and> cPhase c = Open \<longrightarrow> \<not> kWatchdog (cCfg c)) \<and>
     (cPhase c = PreCER \<or> cPhase c = WaitCEA \<or> cPhase c = Open \<and> (\<not> cReady c \<or> cPassiveResponder c) \<longrightarrow>
        wdState (cWd c) = WdInitial \<or> wdState (cWd c) = WdDown)"

lemma idleOK_frame:
  "idleOK c \<Longrightarrow> cPassiveResponder c' = cPassiveResponder c \<Longrightarrow> cPhase c' = cPhase c \<Longrightarrow> cReady c' = cReady c \<Longrightarrow>
   kWatchdog (cCfg c') = kWatchdog (cCfg c) \<Longrightarrow> wdState (cWd c') = wdState (cWd c) \<Longrightarrow> idleOK c'"
  by (simp add: idleOK_def)

lemma Step_idle:
  assumes "wdState m = WdInitial \<or> wdState m = WdDown" "e = Receive \<or> e = Expired"
  shows "wdState (fst (Step m e)) = WdInitial \<or> wdState (fst (Step m e)) = WdDown"
  using assms by (auto simp: Step_defs)

lemma idleOK_refresh:
  assumes ok: "idleOK c" "phaseOK c"
  shows "idleOK (RefreshAdmission p c)"
proof (cases "cPassiveResponder c \<and> \<not> over (cPhase c)")
  case True
  then show ?thesis
    using ok
    by (cases "cPhase c")
      (auto simp: RefreshAdmission_def revokeAdmission_def grantAdmission_def negotiate_def setAdmission_def Let_def
         idleOK_def phaseOK_def split: option.split)
next
  case False
  then show ?thesis
    using ok by (auto simp: RefreshAdmission_def)
qed

lemma reach_idle: "reach L s \<Longrightarrow> idleOK (fst s)"
proof (induction rule: reach.induct)
  case (new cfg c)
  then show ?case
    by (auto dest!: freshCore_fields simp: freshCore_def idleOK_def)
next
  case (newAdmitted cfg p c)
  then show ?case
    by (elim NewAdmitted_cases) (simp add: idleOK_def grantAdmission_def negotiate_def setAdmission_def freshCore_def Let_def)
next
  case (frame L s f)
  then show ?case
    by (auto intro: idleOK_frame simp: view_fields [OF frame.hyps(2)])
next
  case (answerDWA L s r m)
  have "busy (fst s) DeviceWatchdog"
    using answerDWA.hyps by (simp add: busy_def logicalCmd_def)
  then have "cReady (fst s)" "\<not> cPassiveResponder (fst s)"
    using reach_link [OF answerDWA.hyps(1)] answerDWA.hyps(4) by (simp_all add: linkOK_def)
  then show ?case
    using answerDWA.hyps(4) by (simp add: idleOK_def)
next
  case (wdStep L s e)
  then show ?case
    using Step_idle [of "cWd (fst s)" e] by (auto simp: idleOK_def)
next
  case (published L s "next")
  then show ?case
    using reach_wdNext [OF published.hyps(1)] by (simp add: idleOK_def wdNextOK_def)
next
  case (candidate L s m g t sn)
  then show ?case
    by (elim disjE) (simp_all add: idleOK_def)
next
  case (publish L s g t sn)
  then show ?case
    by (elim disjE) (auto simp: idleOK_def)
next
  case (pause L s i m)
  then show ?case
    by (simp add: idleOK_def pauseHook_sets)
next
  case (refresh L s p)
  then show ?case
    by (simp add: idleOK_refresh reach_phase)
next
  case (grantFailed L s t cmd r x g)
  then show ?case
    by (simp add: idleOK_def)
qed (erule idleOK_frame; simp; fail | auto simp: idleOK_def; fail)+

text \<open>The notice kept with a reply is neither the handshake's nor a disconnect's.\<close>

definition noticeOK :: "Core \<Rightarrow> bool" where
  "noticeOK c \<longleftrightarrow> (\<forall>(t, op) \<in> set (cOperations c). pred_option plainNotice (opNotice op))"

section \<open>Well-formedness\<close>

lemma noticeOK_same: "noticeOK c \<Longrightarrow> cOperations c' = cOperations c \<Longrightarrow> noticeOK c'"
  by (simp add: noticeOK_def)

lemma noticeOK_send: "noticeOK (fst s) \<Longrightarrow> pred_option plainNotice n \<Longrightarrow> noticeOK (fst (send m r q ca h n src hk s))"
  by (simp add: noticeOK_def fst_send newOperation_def)

lemma noticeOK_drop:
  "noticeOK (fst s) \<Longrightarrow> noticeOK (fst (endWriter t op s))" "noticeOK (fst s) \<Longrightarrow> noticeOK (fst (skipWriter t r s))"
  by (auto simp: noticeOK_def endWriter_def skipWriter_def dropOperation_def withdraw_def minusWriter_def Let_def split: option.split)

lemma noticeOK_flag: "noticeOK c \<Longrightarrow> (\<And>op. opNotice (g op) = opNotice op) \<Longrightarrow> noticeOK (setOperation t g c)"
  by (auto simp: noticeOK_def setOperation_def)

lemma reach_notice: "reach L s \<Longrightarrow> noticeOK (fst s)"
proof (induction rule: reach.induct)
  case (new cfg c)
  then show ?case
    by (auto dest!: freshCore_fields simp: freshCore_def noticeOK_def)
next
  case (newAdmitted cfg p c)
  then show ?case
    by (elim NewAdmitted_cases) (simp add: noticeOK_def grantAdmission_def negotiate_def setAdmission_def freshCore_def Let_def)
next
  case (frame L s f)
  then show ?case
    by (auto intro: noticeOK_same simp: view_fields [OF frame.hyps(2)])
next
  case (grantFailed L s t cmd r x g)
  show ?case
    by (rule noticeOK_same [OF grantFailed.IH]) (simp add: view_fields [OF grantFailed.hyps(5)])
next
  case (grant L s t cmd r x m q ca h n src hk)
  have "noticeOK (fst (upd (addControl cmd r) (upd (unreserve t) s)))"
    by (rule noticeOK_same [OF grant.IH]) simp
  then show ?case
    using grant.hyps by (intro noticeOK_send) simp_all
next
  case (candidate L s m g t sn)
  then show ?case
    by (elim disjE) (auto intro: noticeOK_same)
next
  case (publish L s g t sn)
  then show ?case
    by (elim disjE) (auto intro: noticeOK_same)
qed (simp add: noticeOK_send noticeOK_drop noticeOK_flag; fail | erule noticeOK_same; simp; fail)+

definition wfCore :: "Core \<Rightarrow> bool" where
  "wfCore c \<longleftrightarrow> idsOK {} c \<and> phaseOK c \<and> wdNextOK c \<and> linkOK c \<and> storeOK c \<and> contOK c \<and> tokOK c \<and>
     deferOK c \<and> idleOK c \<and> noticeOK c"

lemma reach_wf: "reach L s \<Longrightarrow> wfCore (fst s)"
  by (simp add: wfCore_def reach_ids reach_phase reach_wdNext reach_link reach_store reach_cont reach_tok reach_defer reach_idle reach_notice)

end
