(* ===== verification/CoreRefinement.thy ===== *)
theory CoreRefinement
  imports CoreInvariant
begin

text \<open>
  Every handler of the protocol core is a sequence of the actions of \<open>CoreMachine\<close>: what a handler leaves
  behind is reachable when what it found was. Each lemma follows the branches of one definition of
  \<open>CoreHandlers\<close>; the conditions of the actions come from the handler's own tests and from the invariants
  of \<open>CoreInvariant\<close>. The last lemmas are for whole inputs.
\<close>

declare Step.simps [simp del]

section \<open>Notices and termination\<close>

lemma plainNotice_kind [simp]: "plainNotice (n\<lparr>nKind := k\<rparr>) \<longleftrightarrow> k \<noteq> HandshakeNotice \<and> k \<noteq> DisconnectNotice"
  "plainNotice (n\<lparr>nProtocol := p\<rparr>) = plainNotice n" "plainNotice (n\<lparr>nResultCode := u\<rparr>) = plainNotice n"
  "plainNotice (n\<lparr>nReplyCode := u\<rparr>) = plainNotice n" "plainNotice (n\<lparr>nCause := u\<rparr>) = plainNotice n"
  "plainNotice (n\<lparr>nReply := r\<rparr>) = plainNotice n" "plainNotice (n\<lparr>nClosing := b\<rparr>) = plainNotice n"
  "plainNotice (n\<lparr>nWatchdog := w\<rparr>) = plainNotice n" "plainNotice (n\<lparr>nMessage := d\<rparr>) = plainNotice n" "plainNotice notice0"
  by (simp_all add: plainNotice_def notice0_def)

lemma reach_notifyToken: "reach L s \<Longrightarrow> plainNotice n \<Longrightarrow> reach L (notifyToken n t s)"
  unfolding notifyToken_def by (rule reach.quiet) (auto simp: plainNotice_def)

lemma reach_notify: "reach L s \<Longrightarrow> plainNotice n \<Longrightarrow> reach L (notify n s)"
  by (simp add: notify_def reach_notifyToken)

lemma reach_discard: "reach L s \<Longrightarrow> reach L (discard m k u b s)"
  by (simp add: discard_def Let_def reach.quiet reach_notify)

lemma reach_fail:
  assumes "reach L s" "\<not> over (cPhase (fst s))"
  shows "reach L (fail m k u s)"
proof -
  have late: "reach L (upd (keepLateCER k) s)"
    using assms(1) by (rule reach.late)
  moreover have "reach L (upd (\<lambda>c. c\<lparr>cCloseOutcome := TimedOut\<rparr>) (upd (keepLateCER k) s))"
    by (rule reach.frame [OF late]) (simp add: view_def)
  ultimately show ?thesis
    using assms(2) by (simp add: fail_def Let_def reach_notify reach.terminate)
qed

lemma reach_failedRejection: "reach L s \<Longrightarrow> \<not> over (cPhase (fst s)) \<Longrightarrow> reach L (failedRejection m k u s)"
  by (simp add: failedRejection_def reach_notify reach.terminate)

lemma setTerminal_view: "view (setTerminal b c) = view c"
  by (simp add: setTerminal_def view_def)

lemma reach_terminal: "reach L s \<Longrightarrow> reach L (upd (setTerminal b) s)"
  by (rule reach.frame) (simp_all add: setTerminal_view)

lemma setTerminal_phase [simp]: "cPhase (setTerminal b c) = cPhase c"
  using setTerminal_view [of b c] by (rule view_fields)

lemma setHandshake_view: "view (setHandshake e c) = view c"
  by (simp add: setHandshake_def view_def)

lemma upd_id: "upd (\<lambda>c. c) s = s"
  by (simp add: upd_def)

lemma reach_handshakeError: "reach L s \<Longrightarrow> reach L (upd (setHandshake e) s)"
  by (rule reach.frame) (simp_all add: setHandshake_def view_def)

lemma setHandshake_phase [simp]: "cPhase (setHandshake e c) = cPhase c"
  by (simp add: setHandshake_def)

lemma reach_reject: "reach L s \<Longrightarrow> \<not> over (cPhase (fst s)) \<Longrightarrow> reach L (reject m k e s)"
  by (auto simp: reject_def Let_def reach_discard reach_failedRejection intro!: reach.reply reach_terminal split: sum.split)

lemma reach_requestError: "reach L s \<Longrightarrow> \<not> over (cPhase (fst s)) \<Longrightarrow> reach L (requestError m r s)"
  by (auto simp: requestError_def Let_def reach_discard reach_failedRejection intro!: reach.reply reach_terminal split: sum.split)

section \<open>Watchdog\<close>

lemma reach_watchdogNotice: "reach L s \<Longrightarrow> reach L (watchdogNotice w s)"
  by (simp add: watchdogNotice_def reach_notify)

lemma fst_watchdogNotice [simp]: "fst (watchdogNotice w s) = fst s"
  by (simp add: watchdogNotice_def)

lemma reach_watchdogUp:
  assumes "reach L s" "cPhase (fst s) = Open" "cReady (fst s)" "\<not> cPassiveResponder (fst s)" "\<not> busy (fst s) DeviceWatchdog"
    "cWdNext (fst s) = None"
  shows "reach L (watchdogUp at iv s)"
proof (cases "kWatchdog (cCfg (fst s)) \<and> \<not> aSend (snd (Step (cWd (fst s)) ConnectionUp))")
  case True
  then have "reach L (upd (setWd (fst (Step (cWd (fst s)) ConnectionUp))) s)"
    using assms by (intro reach.wdStep) auto
  then show ?thesis
    using True assms(2) by (simp add: watchdogUp_def case_prod_beta reach.watchdogArm)
next
  case False
  then show ?thesis
    using assms reach.probe [OF assms(1-3) _ assms(4-6), of ConnectionUp] by (auto simp: watchdogUp_def case_prod_beta)
qed

lemma reach_watchdogPublished: "reach L s \<Longrightarrow> reach L (watchdogPublished at iv s)"
  using reach.published [of L s]
  by (auto simp: watchdogPublished_def intro!: reach_watchdogNotice reach.watchdogArm split: option.split)

lemma reach_activity: "reach L s \<Longrightarrow> reach L (activity i s)"
  by (auto simp: activity_def intro: reach.watchdogArm)

lemma Step_receive_no_send [simp]: "\<not> aSend (snd (Step m Receive))"
  by (cases "wdState m") (simp_all add: Step.simps Step_defs)

lemma reach_validActivity: "reach L s \<Longrightarrow> reach L (validActivity s)"
  using reach.wdStep [of L s Receive]
  by (auto simp: validActivity_def case_prod_beta Let_def intro: reach_watchdogNotice)

lemma validActivity_keeps [simp]:
  "cHandshakePending (fst (validActivity s)) = cHandshakePending (fst s)"
  "cCallbackReady (fst (validActivity s)) = cCallbackReady (fst s)"
  "cContinuations (fst (validActivity s)) = cContinuations (fst s)"
  "cCloseOutcome (fst (validActivity s)) = cCloseOutcome (fst s)"
  "cHandshake (fst (validActivity s)) = cHandshake (fst s)" "cWdNext (fst (validActivity s)) = cWdNext (fst s)"
  "cReceivedSequence (fst (validActivity s)) = cReceivedSequence (fst s)"
  "cDeferredExpiry (fst (validActivity s)) = cDeferredExpiry (fst s)"
  "cCloseLocal (fst (validActivity s)) = cCloseLocal (fst s)"
  "cDisconnectWaiting (fst (validActivity s)) = cDisconnectWaiting (fst s)"
  "cPeerDisconnectSelected (fst (validActivity s)) = cPeerDisconnectSelected (fst s)"
  "cPeerCause (fst (validActivity s)) = cPeerCause (fst s)" "cPeerDPR (fst (validActivity s)) = cPeerDPR (fst s)"
  "cDisconnectToken (fst (validActivity s)) = cDisconnectToken (fst s)"
  "cFenceToken (fst (validActivity s)) = cFenceToken (fst s)"
  "cCloseRequest (fst (validActivity s)) = cCloseRequest (fst s)"
  "cEarlyDPA (fst (validActivity s)) = cEarlyDPA (fst s)"
  "cLateCERToken (fst (validActivity s)) = cLateCERToken (fst s)"
  "cLateCER (fst (validActivity s)) = cLateCER (fst s)" "cCfg (fst (validActivity s)) = cCfg (fst s)"
  "cPhase (fst (validActivity s)) = cPhase (fst s)" "cSerial (fst (validActivity s)) = cSerial (fst s)"
  "cStarted (fst (validActivity s)) = cStarted (fst s)" "cReady (fst (validActivity s)) = cReady (fst s)"
  "cTerminal (fst (validActivity s)) = cTerminal (fst s)" "cFrozen (fst (validActivity s)) = cFrozen (fst s)"
  "cCERDeferred (fst (validActivity s)) = cCERDeferred (fst s)"
  "cPassiveResponder (fst (validActivity s)) = cPassiveResponder (fst s)"
  "cPassiveCER (fst (validActivity s)) = cPassiveCER (fst s)"
  "cPassiveWatchdog (fst (validActivity s)) = cPassiveWatchdog (fst s)"
  "cPassivePresent (fst (validActivity s)) = cPassivePresent (fst s)"
  "cCandidateToken (fst (validActivity s)) = cCandidateToken (fst s)"
  "cAdmission (fst (validActivity s)) = cAdmission (fst s)" "cCaps (fst (validActivity s)) = cCaps (fst s)"
  "cCer (fst (validActivity s)) = cCer (fst s)" "cCompletedCEA (fst (validActivity s)) = cCompletedCEA (fst s)"
  "cHookToken (fst (validActivity s)) = cHookToken (fst s)" "cTimers (fst (validActivity s)) = cTimers (fst s)"
  "cReservations (fst (validActivity s)) = cReservations (fst s)"
  "cControls (fst (validActivity s)) = cControls (fst s)" "cStore (fst (validActivity s)) = cStore (fst s)"
  "cOperations (fst (validActivity s)) = cOperations (fst s)"
  "cCloseCause (fst (validActivity s)) = cCloseCause (fst s)"
  by (simp_all add: validActivity_def Let_def case_prod_beta)

lemma reach_watchdogExpired:
  assumes "reach L s"
  shows "reach L (watchdogExpired i s)"
proof (cases "cPhase (fst s) = Open \<and> kWatchdog (cCfg (fst s)) \<and> cWdNext (fst s) = None \<and> \<not> inAfterReceive i > cReceivedSequence (fst s)")
  case False
  moreover have "reach L (upd (\<lambda>c. c\<lparr>cDeferredExpiry := Some i\<rparr>) s)"
    by (rule reach.frame [OF assms]) (simp add: view_def)
  ultimately show ?thesis
    using assms by (auto simp: watchdogExpired_def Let_def intro: reach.watchdogArm)
next
  case True
  let ?s = "stop WatchdogTimer s" and ?step = "Step (cWd (fst s)) Expired"
  have stop: "reach L ?s"
    using assms by (rule reach.stop)
  show ?thesis
  proof (cases "aSend (snd ?step)")
    case False
    then have "reach L (upd (setWd (fst ?step)) ?s)"
      using reach.wdStep [OF stop, of Expired] True by simp
    then show ?thesis
      using False True assms
      by (auto simp: watchdogExpired_def Let_def case_prod_beta intro!: reach_fail reach.watchdogArm reach_watchdogNotice)
  next
    case send: True
    have "\<not> aClose (snd ?step)" "\<not> Pending (cWd (fst s))" "wdState (cWd (fst s)) \<noteq> WdInitial" "wdState (cWd (fst s)) \<noteq> WdDown"
      using send by (cases "wdState (cWd (fst s))"; auto simp: Step.simps Step_defs split: if_splits)+
    moreover have "cReady (fst s)" "\<not> cPassiveResponder (fst s)"
      using reach_idle [OF assms] True calculation by (auto simp: idleOK_def)
    moreover have "\<not> busy (fst s) DeviceWatchdog"
      using reach_link [OF assms] True calculation by (auto simp: linkOK_def)
    moreover have "busy (fst ?s) DeviceWatchdog = busy (fst s) DeviceWatchdog"
      by (rule busy_frame) simp_all
    moreover have "upd (\<lambda>c. setWdNext (Some (fst ?step)) (setWd ((fst ?step)\<lparr>Pending := False\<rparr>) c)) ?s = upd (setWdNext (Some (fst ?step))) ?s"
      using Step_send(3) [OF send] by (simp add: upd_def setWd_def setWdNext_def)
    ultimately show ?thesis
      using reach.probe [OF stop, of Expired] True send
      by (simp add: watchdogExpired_def Let_def case_prod_beta)
  qed
qed

section \<open>Watchdog messages\<close>

lemma matches_control:
  assumes "matches c cmd m"
  obtains r where "cControls c cmd = Some r" "ctlLogical (cStore c ! r)"
  using assms by (auto simp: matches_def Let_def split: option.splits)

lemma reach_acceptDWA:
  assumes "reach L s" "cControls (fst s) DeviceWatchdog = Some r" "ctlLogical (cStore (fst s) ! r)" "cPhase (fst s) = Open"
  shows "reach L (acceptDWA r m s)"
proof -
  let ?step = "Step (effective (fst s)) ReceiveDWA"
  have "upd (\<lambda>c. setWdNext None (setWd (fst (Step (effective c) ReceiveDWA)) c)) s = upd (\<lambda>c. setWdNext None (setWd (fst ?step) c)) s"
    by (simp add: upd_def)
  then have "reach L (settle r (consumeControl r m (upd (\<lambda>c. setWdNext None (setWd (fst ?step) c)) s)))"
    using reach.answerDWA [OF assms, of m] by simp
  then show ?thesis
    by (auto simp: acceptDWA_def Let_def case_prod_beta effective_def intro!: reach_watchdogNotice)
qed

lemma reach_dwa:
  assumes "reach L s" "cPhase (fst s) = Open"
  shows "reach L (dwa m s)"
proof (cases "matches (fst s) DeviceWatchdog (Some m)")
  case True
  then obtain r where "cControls (fst s) DeviceWatchdog = Some r" "ctlLogical (cStore (fst s) ! r)"
    by (rule matches_control)
  then show ?thesis
    using assms True
    by (auto simp: dwa_def Let_def intro!: reach_discard reach_acceptDWA reach.consume split: option.split sum.split)
next
  case False
  then show ?thesis
    using assms by (auto simp: dwa_def Let_def intro!: reach_discard split: option.split)
qed

lemma reach_dwr: "reach L s \<Longrightarrow> \<not> over (cPhase (fst s)) \<Longrightarrow> reach L (dwr m s)"
  by (auto simp: dwr_def intro!: reach_discard reach_fail reach.reply reach_validActivity split: sum.split)

section \<open>Disconnection\<close>

lemma reach_answerDPR: "reach L s \<Longrightarrow> \<not> over (cPhase (fst s)) \<Longrightarrow> reach L (answerDPR m b first s)"
proof -
  assume r: "reach L s" "\<not> over (cPhase (fst s))"
  have "reach L (upd (\<lambda>c. c\<lparr>cPeerDisconnectSelected := True\<rparr>) s)"
    by (rule reach.frame [OF r(1)]) (simp add: view_def)
  with r show ?thesis
    by (auto simp: answerDPR_def Let_def intro!: reach_fail reach.reply split: sum.split)
qed

lemma reach_freeze:
  assumes "reach L s"
  shows "reach L (freeze i s)"
proof (cases "cPhase (fst s) \<noteq> Closing \<or> cFrozen (fst s) \<or> inToken i \<noteq> cFenceToken (fst s)")
  case True
  then show ?thesis
    using assms by (auto simp: freeze_def Let_def)
next
  case False
  let ?s = "upd (\<lambda>c. c\<lparr>cFrozen := True, cFenceToken := 0\<rparr>) s"
  have s: "reach L ?s"
    using assms False by (intro reach.frozen) auto
  have "reach L (reserve DisconnectPeer ?s)" if "cCloseLocal (fst s)"
  proof (rule reach.reserve [OF s])
    have "busy (fst ?s) DisconnectPeer = busy (fst s) DisconnectPeer"
      by (rule busy_frame) simp_all
    then show "\<not> busy (fst ?s) DisconnectPeer"
      using reach_link [OF assms] False by (auto simp: linkOK_def)
  qed (use reach_phase [OF assms] that False in \<open>auto simp: phaseOK_def\<close>)
  moreover have "reach L (answerDPR m b True (upd (\<lambda>c. c\<lparr>cCloseRequest := None\<rparr>) ?s))" for m b
    using reach.answeredDPR [OF s] False by (auto intro: reach_answerDPR)
  ultimately show ?thesis
    using False s by (auto simp: freeze_def Let_def split: option.split)
qed

lemma reach_refused: "reach L s \<Longrightarrow> nKind n = DisconnectNotice \<Longrightarrow> reach (L @ [Asked]) (notify n s)"
  by (simp add: notify_def notifyToken_def reach.refused)

lemma reach_disconnect:
  assumes "reach L s"
  shows "reach (L @ [Asked]) (disconnect i s)"
proof -
  let ?s = "upd (\<lambda>c. c\<lparr>cDisconnectWaiting := True, cDisconnectToken := inToken i, cCloseCause := inCause i\<rparr>) s"
  have "reach (L @ [Asked]) (reserve DisconnectPeer (arm ReceiverDisconnectTimer (inAt i) (inTimeout i) ?s))"
    if c: "cPhase (fst s) = Closing" "cFrozen (fst s)" "\<not> cDisconnectWaiting (fst s)"
  proof (rule reach.reserve)
    show "reach (L @ [Asked]) (arm ReceiverDisconnectTimer (inAt i) (inTimeout i) ?s)"
      using reach.askClosing [OF assms c(1,3)] c(1) by (intro reach.arm) auto
    have "busy (fst (arm ReceiverDisconnectTimer (inAt i) (inTimeout i) ?s)) DisconnectPeer = busy (fst s) DisconnectPeer"
      by (rule busy_frame) simp_all
    then show "\<not> busy (fst (arm ReceiverDisconnectTimer (inAt i) (inTimeout i) ?s)) DisconnectPeer"
      using reach_link [OF assms] c by (auto simp: linkOK_def)
  qed (use c in auto)
  then show ?thesis
    using assms reach.closing [OF assms, of True i]
    by (auto simp: disconnect_def Let_def intro!: reach_refused)
qed

lemma reach_peerClosing:
  "reach L s \<Longrightarrow> cPhase (fst s) = Open \<Longrightarrow> inMessage i = Some m \<Longrightarrow> reach L (beginClosing (i\<lparr>inCause := u\<rparr>) False s)"
  using reach.closing [of L s False "i\<lparr>inCause := u\<rparr>"] by simp

lemma reach_dpr:
  assumes "reach L s" "cPhase (fst s) = Open \<or> cPhase (fst s) = Closing" "inMessage i = Some m"
  shows "reach L (dpr m i s)"
proof -
  have "reach L (upd (\<lambda>c. c\<lparr>cPeerDPR := True, cPeerCause := x\<rparr>) s)" for x
    by (rule reach.frame [OF assms(1)]) (simp add: view_def)
  then have "reach L (emit (PeerDisconnectDecision x) (upd (\<lambda>c. c\<lparr>cPeerDPR := True, cPeerCause := x\<rparr>) s))" for x
    by (rule reach.quiet) simp
  then show ?thesis
    using assms
    by (auto simp: dpr_def Let_def intro!: reach_discard reach.mark reach_peerClosing reach_validActivity reach_answerDPR split: option.split)
qed

lemma reach_completeDPA: "reach L s \<Longrightarrow> cDisconnectWaiting (fst s) \<Longrightarrow> reach L (completeDPA m u s)"
  by (auto simp: completeDPA_def Let_def notifyToken_def intro!: reach_notify reach.completed)

lemma reach_dpa:
  assumes "reach L s" "cPhase (fst s) = Open \<or> cPhase (fst s) = Closing"
  shows "reach L (dpa m i s)"
proof (cases "matches (fst s) DisconnectPeer (Some m)")
  case True
  then obtain r where r: "cControls (fst s) DisconnectPeer = Some r" "ctlLogical (cStore (fst s) ! r)"
    by (rule matches_control)
  then have "busy (fst s) DisconnectPeer"
    by (simp add: busy_def logicalCmd_def)
  then have "cDisconnectWaiting (fst s)"
    using reach_link [OF assms(1)] assms(2) by (auto simp: linkOK_def)
  moreover have "reach L (settle r s)"
    using assms(1) r(1) by (rule reach.settle)
  ultimately show ?thesis
    using assms(1) r True
    by (auto simp: dpa_def Let_def intro!: reach_discard reach_completeDPA reach.early split: option.split)
next
  case False
  then show ?thesis
    using assms(1) by (auto simp: dpa_def Let_def intro!: reach_discard split: option.split)
qed

section \<open>Handshake\<close>

lemma reach_rejectCER: "reach L s \<Longrightarrow> \<not> over (cPhase (fst s)) \<Longrightarrow> reach L (rejectCER m e s)"
  by (auto simp: rejectCER_def Let_def intro!: reach_reject reach_failedRejection reach.reply reach_terminal
        split: option.split base_error.split sum.split)

lemma reach_candidate:
  assumes "reach L s" "cPhase (fst s) = PreCER" "kRole (cCfg (fst s)) = Responder" "cHookToken (fst s) = 0"
  shows "reach L (candidate m s)"
proof -
  let ?n = "upd (\<lambda>c. c\<lparr>cPassiveResponder := False\<rparr>) s"
  have n: "reach L ?n"
    using assms(1,2) by (rule reach.native)
  have caps: "reach L (upd (negotiate h r as) (upd (\<lambda>c. c\<lparr>cCaps := (cCaps c)\<lparr>capsCER := x, capsParsedApplications := y\<rparr>\<rparr>) ?n))"
    (is "reach L ?c") for h r as x y
    by (rule reach.frame [OF reach.frame [OF n]]) (simp_all add: view_def negotiate_def Let_def)
  have "cPhase (negotiate h r as c) = cPhase c" "cCfg (negotiate h r as c) = cCfg c" "cHookToken (negotiate h r as c) = cHookToken c"
    "cPassiveResponder (negotiate h r as c) = cPassiveResponder c" "cSerial (negotiate h r as c) = cSerial c" for h r as c
    by (simp_all add: negotiate_def Let_def)
  note keeps = this
  have "reach L (emit (ValidatedCER t sn) (g (upd (\<lambda>c. c\<lparr>cCandidateToken := t, cCer := Some m\<rparr>) (upd tick
      (upd (negotiate h r as) (upd (\<lambda>c. c\<lparr>cCaps := (cCaps c)\<lparr>capsCER := x, capsParsedApplications := y\<rparr>\<rparr>) ?n))))))"
    if "g = id \<or> g = stop HandshakeTimer" "t = Suc (cSerial (fst s))" for g t sn h r as x y
    using assms that by (intro reach.candidate [OF caps]) (simp_all add: keeps)
  note this [of id] this [of "stop HandshakeTimer"]
  then show ?thesis
    using n assms(2)
    by (auto simp: candidate_def Let_def keeps intro!: reach_rejectCER split: sum.split)
qed

lemma reach_activate:
  assumes "reach L s"
  shows "reach L (activate i s)"
proof (cases "cPhase (fst s) = PreCER \<and> cCandidateToken (fst s) \<noteq> 0")
  case False
  then show ?thesis
    using assms by (auto simp: activate_def Let_def)
next
  case True
  let ?u = "upd (\<lambda>c. c\<lparr>cCandidateToken := 0\<rparr>) s"
  define v where "v = (if inRecovery i then upd (\<lambda>c. c\<lparr>cWd := (cWd c)\<lparr>wdState := WdDown\<rparr>\<rparr>) ?u else ?u)"
  have "reach L v" and v: "cPhase (fst v) = PreCER" "cSerial (fst v) = cSerial (fst s)" "cPassiveResponder (fst v) = cPassiveResponder (fst s)"
    "cCandidateToken (fst v) = 0" "cHookToken (fst v) = cHookToken (fst s)"
    using reach.uncandidate [OF assms] True by (auto simp: v_def intro: reach.recover)
  then have p: "reach L (emit (Publish t sn) (stop HandshakeTimer (upd (\<lambda>c. c\<lparr>cAdmission := t\<rparr>) (upd tick
      (upd (\<lambda>c. c\<lparr>cPhase := Open, cHandshakePending := True\<rparr>) v)))))" if "t = Suc (cSerial (fst s))" for t sn
    using reach_phase [OF assms] True that by (intro reach.publish) (auto simp: phaseOK_def v)
  show ?thesis
    using assms True unfolding activate_def Let_def v_def [symmetric]
    by (auto simp: v intro!: reach_fail reach.reply p split: option.split sum.split)
qed

lemma reach_handshakeReady: "reach L s \<Longrightarrow> cPhase (fst s) = Open \<Longrightarrow> reach L (handshakeReady s)"
  by (simp add: handshakeReady_def Let_def reach.callback)

lemma reach_acceptCEA:
  assumes "reach L s" "cControls (fst s) CapabilitiesExchange = Some r"
    "cPhase (fst s) = WaitCEA \<or> cPhase (fst s) = PreCER \<and> kRole (cCfg (fst s)) = Initiator"
  shows "reach L (acceptCEA r m p s)"
proof -
  let ?a = "stop RetryTimer (stop HandshakeTimer (settle r (emit (CompleteRequest (metadata (Some m))) s)))"
  let ?f = "\<lambda>c. c\<lparr>cHandshake := None, cCompletedCEA := Some (msgHeader m),
     cCaps := (cCaps c)\<lparr>capsCEA := Some p, capsParsedApplications := ceaAppID p\<rparr>\<rparr>"
  have a: "reach L ?a"
    using assms(1,2) by (intro reach.stop reach.settle reach.quiet) simp_all
  have b: "reach L (upd (negotiate h x as) (upd ?f ?a))" for h x as
    by (rule reach.frame [OF reach.frame [OF a]]) (simp_all add: view_def negotiate_def Let_def)
  have "reach L (emit (Publish t sn) (upd (\<lambda>c. c\<lparr>cAdmission := t\<rparr>) (upd tick
      (upd (\<lambda>c. c\<lparr>cPhase := Open, cHandshakePending := True\<rparr>) (upd (negotiate h x as) (upd ?f ?a))))))"
    if "t = Suc (cSerial (fst s))" for t sn h x as
    using reach.publish [OF b, of h x as id t sn] reach_phase [OF assms(1)] assms(3) that
    by (auto simp: phaseOK_def negotiate_def Let_def)
  then show ?thesis
    by (auto simp: acceptCEA_def Let_def negotiate_def intro!: reach_handshakeReady)
qed

lemma reach_cea:
  assumes "reach L s" "cPhase (fst s) = WaitCEA \<or> cPhase (fst s) = PreCER \<and> kRole (cCfg (fst s)) = Initiator"
  shows "reach L (cea m i s)"
proof -
  have "\<not> over (cPhase (fst s))"
    using assms(2) by auto
  then have fail: "reach L (fail x k u (upd (setHandshake e) s))" for x k u e
    using assms(1) by (intro reach_fail reach_handshakeError) simp_all
  then show ?thesis
    using assms \<open>\<not> over (cPhase (fst s))\<close>
    by (auto simp: cea_def Let_def intro!: reach_discard reach_fail reach_acceptCEA split: option.split sum.split)
qed

section \<open>Reservations and writes\<close>

definition reservedLabels :: "Input \<Rightarrow> Core \<Rightarrow> label list" where
  "reservedLabels i c = (if cReservations c (inToken i) \<noteq> None \<and> \<not> inErr i then [Granted (inReservation i)] else [])"

lemma reach_reserved:
  assumes "reach L s"
  shows "reach (L @ reservedLabels i (fst s)) (reserved i s)"
proof (cases "cReservations (fst s) (inToken i)")
  case None
  then show ?thesis
    using assms by (simp add: reserved_def reservedLabels_def)
next
  case (Some cmd)
  let ?u = "upd (unreserve (inToken i)) s" and ?x = "inReservation i"
  have un: "upd (\<lambda>c. c\<lparr>cReservations := (cReservations c)(inToken i := None)\<rparr>) s = ?u"
    by (simp add: upd_def unreserve_def)
  have u: "reach L ?u"
    using assms by (rule reach.unreserve)
  show ?thesis
  proof (cases "inErr i \<or> over (cPhase (fst s)) \<or> cmd = DeviceWatchdog \<and> cPhase (fst s) \<noteq> Open")
    case True
    then show ?thesis
      using Some u reach.refuse [OF assms, of ?x "inToken i"]
      by (auto simp: reserved_def reservedLabels_def Let_def un intro!: reach.terminate reach_handshakeError)
  next
    case False
    show ?thesis
    proof (cases "buildControl (fst ?u) cmd ?x")
      case (Inl e)
      have "freshControl (newControl cmd ?x) cmd ?x"
        by (simp add: freshControl_def newControl_def)
      from False this have "reach (L @ [Granted ?x]) (terminate Closed (upd g (upd (addControl cmd (newControl cmd ?x)) ?u)))"
        if "\<And>c. view (g c) = view c" for g
        using that by (intro reach.grantFailed [OF assms Some]) simp_all
      from this [of "setHandshake (BuildError e)"] this [of "\<lambda>c. c"] show ?thesis
        using Some False Inl
        by (auto simp: reserved_def reservedLabels_def Let_def un setHandshake_view upd_id)
    next
      case (Inr m)
      let ?r = "(newControl cmd ?x)\<lparr>ctlHeader := msgHeader m, ctlFrame := Some m\<rparr>"
      have "freshControl ?r cmd ?x"
        by (simp add: freshControl_def newControl_def)
      then show ?thesis
        using reach.grant [OF assms Some, of ?r ?x None m False False False None False] Some False Inr
        by (auto simp: reserved_def reservedLabels_def Let_def un)
    qed
  qed
qed

lemma reach_skippedControl:
  assumes "reach L s" "map_of (cOperations (fst s)) (inToken i) = Some op" "opControl op = Some r"
  shows "reach L (skippedControl i r s)"
proof -
  let ?s = "skipWriter (inToken i) r s" and ?w = "upd (\<lambda>c. setWdNext None (setWd ((cWd c)\<lparr>Pending := False\<rparr>) c))"
  have s: "reach L ?s"
    using assms by (rule reach.skip)
  have ids: "idsOK {} (fst s)" "r < length (cStore (fst s))"
    using reach_ids [OF assms(1)] minusWriter_ids(2) [OF reach_ids [OF assms(1)] assms(2,3)] by simp_all
  have d: "ctlCommand (cStore (fst ?s) ! r) = ctlCommand (cStore (fst s) ! r)" "ctlWritten (cStore (fst ?s) ! r) = ctlWritten (cStore (fst s) ! r)"
    using ids(2) by (simp_all add: skipWriter_def release_keeps_control withdraw_def minusWriter_def)
  have skip: "skippedControl i r s =
      (if kKeepCERDeadlineAfterTransportLoss (cCfg (fst ?s)) \<and> cPhase (fst ?s) = WaitCEA \<and> ctlCommand (cStore (fst ?s) ! r) = CapabilitiesExchange
       then terminate Closed (upd (setHandshake (if inErr i then ExternalError else ErrShortWrite)) ?s)
       else if ctlCommand (cStore (fst ?s) ! r) = DeviceWatchdog \<and> \<not> ctlWritten (cStore (fst ?s) ! r) \<and> ctlLogical (cStore (fst s) ! r)
       then (if kWatchdog (cCfg (fst (?w ?s))) \<and> cPhase (fst (?w ?s)) = Open \<and> fst (cTimers (fst (?w ?s)) WatchdogTimer) = 0
             then watchdogArm (inAt i) (inInterval i) (?w ?s) else ?w ?s)
       else ?s)"
    by (simp add: skippedControl_def skipWriter_def withdraw_def minusWriter_def Let_def)
  have "reach L (?w ?s)" if "ctlCommand (cStore (fst s) ! r) = DeviceWatchdog" "\<not> ctlWritten (cStore (fst s) ! r)" "ctlLogical (cStore (fst s) ! r)"
    using skip_idle [OF ids(1) assms(2,3) that(3,2,1)] by (intro reach.withdrawn [OF s]) (simp add: DeviceWatchdog_def CapabilitiesExchange_def)
  then show ?thesis
    using s unfolding skip d by (auto intro!: reach.terminate reach_handshakeError reach.watchdogArm)
qed

lemma reach_failedWrite:
  assumes "reach L s" "\<not> over (cPhase (fst s))" "pred_option plainNotice (opNotice op)"
  shows "reach L (failedWrite i op s)"
  using assms
  by (auto simp: failedWrite_def Let_def intro!: reach.terminate reach_notify reach_handshakeError split: option.split)

lemma reach_reportWrite:
  assumes "reach L s" "pred_option plainNotice (opNotice op)" "\<And>r. opControl op = Some r \<Longrightarrow> r < length (cStore (fst s))"
  shows "reach L (reportWrite i op s)"
proof -
  let ?a = "upd (setOperation (inToken i) (\<lambda>op. op\<lparr>opReported := True\<rparr>)) s"
  define b where "b = (case opNotice op of None \<Rightarrow> ?a
     | Some n \<Rightarrow> notify (n\<lparr>nReplyCode := inReplyCode i, nReply := (if inStage i = QueueStage then ReplyQueued else ReplyWritten)\<rparr>) ?a)"
  define c where "c = (if opHandshake op \<and> cPhase (fst b) = Open then handshakeReady b else b)"
  define p where "p = watchdogPublished (inAt i) (inInterval i) c"
  have "reach L ?a"
    using assms(1) by (rule reach.flag) simp_all
  then have "reach L b"
    using assms(2) by (auto simp: b_def intro: reach_notify split: option.split)
  then have c: "reach L c"
    by (simp add: c_def reach_handshakeReady)
  then have p: "reach L p"
    by (simp add: p_def reach_watchdogPublished)
  have "fst b = fst ?a"
    by (simp add: b_def split: option.split)
  then have same: "cStore (fst c) = cStore (fst s)" "cPhase (fst c) = cPhase (fst s)"
    by (simp_all add: c_def handshakeReady_def Let_def)
  have phase: "cPhase (fst p) = cPhase (fst s)"
    by (simp add: p_def watchdogPublished_def same split: option.split)
  have live: "\<not> over (cPhase (fst s))" if "opControl op = Some r" "ctlLogical (cStore (fst s) ! r)" for r
    using reach_store [OF assms(1)] assms(3) that by (auto simp: storeOK_def)
  show ?thesis
    using c p live unfolding reportWrite_def Let_def b_def [symmetric] c_def [symmetric] p_def [symmetric] same
    by (auto simp: phase same intro!: reach.arm split: option.split)
qed

lemma reach_writtenWrite:
  assumes "reach L s" "\<not> over (cPhase (fst s))" "pred_option plainNotice (opNotice op)"
    "\<And>r. opControl op = Some r \<Longrightarrow> r < length (cStore (fst s))"
  shows "reach L (writtenWrite i op s)"
proof (cases "if inStage i = WrittenStage \<and> isDPR (fst s) op then cEarlyDPA (fst s) else None")
  case (Some saved)
  then have "cDisconnectWaiting (fst s)"
    using reach_phase [OF assms(1)] assms(2) by (cases "cPhase (fst s)") (auto simp: phaseOK_def split: if_splits)
  then show ?thesis
    using Some assms(1) by (simp add: writtenWrite_def reach_completeDPA)
next
  case None
  let ?t = "if opCloseAfter op \<and> inStage i = WrittenStage then terminate Closed s else s"
  have "length (cStore (fst ?t)) = length (cStore (fst s))"
    using terminate_ids(3) [OF reach_ids [OF assms(1)], of Closed] by simp
  moreover have "reach L ?t"
    using assms(1,2) by (simp add: reach.terminate)
  ultimately show ?thesis
    using None assms(3,4) by (simp add: writtenWrite_def Let_def reach_reportWrite)
qed

lemma map_of_setOperation: "map_of (cOperations (setOperation t f c)) t = map_option f (map_of (cOperations c) t)"
proof -
  have "map_of (map (\<lambda>(u, op). (u, if u = t then f op else op)) xs) t = map_option f (map_of xs t)" for xs
    by (induction xs) auto
  then show ?thesis
    by (simp add: setOperation_def)
qed

lemma endWriter_control: "opControl op = opControl op' \<Longrightarrow> endWriter t op s = endWriter t op' s"
  by (simp add: endWriter_def)

lemma length_endWriter: "length (cStore (fst (endWriter t op s))) = length (cStore (fst s))"
  by (simp add: endWriter_def Let_def fst_release split: option.split)

lemma reach_writeResult:
  assumes "reach L s"
  shows "reach L (writeResult i s)"
proof (cases "map_of (cOperations (fst s)) (inToken i)")
  case None
  then show ?thesis
    using assms by (simp add: writeResult_def)
next
  case (Some op)
  define failed where "failed = (inErr i \<or> shortWrite i op)"
  define w where "w = (case (if inStage i = WrittenStage \<and> \<not> failed then opControl op else None) of
     None \<Rightarrow> s | Some r \<Rightarrow> upd (setControl r (\<lambda>r. r\<lparr>ctlWritten := True\<rparr>)) s)"
  define q where "q = (if inStage i = QueueStage then upd (setOperation (inToken i) (\<lambda>op. op\<lparr>opQueued := \<not> failed\<rparr>)) w else w)"
  define e where "e = (if inStage i \<noteq> QueueStage \<or> inErr i then endWriter (inToken i) op q else q)"
  have w: "reach L w" "cOperations (fst w) = cOperations (fst s)" "length (cStore (fst w)) = length (cStore (fst s))"
    using assms by (auto simp: w_def intro: reach.written split: option.split)
  then have q: "reach L q" "length (cStore (fst q)) = length (cStore (fst s))"
    by (auto simp: q_def intro: reach.flag)
  have "\<exists>op'. map_of (cOperations (fst q)) (inToken i) = Some op' \<and> opControl op' = opControl op"
    using w(2) Some by (simp add: q_def map_of_setOperation)
  then obtain op' where op': "map_of (cOperations (fst q)) (inToken i) = Some op'" "opControl op = opControl op'"
    by auto
  have e: "reach L e" "length (cStore (fst e)) = length (cStore (fst s))"
    using q reach.endWriter [OF q(1) op'(1)] by (simp_all add: e_def endWriter_control [OF op'(2)] length_endWriter)
  have n: "pred_option plainNotice (opNotice op)"
    using reach_notice [OF assms] map_of_SomeD [OF Some] by (auto simp: noticeOK_def)
  have r: "r < length (cStore (fst s))" if "opControl op = Some r" for r
    using minusWriter_ids(2) [OF reach_ids [OF assms] Some that] .
  have "writeResult i s = (case (if inStage i = SkippedStage then opControl op else None) of
       Some r \<Rightarrow> skippedControl i r s
     | None \<Rightarrow> if inStage i = QueueStage \<and> opQueued op then w else if over (cPhase (fst e)) then e
         else if failed then failedWrite i op e else writtenWrite i op e)"
    unfolding writeResult_def Let_def Some e_def q_def w_def failed_def by (simp only: option.case)
  moreover have "reach L (if inStage i = QueueStage \<and> opQueued op then w else if over (cPhase (fst e)) then e
         else if failed then failedWrite i op e else writtenWrite i op e)"
    using w(1) e n r by (simp add: reach_failedWrite reach_writtenWrite)
  ultimately show ?thesis
    using reach_skippedControl [OF assms Some]
    by (cases "if inStage i = SkippedStage then opControl op else None") (simp_all split: if_splits)
qed

section \<open>Received messages\<close>

text \<open>What \<open>receive\<close> has checked when it hands a message on.\<close>

definition mayReceive :: "Message \<Rightarrow> Input \<Rightarrow> Core \<Rightarrow> bool" where
  "mayReceive m i c \<longleftrightarrow> inMessage i = Some m \<and> \<not> over (cPhase c) \<and> cHookToken c = 0 \<and> (cPhase c = Open \<longrightarrow> cReady c) \<and>
     (cPhase c = Closing \<longrightarrow> closingAllowed i)"

text \<open>What is known once admission has been decided.\<close>

definition admitted :: "Core \<Rightarrow> bool" where
  "admitted c \<longleftrightarrow> cPhase c \<noteq> WaitCEA \<and> (cPhase c = PreCER \<longrightarrow> kRole (cCfg c) = Responder \<and> cCandidateToken c = 0)"

lemma mayReceive_frame:
  "mayReceive m i c \<Longrightarrow> cPhase c' = cPhase c \<Longrightarrow> cHookToken c' = cHookToken c \<Longrightarrow> cReady c' = cReady c \<Longrightarrow> mayReceive m i c'"
  by (simp add: mayReceive_def)

lemma admitted_frame:
  "admitted c \<Longrightarrow> cPhase c' = cPhase c \<Longrightarrow> kRole (cCfg c') = kRole (cCfg c) \<Longrightarrow> cCandidateToken c' = cCandidateToken c \<Longrightarrow> admitted c'"
  by (simp add: admitted_def)

lemma mayReceive_error: "mayReceive m (i\<lparr>inError := e\<rparr>) c = mayReceive m i c"
proof -
  have "closingAllowed (i\<lparr>inError := e\<rparr>) = closingAllowed i"
    by (cases "inMessage i") (simp_all add: closingAllowed_def)
  then show ?thesis
    by (simp add: mayReceive_def)
qed

lemma reach_unhandled: "reach L s \<Longrightarrow> reach L (unhandled m s)"
  by (auto simp: unhandled_def Let_def intro!: reach_discard reach_requestError split: option.split)

lemma reach_externalMessageError:
  assumes "reach L s" "\<not> over (cPhase (fst s))"
  shows "reach L (externalMessageError m k me b s)"
  using assms
  by (auto simp: externalMessageError_def Let_def case_prod_beta intro!: reach_notify reach.quiet reach_failedRejection reach.reply reach_terminal
        split: sum.split)

lemma reach_messageError: "reach L s \<Longrightarrow> \<not> over (cPhase (fst s)) \<Longrightarrow> reach L (messageError m me i b s)"
  by (auto simp: messageError_def Let_def intro!: reach_externalMessageError reach_discard reach_fail reach_requestError reach_reject
        split: option.split)

lemma reach_applicationMessage:
  assumes "reach L s" "mayReceive m i (fst s)" "admitted (fst s)" "cPhase (fst s) \<noteq> PreCER"
    "\<not> (ApplicationID (msgHeader m) = 0 \<and> CommandCode (msgHeader m) = DisconnectPeer)"
  shows "reach L (applicationMessage m i s)"
proof -
  have "cPhase (fst s) = Open \<and> cReady (fst s) \<or> cPhase (fst s) = Closing \<and> \<not> isRequest m \<and> inOwnership i \<noteq> 0"
    using assms(2-5) by (cases "cPhase (fst s)") (auto simp: mayReceive_def admitted_def closingAllowed_def isRequest_def Let_def split: if_splits)
  then have "reach L (emit (Admit m (inOwnership i)) (validActivity s))"
    using assms(1) by (intro reach.admit reach_validActivity) simp_all
  then show ?thesis
    using assms(1) by (auto simp: applicationMessage_def Let_def intro!: reach_discard reach_unhandled reach_validActivity)
qed

lemma reach_dispatch:
  assumes "reach L s" "mayReceive m i (fst s)" "admitted (fst s)" "cPhase (fst s) \<noteq> PreCER"
  shows "reach L (dispatch m i s)"
proof -
  have phase: "cPhase (fst s) = Open \<or> cPhase (fst s) = Closing" "inMessage i = Some m" "\<not> over (cPhase (fst s))" "cHookToken (fst s) = 0"
    using assms(2-4) by (cases "cPhase (fst s)"; auto simp: mayReceive_def admitted_def)+
  have ready: "cPhase (fst s) = Open \<and> cReady (fst s)"
    if "ApplicationID (msgHeader m) = 0" "CommandCode (msgHeader m) = DeviceWatchdog \<or> CommandCode (msgHeader m) = CapabilitiesExchange"
    using phase(1) assms(2) that by (auto simp: mayReceive_def closingAllowed_def DeviceWatchdog_def CapabilitiesExchange_def DisconnectPeer_def Let_def)
  then have handled: "reach L (handledAnswer m i s)"
    if "ApplicationID (msgHeader m) = 0" "CommandCode (msgHeader m) = DeviceWatchdog \<or> CommandCode (msgHeader m) = CapabilitiesExchange"
    using assms(1) that by (auto simp: handledAnswer_def intro!: reach.admit reach_discard)
  have "reach L (pauseHook m i s)" if "CommandCode (msgHeader m) = DeviceWatchdog"
    using assms(1,4) phase that by (intro reach.pause) auto
  then show ?thesis
    using assms phase handled
    by (auto simp: dispatch_def Let_def intro!: reach_dwr reach_dpr reach_dpa reach_applicationMessage)
qed

lemma reach_repeatedCER:
  assumes "reach L s" "mayReceive m i (fst s)" "cPhase (fst s) = Open" "CommandCode (msgHeader m) = CapabilitiesExchange"
  shows "reach L (repeatedCER m i s)"
proof -
  have "reach L (pauseHook m i u)" if "reach L u" "u = s \<or> u = validActivity s" for u
    using that(2) assms(2-4) validActivity_keeps [of s] by (intro reach.pause [OF that(1)]) (auto simp: mayReceive_def)
  then show ?thesis
    using assms(1) reach_validActivity [OF assms(1)] by (auto simp: repeatedCER_def Let_def intro!: reach_discard)
qed

lemma reach_receiveBody:
  assumes "reach L s" "mayReceive m i (fst s)" "admitted (fst s)"
  shows "reach L (receiveBody m i n s)"
proof -
  have live: "\<not> over (cPhase (fst s))" "cHookToken (fst s) = 0" "inMessage i = Some m"
    using assms(2) by (simp_all add: mayReceive_def)
  have "reach L (pauseHook m i s)" "reach L (candidate m s)" if "cPhase (fst s) = PreCER"
    using assms live that by (auto simp: admitted_def intro: reach.pause reach_candidate)
  then show ?thesis
    using assms live
    by (auto simp: receiveBody_def Let_def intro!: reach_discard reach.mark reach_dwa reach_reject reach_requestError reach_dispatch
        split: option.split)
qed

lemma reach_receiveAdmitted:
  assumes "reach L s" "mayReceive m i (fst s)" "admitted (fst s)"
  shows "reach L (receiveAdmitted m i s)"
proof -
  have s: "reach L (activity i s)"
    using assms(1) by (rule reach_activity)
  have keeps: "mayReceive m i (fst (activity i s))" "admitted (fst (activity i s))"
    using assms(2,3) by (auto simp: activity_def intro: mayReceive_frame admitted_frame)
  moreover have "mayReceive m (i\<lparr>inError := e\<rparr>) (fst (activity i s))" for e
    using keeps(1) by (simp add: mayReceive_error)
  moreover have "\<not> over (cPhase (fst (activity i s)))"
    using keeps(1) by (simp add: mayReceive_def)
  ultimately show ?thesis
    using s by (auto simp: receiveAdmitted_def Let_def intro!: reach_discard reach_repeatedCER reach_messageError reach_receiveBody
        split: option.split)
qed

lemma reach_receive:
  assumes "reach L s" "\<not> over (cPhase (fst s))"
  shows "reach L (receive i s)"
proof -
  have "reach L (receiveMessage m i s)" if "inMessage i = Some m" "cHookToken (fst s) = 0" "cPhase (fst s) = Open \<longrightarrow> cReady (fst s)"
    "cPhase (fst s) = Closing \<longrightarrow> closingAllowed i" for m
  proof -
    have "mayReceive m i (fst s)"
      using assms(2) that by (simp add: mayReceive_def)
    moreover have "admitted (fst s)" if "\<not> (cPhase (fst s) = WaitCEA \<or> cPhase (fst s) = PreCER \<and> kRole (cCfg (fst s)) = Initiator)"
      "\<not> (cPhase (fst s) = PreCER \<and> cCandidateToken (fst s) \<noteq> 0)"
      using that by (cases "kRole (cCfg (fst s))") (auto simp: admitted_def)
    ultimately show ?thesis
      using assms unfolding receiveMessage_def Let_def by (auto intro!: reach_cea reach_fail reach_receiveAdmitted)
  qed
  moreover have "reach L (receiveNil i s)"
    using assms by (auto simp: receiveNil_def Let_def intro: reach_fail)
  moreover have "reach L (emit (Hold i) s)"
    using assms(1) by (rule reach.quiet) simp
  ultimately show ?thesis
    using assms by (auto simp: receive_def Let_def intro!: reach_discard reach_fail split: option.split)
qed

section \<open>Inputs\<close>

lemma reach_expire:
  assumes "reach L s"
  shows "reach L (expire i s)"
proof (cases "fst (cTimers (fst s) (inTimer i)) = 0")
  case True
  then show ?thesis
    using assms by (simp add: expire_def Let_def case_prod_beta)
next
  case False
  then have "\<not> over (cPhase (fst s))"
    using reach_phase [OF assms] by (auto simp: phaseOK_def over_def)
  moreover have "reach L (send m (Some r) False False False None None False (stop RetryTimer s))"
    if "cControls (fst s) CapabilitiesExchange = Some r" "ctlLogical (cStore (fst s) ! r)" for m r
    using that by (intro reach.retry reach.stop assms) simp_all
  ultimately show ?thesis
    using assms
    by (auto simp: expire_def Let_def case_prod_beta intro!: reach_watchdogExpired reach_notify reach.terminate reach_fail
        split: option.split if_splits)
qed

lemma reach_continue:
  assumes "reach L s" "\<not> over (cPhase (fst s))"
  shows "reach L (continue i s)"
proof (cases "cContinuations (fst s) (inToken i)")
  case None
  then show ?thesis
    using assms(1) by (simp add: continue_def)
next
  case (Some p)
  let ?s = "upd (\<lambda>c. c\<lparr>cContinuations := (cContinuations c)(inToken i := None),
     cHookToken := (if cHookToken c = inToken i then 0 else cHookToken c)\<rparr>) s"
  have s: "reach L ?s" "\<not> over (cPhase (fst ?s))"
    using reach.resume [OF assms(1)] assms(2) by simp_all
  obtain m where m: "inMessage (conInput p) = Some m" "inToken i \<noteq> 0"
    "CommandCode (msgHeader m) = DeviceWatchdog \<or> conRepeatedCER p \<or> cHookToken (fst s) = inToken i"
    using reach_cont [OF assms(1)] Some unfolding contOK_def by blast
  have "reach L (candidate x ?s)" if "CommandCode (msgHeader m) \<noteq> DeviceWatchdog" "\<not> conRepeatedCER p" for x
  proof (rule reach_candidate [OF s(1)])
    have "cHookToken (fst s) = inToken i"
      using m(3) that by simp
    then show "cPhase (fst ?s) = PreCER" "kRole (cCfg (fst ?s)) = Responder" "cHookToken (fst ?s) = 0"
      using reach_phase [OF assms(1)] assms(2) m(2) by (cases "cPhase (fst s)"; auto simp: phaseOK_def)+
  qed
  then show ?thesis
    using Some s m(1)
    by (auto simp: continue_def Let_def intro!: reach.terminate reach_fail reach_discard reach_dwr reach_reject split: option.split)
qed

lemma reach_start:
  assumes "reach L s"
  shows "reach L (start i s)"
proof (cases "cStarted (fst s) \<or> cPhase (fst s) \<noteq> PreCER")
  case True
  then show ?thesis
    using assms by (auto simp: start_def Let_def)
next
  case False
  let ?s = "upd (\<lambda>c. c\<lparr>cStarted := True\<rparr>) s" and ?d = "kHandshakeTimeout (cCfg (fst s))"
  let ?w = "upd (\<lambda>c. c\<lparr>cPhase := WaitCEA, cHandshakePending := True\<rparr>) (arm HandshakeTimer (inAt i) ?d ?s)"
  have idle: "\<not> busy (fst s) CapabilitiesExchange" "\<not> cCERDeferred (fst s)"
    using reach_link [OF assms] reach_defer [OF assms] False by (auto simp: linkOK_def deferOK_def)
  have busy: "busy (fst ?s) CapabilitiesExchange = busy (fst s) CapabilitiesExchange" "busy (fst ?w) CapabilitiesExchange = busy (fst s) CapabilitiesExchange"
    by (rule busy_frame; simp)+
  have s: "reach L ?s" "reach L (arm HandshakeTimer (inAt i) ?d ?s)"
    using assms False by (auto intro!: reach.started reach.arm)
  have w: "reach L (reserve CapabilitiesExchange ?w)" if "kRole (cCfg (fst s)) = Initiator"
    using reach.waiting [OF s(2)] False that idle busy by (intro reach.reserve) auto
  have "reach L (upd (\<lambda>c. c\<lparr>cPhase := WaitCEA, cCERDeferred := True\<rparr>) ?s)" if "kRole (cCfg (fst s)) = Initiator"
    using False that idle busy by (intro reach.deferred [OF s(1)]) auto
  then show ?thesis
    using False s w by (auto simp: start_def Let_def)
qed

lemma reach_beginCER:
  assumes "reach L s"
  shows "reach L (beginCER i s)"
proof (cases "cCERDeferred (fst s) \<and> cPhase (fst s) = WaitCEA")
  case False
  then show ?thesis
    using assms by (auto simp: beginCER_def)
next
  case True
  let ?a = "arm HandshakeTimer (inAt i) (kHandshakeTimeout (cCfg (fst s))) (upd (\<lambda>c. c\<lparr>cCERDeferred := False\<rparr>) s)"
  have "busy (fst ?a) CapabilitiesExchange = busy (fst s) CapabilitiesExchange"
    by (rule busy_frame) simp_all
  then have "\<not> busy (fst ?a) CapabilitiesExchange" "cStarted (fst s)"
    using reach_link [OF assms] reach_defer [OF assms] True by (auto simp: linkOK_def deferOK_def)
  moreover have "reach L ?a"
    using True by (intro reach.arm reach.undeferred assms) simp
  ultimately show ?thesis
    using True by (auto simp: beginCER_def intro!: reach.reserve)
qed

lemma reach_rejectCandidate:
  assumes "reach L s" "\<not> over (cPhase (fst s))"
  shows "reach L (rejectCandidate i s)"
proof -
  have "upd (\<lambda>c. c\<lparr>cCandidateToken := 0, cTerminal := True\<rparr>) s = upd (setTerminal True) (upd (\<lambda>c. c\<lparr>cCandidateToken := 0\<rparr>) s)"
    by (simp add: upd_def setTerminal_def)
  then have "reach L (upd (\<lambda>c. c\<lparr>cCandidateToken := 0, cTerminal := True\<rparr>) s)"
    using reach_terminal [OF reach.uncandidate [OF assms(1)]] by simp
  then show ?thesis
    using assms
    by (auto simp: rejectCandidate_def Let_def intro!: reach.terminate reach_failedRejection reach.reply split: option.split sum.split)
qed

lemma reach_releaseAdmission:
  assumes "reach L s"
  shows "reach L (releaseAdmission i s)"
proof (cases "cPhase (fst s) = Open \<and> \<not> cReady (fst s)")
  case False
  then show ?thesis
    using assms by (auto simp: releaseAdmission_def Let_def)
next
  case True
  let ?s = "upd (\<lambda>c. c\<lparr>cReady := True, cHandshakePending := False\<rparr>) s"
  have n: "reach L (notify (notice0\<lparr>nKind := HandshakeNotice\<rparr>) ?s)"
    using reach.admitPeer [OF assms] True by (simp add: notify_def notifyToken_def)
  have "busy (fst ?s) DeviceWatchdog = busy (fst s) DeviceWatchdog"
    by (rule busy_frame) simp_all
  moreover have "\<not> busy (fst s) DeviceWatchdog" "cWdNext (fst s) = None" "\<not> cPassiveResponder (fst s)"
    using reach_link [OF assms] reach_wdNext [OF assms] reach_phase [OF assms] True
    by (auto simp: linkOK_def wdNextOK_def phaseOK_def split: option.splits)
  ultimately have "reach L (watchdogUp (inAt i) (inInterval i) (notify (notice0\<lparr>nKind := HandshakeNotice\<rparr>) ?s))"
    using True by (intro reach_watchdogUp [OF n]) simp_all
  then show ?thesis
    using assms by (auto simp: releaseAdmission_def Let_def)
qed

lemma reach_receiveInput:
  assumes "reach L s" "\<not> over (cPhase (fst s))"
  shows "reach L (receiveInput i s)"
proof -
  let ?s = "upd (\<lambda>c. c\<lparr>cReceivedSequence := max (cReceivedSequence c) (inSequence i)\<rparr>) (receive i s)"
  have "reach L (receive i s)"
    using assms by (rule reach_receive)
  moreover from this have "reach L ?s"
    by (rule reach.frame) (simp add: view_def)
  moreover from this have "reach L (upd (\<lambda>c. c\<lparr>cDeferredExpiry := None\<rparr>) ?s)"
    by (rule reach.frame) (simp add: view_def)
  ultimately show ?thesis
    by (auto simp: receiveInput_def Let_def intro: reach_expire split: option.split)
qed

lemma reach_lateCER: "reach L s \<Longrightarrow> cPhase (fst s) = Closed \<Longrightarrow> reach L (lateCER i s)"
  by (auto simp: lateCER_def Let_def intro!: reach_notify reach.closeAgain reach.lateDone)

lemma refreshAddresses_keeps [simp]:
  "view (refreshAddresses as c) = view c" "cPhase (refreshAddresses as c) = cPhase c"
  by (simp_all add: refreshAddresses_def view_def)

definition inputLabels :: "Input \<Rightarrow> Core \<Rightarrow> label list" where
  "inputLabels i c =
     (if inConnection i \<noteq> kConnection (cCfg c) then []
      else if inKind i = IReserveResult then reservedLabels i c
      else if inKind i = IDisconnect \<and> \<not> over (cPhase c) then [Asked]
      else [])"

lemma reach_handleLive:
  assumes "reach L s" "\<not> over (cPhase (fst s))"
  shows "reach (L @ (if inKind i = IDisconnect then [Asked] else [])) (handleLive i s)"
proof (cases "inKind i")
  case IAbort
  have "reach L (upd (\<lambda>c. c\<lparr>cCloseOutcome := Cancelled\<rparr>) s)"
    by (rule reach.frame [OF assms(1)]) (simp add: view_def)
  then show ?thesis
    using assms IAbort by (simp add: handleLive_def reach.terminate)
qed (use assms in \<open>auto simp: handleLive_def intro!: reach_start reach_beginCER reach.stop reach.unsupervised reach.terminate
    reach_receiveInput reach_continue reach_activate reach_rejectCandidate reach_releaseAdmission reach_disconnect reach_freeze
    reach_unhandled reach_expire\<close>)

lemma reach_HandleInto:
  assumes "reach L s"
  shows "reach (L @ inputLabels i (fst s)) (HandleInto i s)"
proof -
  have "reach L (upd (refreshAddresses as) s)" for as
    by (rule reach.frame [OF assms]) simp
  then show ?thesis
    using assms reach_reserved [OF assms] reach_writeResult [OF assms] reach_lateCER [OF assms] reach_handleLive [OF assms, of i]
      reach_handleLive [of L "upd (refreshAddresses (inLocalAddresses i)) s" i]
    by (auto simp: HandleInto_def inputLabels_def Let_def)
qed

lemma CompleteQueuedReply_cases:
  obtains "snd (CompleteQueuedReply i c) = c"
  | op where "map_of (cOperations c) (inToken i) = Some op" "opControl op = None" "snd (CompleteQueuedReply i c) = dropOperation (inToken i) c"
proof (cases "map_of (cOperations c) (inToken i)")
  case None
  then show ?thesis
    using that(1) by (simp add: CompleteQueuedReply_def)
next
  case (Some op)
  have "snd (CompleteQueuedReply i c) = c \<or> opControl op = None \<and> snd (CompleteQueuedReply i c) = dropOperation (inToken i) c"
    by (auto simp: CompleteQueuedReply_def Some)
  then show ?thesis
    using that(1) that(2) [OF Some] by blast
qed

lemma reach_CompleteQueuedReply:
  assumes "reach L s"
  shows "reach L (upd (\<lambda>c. snd (CompleteQueuedReply i c)) s)"
proof (cases rule: CompleteQueuedReply_cases [of i "fst s"])
  case 1
  then show ?thesis
    using assms by (simp add: upd_def)
next
  case (2 op)
  then have "upd (\<lambda>c. snd (CompleteQueuedReply i c)) s = endWriter (inToken i) op s"
    by (simp add: endWriter_def upd_def)
  then show ?thesis
    using reach.endWriter [OF assms 2(1)] by simp
qed

end
