(* ===== verification/CoreHistory.thy ===== *)
theory CoreHistory
  imports CoreRefinement
begin

text \<open>
  What the history of effects says, by induction over the actions: the reservations granted and released,
  the one notice of a handshake and of every disconnect, the order of deliveries, the tokens, and the
  watchdog.
\<close>

section \<open>Reservations\<close>

definition granted :: "label list \<Rightarrow> Reservation \<Rightarrow> nat" where
  "granted L x = count_list L (Granted x)"

lemma granted_simps [simp]:
  "granted [] x = 0" "granted [External] x = 0" "granted (L @ [Asked]) x = granted L x"
  "granted (L @ [Granted y]) x = granted L x + (if y = x then 1 else 0)" "granted (L @ (if b then [Asked] else [])) x = granted L x"
  by (simp_all add: granted_def)

lemma balance_same: "cStore (fst s') = cStore (fst s) \<Longrightarrow> releasedCount (hist s') x = releasedCount (hist s) x \<Longrightarrow> balance s' x = balance s x"
  by (simp add: balance_def heldCount_def)

lemma releasedCount_timers [simp]:
  "releasedCount (hist (arm k at d s)) x = releasedCount (hist s) x" "releasedCount (hist (stop k s)) x = releasedCount (hist s) x"
  "releasedCount (hist (watchdogArm at iv s)) x = releasedCount (hist s) x"
  "releasedCount (hist (pauseHook m i s)) x = releasedCount (hist s) x"
  by (simp_all add: releasedCount_def hist_arm hist_stop watchdogArm_def pauseHook_def Let_def)

lemma releasedCount_closing [simp]: "releasedCount (hist (beginClosing i b s)) x = releasedCount (hist s) x"
  by (simp add: beginClosing_def Let_def releasedCount_append) (simp add: releasedCount_def)

lemma releasedCount_single [simp]: "releasedCount [k] x = (if k = ReleaseIDs x then 1 else 0)"
  by (simp add: releasedCount_def)

lemma balance_addControl:
  "freshControl r cmd y \<Longrightarrow> balance (upd (addControl cmd r) (upd (unreserve t) s)) x = balance s x + (if y = x then 1 else 0)"
  by (simp add: balance_def heldCount_addControl heldCount_keeps [of "unreserve t (fst s)" "fst s"] freshControl_def holds_def)

lemma quiet_release: "quiet k \<Longrightarrow> k \<noteq> ReleaseIDs y"
  by auto

lemma reach_balance: "reach L s \<Longrightarrow> balance s x = granted L x"
proof (induction rule: reach.induct)
  case (new cfg c)
  then show ?case
    by (auto dest!: freshCore_fields simp: freshCore_def balance_def heldCount_def releasedCount_def)
next
  case (newAdmitted cfg p c)
  then show ?case
    by (elim NewAdmitted_cases)
      (simp add: balance_def heldCount_def releasedCount_def grantAdmission_def negotiate_def setAdmission_def freshCore_def Let_def)
next
  case (frame L s f)
  show ?case
    using frame.IH by (subst balance_same [of _ s]) (simp_all add: view_fields [OF frame.hyps(2)])
next
  case (quiet L s k)
  then show ?case
    by (simp add: balance_emit quiet_release)
next
  case (terminate L s p)
  then show ?case
    by (simp add: terminate_ids(2) reach_ids)
next
  case (completed L s n t)
  let ?s = "upd (\<lambda>c. c\<lparr>cEarlyDPA := None, cDisconnectWaiting := False\<rparr>) s"
  have "idsOK {} (fst ?s)" "balance ?s x = balance s x"
    using reach_ids [OF completed.hyps(1)] by (auto intro: idsOK_frame balance_same)
  then show ?case
    using completed.IH by (simp add: balance_emit terminate_ids(2))
next
  case (settle L s cmd r)
  then show ?case
    using idsOK_controls [OF reach_ids [OF settle.hyps(1)] settle.hyps(2)] by (simp add: balance_settle)
next
  case (answerDWA L s r m)
  let ?s = "upd (\<lambda>c. setWdNext None (setWd (fst (Step (effective c) ReceiveDWA)) c)) s"
  have "idsOK {} (fst ?s)" "balance ?s x = balance s x" "r < length (cStore (fst ?s))"
    using reach_ids [OF answerDWA.hyps(1)] idsOK_controls [OF reach_ids [OF answerDWA.hyps(1)] answerDWA.hyps(2)]
    by (auto intro: idsOK_frame balance_same)
  then show ?case
    using answerDWA.IH consumeControl_ids [of "{}" ?s r m] by (simp add: balance_settle)
next
  case (consume L s cmd r m)
  then show ?case
    by (simp add: consumeControl_ids(2) [OF reach_ids])
next
  case (written L s r)
  then show ?case
    by (simp add: balance_upd heldCount_setControl holds_def)
next
  case (refuse L s y t)
  have "balance (emit (ReleaseIDs y) (upd (unreserve t) s)) x = balance s x + (if y = x then 1 else 0)"
    by (simp add: balance_def heldCount_def)
  then show ?case
    using refuse.IH by simp
next
  case (grant L s t cmd r y m q ca h n src hk)
  then show ?case
    by (simp add: balance_addControl)
next
  case (grantFailed L s t cmd r y g)
  let ?s = "upd (addControl cmd r) (upd (unreserve t) s)"
  have "balance ?s x = balance s x + (if y = x then 1 else 0)"
    using grantFailed.hyps(4) by (rule balance_addControl)
  moreover have "balance (upd g ?s) x = balance ?s x"
    by (rule balance_same) (simp_all add: view_fields [OF grantFailed.hyps(5)])
  moreover have "idsOK {} (fst (upd g ?s))"
    using granted_ids [OF reach_ids [OF grantFailed.hyps(1)] grantFailed.hyps(2,4)]
    by (auto intro: idsOK_frame simp: view_fields [OF grantFailed.hyps(5)])
  ultimately show ?case
    using grantFailed.IH by (simp add: terminate_ids(2))
next
  case (skip L s t op r)
  then show ?case
    by (simp add: skipWriter_ids(2) reach_ids)
next
  case (endWriter L s t op)
  then show ?case
    by (simp add: endWriter_balance reach_ids)
next
  case (candidate L s m g t sn)
  then show ?case
    by (elim disjE) (simp_all add: balance_def heldCount_def)
next
  case (publish L s g t sn)
  then show ?case
    by (elim disjE) (simp_all add: balance_def heldCount_def)
qed (simp; fail | simp add: balance_def heldCount_def; fail | simp add: balance_def heldCount_setOperation; fail)+

section \<open>Marked effects\<close>

text \<open>The effects that bear on admission: deliveries, publication, the freeze, closing, the notices of a handshake and
  of a disconnect.\<close>

fun marked :: "effect \<Rightarrow> bool" where
  "marked (Notify n t) \<longleftrightarrow> \<not> plainNotice n"
| "marked (Publish t sn) \<longleftrightarrow> True"
| "marked (Admit m ow) \<longleftrightarrow> True"
| "marked (FreezeAdmission t) \<longleftrightarrow> True"
| "marked CloseConnection \<longleftrightarrow> True"
| "marked k \<longleftrightarrow> False"

definition marks :: "batch \<Rightarrow> effect list" where
  "marks s = filter marked (hist s)"

lemma quiet_marked: "quiet k \<Longrightarrow> \<not> marked k"
  by (cases k) simp_all

lemma marks_simps [simp]:
  "marks (upd f s) = marks s" "marks (markDispatch n s) = marks s" "marks (emit k s) = marks s @ (if marked k then [k] else [])"
  "marks (c, []) = []"
  by (simp_all add: marks_def)

lemma marks_timers [simp]:
  "marks (arm k at d s) = marks s" "marks (stop k s) = marks s" "marks (watchdogArm at iv s) = marks s" "marks (reserve cmd s) = marks s"
  by (simp_all add: marks_def hist_arm hist_stop watchdogArm_def Let_def)

lemma marks_writes [simp]:
  "marks (send m w q ca h n src hk s) = marks s" "marks (release i s) = marks s" "marks (settle i s) = marks s"
  "marks (consumeControl r m s) = marks s" "marks (endWriter t op s) = marks s" "marks (skipWriter t r s) = marks s"
  "marks (pauseHook m j s) = marks s"
  using hist_send [of m w q ca h n src hk s]
  by (auto simp: marks_def hist_release settle_def consumeControl_def endWriter_def skipWriter_def pauseHook_def Let_def split: option.split)

lemma marks_closing [simp]: "marks (beginClosing i b s) = marks s @ [FreezeAdmission (Suc (cSerial (fst s)))]"
  by (simp add: beginClosing_def Let_def)

definition endMarks :: "Phase \<Rightarrow> Core \<Rightarrow> effect list" where
  "endMarks p c = (if p = Closed then [CloseConnection] else []) @
     (if cHandshakePending c
      then [Notify (notice0\<lparr>nKind := HandshakeNotice, nOutcome := cCloseOutcome c, nHandshake := cHandshake c\<rparr>) 0] else []) @
     (if cDisconnectWaiting c
      then [Notify (notice0\<lparr>nKind := DisconnectNotice, nOutcome := cCloseOutcome c\<rparr>) (cDisconnectToken c)] else [])"

lemma marks_terminate [simp]: "marks (terminate p s) = marks s @ endMarks p (fst s)"
proof -
  obtain es where es: "hist (endControls p s) = hist s @ es" "\<forall>e \<in> set es. (\<exists>k t. e = StopTimer k t) \<or> (\<exists>x. e = ReleaseIDs x)"
    using hist_endControls by blast
  then have "filter marked es = []"
    by (auto simp: filter_empty_conv)
  then show ?thesis
    using es(1) by (simp add: marks_def hist_terminate endEffects_def endMarks_def filter_empty_conv plainNotice_def)
qed

definition isNotice :: "NoticeKind \<Rightarrow> effect \<Rightarrow> bool" where
  "isNotice k e \<longleftrightarrow> (case e of Notify n t \<Rightarrow> nKind n = k | _ \<Rightarrow> False)"

definition notices :: "NoticeKind \<Rightarrow> effect list \<Rightarrow> nat" where
  "notices k es = length (filter (isNotice k) es)"

definition isPublish :: "effect \<Rightarrow> bool" where
  "isPublish e \<longleftrightarrow> (case e of Publish t sn \<Rightarrow> True | _ \<Rightarrow> False)"

definition publications :: "effect list \<Rightarrow> nat" where
  "publications es = length (filter isPublish es)"

lemma notices_simps [simp]: "notices k [] = 0" "notices k (es @ fs) = notices k es + notices k fs"
  "notices k [e] = of_bool (isNotice k e)" "notices k (e # f # es) = of_bool (isNotice k e) + notices k (f # es)"
  "publications [] = 0" "publications (es @ fs) = publications es + publications fs"
  "publications [e] = of_bool (isPublish e)" "publications (e # f # es) = of_bool (isPublish e) + publications (f # es)"
  by (simp_all add: notices_def publications_def)

lemma notices_marks: "k = HandshakeNotice \<or> k = DisconnectNotice \<Longrightarrow> notices k (marks s) = notices k (hist s)"
  "publications (marks s) = publications (hist s)"
proof -
  show "notices k (marks s) = notices k (hist s)" if "k = HandshakeNotice \<or> k = DisconnectNotice"
    using that by (auto simp: notices_def marks_def filter_filter isNotice_def plainNotice_def split: effect.split intro!: arg_cong [where f = length] filter_cong)
  show "publications (marks s) = publications (hist s)"
    by (auto simp: publications_def marks_def filter_filter isPublish_def split: effect.split intro!: arg_cong [where f = length] filter_cong)
qed

lemma isNotice_simps [simp]: "isNotice k (Notify n t) \<longleftrightarrow> nKind n = k" "\<not> isNotice k CloseConnection" "\<not> isNotice k (FreezeAdmission t)"
  "\<not> isNotice k (Publish t sn)" "\<not> isNotice k (Admit m ow)" "isPublish (Publish t sn)" "\<not> isPublish (Notify n t)"
  "\<not> isPublish CloseConnection" "\<not> isPublish (FreezeAdmission t)" "\<not> isPublish (Admit m ow)"
  by (simp_all add: isNotice_def isPublish_def)

lemma notice_kinds [simp]: "nKind (notice0\<lparr>nKind := k\<rparr>) = k" "nKind (notice0\<lparr>nKind := k, nOutcome := u\<rparr>) = k"
  "nKind (notice0\<lparr>nKind := k, nOutcome := u, nHandshake := e\<rparr>) = k"
  by (simp_all add: notice0_def)

lemma endMarks_counts:
  "notices HandshakeNotice (endMarks p c) = of_bool (cHandshakePending c)"
  "notices DisconnectNotice (endMarks p c) = of_bool (cDisconnectWaiting c)" "publications (endMarks p c) = 0"
  by (simp_all add: endMarks_def)

section \<open>The handshake's notice\<close>

definition handOK :: "Core \<Rightarrow> effect list \<Rightarrow> bool" where
  "handOK c h \<longleftrightarrow>
     (let n = notices HandshakeNotice h + of_bool (cHandshakePending c); p = publications h
      in (kRole (cCfg c) = Initiator \<longrightarrow> n = 1) \<and> (kRole (cCfg c) = Responder \<longrightarrow> n = p \<and> p \<le> 1 \<and>
           (cPhase c = PreCER \<or> cPhase c = Open \<and> cPassiveResponder c \<longrightarrow> p = 0)) \<and>
         ((cPhase c = PreCER \<or> cPhase c = WaitCEA) \<and> kRole (cCfg c) = Initiator \<or> cPhase c = Open \<and> \<not> cReady c \<longrightarrow> cHandshakePending c) \<and>
         (over (cPhase c) \<longrightarrow> \<not> cHandshakePending c))"

lemma handOK_frame:
  "handOK c h \<Longrightarrow> cHandshakePending c' = cHandshakePending c \<Longrightarrow> kRole (cCfg c') = kRole (cCfg c) \<Longrightarrow> cPhase c' = cPhase c \<Longrightarrow>
   cPassiveResponder c' = cPassiveResponder c \<Longrightarrow> cReady c' = cReady c \<Longrightarrow>
   notices HandshakeNotice h' = notices HandshakeNotice h \<Longrightarrow> publications h' = publications h \<Longrightarrow> handOK c' h'"
  by (simp add: handOK_def)

lemma handOK_refresh:
  assumes "handOK c h" "phaseOK c"
  shows "handOK (RefreshAdmission p c) h"
proof (cases "cPassiveResponder c \<and> \<not> over (cPhase c)")
  case True
  then show ?thesis
    using assms
    by (cases "cPhase c")
      (auto simp: RefreshAdmission_def revokeAdmission_def grantAdmission_def negotiate_def setAdmission_def Let_def
         handOK_def phaseOK_def split: option.split)
next
  case False
  then show ?thesis
    using assms by (auto simp: RefreshAdmission_def)
qed

lemma handOK_terminate: "handOK c h \<Longrightarrow> over p \<Longrightarrow> cHandshakePending c' = False \<Longrightarrow> cPhase c' = p \<Longrightarrow> kRole (cCfg c') = kRole (cCfg c) \<Longrightarrow>
  handOK c' (h @ endMarks p c)"
  by (cases "kRole (cCfg c)"; cases p; cases "cHandshakePending c") (simp_all add: handOK_def Let_def endMarks_counts)

lemma handOK_pause: "handOK (fst s) (marks s) \<Longrightarrow> handOK (fst (pauseHook m i s)) (marks (pauseHook m i s))"
  by (simp add: handOK_def Let_def pauseHook_sets)

lemma reach_hand: "reach L s \<Longrightarrow> handOK (fst s) (marks s)"
proof (induction rule: reach.induct)
  case (new cfg c)
  then show ?case
    by (auto dest!: freshCore_fields simp: freshCore_def handOK_def Let_def)
next
  case (newAdmitted cfg p c)
  then show ?case
    by (elim NewAdmitted_cases) (simp add: handOK_def grantAdmission_def negotiate_def setAdmission_def freshCore_def Let_def)
next
  case (frame L s f)
  show ?case
    by (rule handOK_frame [OF frame.IH]) (simp_all add: view_fields [OF frame.hyps(2)])
next
  case (quiet L s k)
  then show ?case
    by (simp add: quiet_marked)
next
  case (refused L s n t)
  show ?case
    by (rule handOK_frame [OF refused.IH]) (simp_all add: refused.hyps)
next
  case (terminate L s p)
  show ?case
    unfolding marks_terminate by (rule handOK_terminate [OF terminate.IH terminate.hyps(3)]) simp_all
next
  case (completed L s n t)
  let ?s = "upd (\<lambda>c. c\<lparr>cEarlyDPA := None, cDisconnectWaiting := False\<rparr>) s"
  have "handOK (fst ?s) (marks ?s)"
    by (rule handOK_frame [OF completed.IH]) simp_all
  then have "handOK (fst (terminate Closed ?s)) (marks ?s @ endMarks Closed (fst ?s))"
    by (rule handOK_terminate) simp_all
  then have "handOK (fst (terminate Closed ?s)) (marks (terminate Closed ?s))"
    by simp
  then show ?case
    by (rule handOK_frame) (simp_all add: completed.hyps)
next
  case (grantFailed L s t cmd r x g)
  let ?s = "upd g (upd (addControl cmd r) (upd (unreserve t) s))"
  have "handOK (fst ?s) (marks ?s)"
    by (rule handOK_frame [OF grantFailed.IH]) (simp_all add: view_fields [OF grantFailed.hyps(5)])
  then have "handOK (fst (terminate Closed ?s)) (marks ?s @ endMarks Closed (fst ?s))"
    by (rule handOK_terminate) simp_all
  then show ?case
    by simp
next
  case (candidate L s m g t sn)
  from candidate.hyps(6) show ?case
    by (elim disjE) (rule handOK_frame [OF candidate.IH]; simp)+
next
  case (publish L s g t sn)
  then show ?case
    using reach_phase [OF publish.hyps(1)] by (elim disjE) (auto simp: handOK_def phaseOK_def Let_def)
next
  case (admitPeer L s n t)
  then show ?case
    by (cases "kRole (cCfg (fst s))") (auto simp: handOK_def Let_def plainNotice_def)
next
  case (refresh L s p)
  then show ?case
    by (simp add: handOK_refresh reach_phase)
next
  case (pause L s i m)
  show ?case
    by (rule handOK_pause [OF pause.IH])
next
  case (probe L s e "next")
  show ?case
    by (rule handOK_frame [OF probe.IH]) simp_all
qed (erule handOK_frame; simp; fail | auto simp: handOK_def Let_def; fail)+

section \<open>Disconnects\<close>

definition asked :: "label list \<Rightarrow> nat" where
  "asked L = count_list L Asked"

lemma asked_simps [simp]:
  "asked [] = 0" "asked [External] = 0" "asked (L @ [Asked]) = asked L + 1" "asked (L @ [Granted y]) = asked L"
  "asked (L @ (if b then [Asked] else [])) = asked L + of_bool b"
  by (simp_all add: asked_def)

definition askOK :: "label list \<Rightarrow> Core \<Rightarrow> effect list \<Rightarrow> bool" where
  "askOK L c h \<longleftrightarrow> asked L = notices DisconnectNotice h + of_bool (cDisconnectWaiting c)"

lemma askOK_frame:
  "askOK L c h \<Longrightarrow> cDisconnectWaiting c' = cDisconnectWaiting c \<Longrightarrow> notices DisconnectNotice h' = notices DisconnectNotice h \<Longrightarrow>
   asked L' = asked L \<Longrightarrow> askOK L' c' h'"
  by (simp add: askOK_def)

lemma askOK_terminate: "askOK L c h \<Longrightarrow> cDisconnectWaiting c' = False \<Longrightarrow> askOK L c' (h @ endMarks p c)"
  by (simp add: askOK_def endMarks_counts)

lemma beginClosing_waiting: "cDisconnectWaiting (fst (beginClosing i b s)) \<longleftrightarrow> b \<or> cDisconnectWaiting (fst s)"
  by (simp add: beginClosing_def Let_def)

lemma reach_ask: "reach L s \<Longrightarrow> askOK L (fst s) (marks s)"
proof (induction rule: reach.induct)
  case (new cfg c)
  then show ?case
    by (auto dest!: freshCore_fields simp: freshCore_def askOK_def)
next
  case (newAdmitted cfg p c)
  then show ?case
    by (elim NewAdmitted_cases) (simp add: askOK_def grantAdmission_def negotiate_def setAdmission_def freshCore_def Let_def)
next
  case (frame L s f)
  show ?case
    by (rule askOK_frame [OF frame.IH]) (simp_all add: view_fields [OF frame.hyps(2)])
next
  case (quiet L s k)
  then show ?case
    by (simp add: quiet_marked)
next
  case (refused L s n t)
  then show ?case
    by (simp add: askOK_def plainNotice_def)
next
  case (terminate L s p)
  then show ?case
    by (simp add: askOK_terminate)
next
  case (completed L s n t)
  then show ?case
    by (simp add: askOK_def endMarks_counts plainNotice_def)
next
  case (grantFailed L s t cmd r x g)
  then show ?case
    by (simp add: askOK_def endMarks_counts view_fields [OF grantFailed.hyps(5)])
next
  case (candidate L s m g t sn)
  from candidate.hyps(6) show ?case
    by (elim disjE) (rule askOK_frame [OF candidate.IH]; simp)+
next
  case (publish L s g t sn)
  from publish.hyps(6) show ?case
    by (elim disjE) (rule askOK_frame [OF publish.IH]; simp)+
next
  case (closing L s local i)
  then show ?case
    using reach_phase [OF closing.hyps(1)] by (simp add: askOK_def phaseOK_def beginClosing_waiting)
next
  case (askClosing L s t u)
  then show ?case
    by (simp add: askOK_def)
next
  case (probe L s e "next")
  show ?case
    by (rule askOK_frame [OF probe.IH]) simp_all
qed (erule askOK_frame; simp; fail)+

section \<open>Order of deliveries\<close>

definition frozenBy :: "effect list \<Rightarrow> bool" where
  "frozenBy es \<longleftrightarrow> (\<exists>t. FreezeAdmission t \<in> set es)"

definition shaken :: "effect list \<Rightarrow> bool" where
  "shaken es \<longleftrightarrow> (\<exists>e \<in> set es. isNotice HandshakeNotice e)"

text \<open>A delivery after \<open>pre\<close> is in order: the connection is not closed; after the freeze only owned answers
  pass; before it, on a connection the core admitted itself, the handshake has been reported.\<close>

definition deliverable :: "bool \<Rightarrow> effect list \<Rightarrow> Message \<Rightarrow> nat \<Rightarrow> bool" where
  "deliverable external pre m ow \<longleftrightarrow> CloseConnection \<notin> set pre \<and>
     (if frozenBy pre then \<not> isRequest m \<and> ow \<noteq> 0 else external \<or> shaken pre)"

definition inOrder :: "bool \<Rightarrow> effect list \<Rightarrow> bool" where
  "inOrder external es \<longleftrightarrow> (\<forall>pre m ow post. es = pre @ Admit m ow # post \<longrightarrow> deliverable external pre m ow)"

lemma split_snoc: "es @ [e] = pre @ x # post \<longleftrightarrow> (post = [] \<and> pre = es \<and> x = e) \<or> (\<exists>p. post = p @ [e] \<and> es = pre @ x # p)"
  by (cases post rule: rev_cases) auto

lemma inOrder_snoc: "inOrder b (es @ [e]) \<longleftrightarrow> inOrder b es \<and> (\<forall>m ow. e = Admit m ow \<longrightarrow> deliverable b es m ow)"
  unfolding inOrder_def split_snoc by blast

lemma inOrder_append: "(\<And>e. e \<in> set fs \<Longrightarrow> (\<forall>m ow. e \<noteq> Admit m ow)) \<Longrightarrow> inOrder b (es @ fs) = inOrder b es"
proof (induction fs rule: rev_induct)
  case (snoc e fs)
  then show ?case
    using inOrder_snoc [of b "es @ fs" e] by simp
qed simp

definition gateOK :: "bool \<Rightarrow> Core \<Rightarrow> effect list \<Rightarrow> bool" where
  "gateOK external c h \<longleftrightarrow> inOrder external h \<and> (CloseConnection \<in> set h \<longrightarrow> cPhase c = Closed) \<and>
     (frozenBy h \<longrightarrow> cPhase c = Closing \<or> over (cPhase c)) \<and> (cPhase c = Closing \<longrightarrow> frozenBy h) \<and>
     (\<not> external \<longrightarrow> \<not> cPassiveResponder c \<and> (cPhase c = Open \<and> cReady c \<longrightarrow> shaken h))"

lemma gateOK_frame:
  "gateOK b c h \<Longrightarrow> cPhase c' = cPhase c \<Longrightarrow> cPassiveResponder c' = cPassiveResponder c \<Longrightarrow> cReady c' = cReady c \<Longrightarrow> gateOK b c' h"
  by (simp add: gateOK_def)

lemma frozenBy_append [simp]: "frozenBy (es @ fs) \<longleftrightarrow> frozenBy es \<or> frozenBy fs" "\<not> frozenBy []"
  "frozenBy (e # es) \<longleftrightarrow> (\<exists>t. e = FreezeAdmission t) \<or> frozenBy es"
  by (auto simp: frozenBy_def)

lemma shaken_append [simp]: "shaken (es @ fs) \<longleftrightarrow> shaken es \<or> shaken fs" "\<not> shaken []" "shaken (e # es) \<longleftrightarrow> isNotice HandshakeNotice e \<or> shaken es"
  by (auto simp: shaken_def)

lemma endMarks_set: "e \<in> set (endMarks p c) \<Longrightarrow> (\<forall>m ow. e \<noteq> Admit m ow) \<and> (\<forall>t. e \<noteq> FreezeAdmission t)"
  "CloseConnection \<in> set (endMarks p c) \<longleftrightarrow> p = Closed" "\<not> frozenBy (endMarks p c)"
  by (auto simp: endMarks_def split: if_splits)

lemma gateOK_terminate:
  assumes "gateOK b c h" "\<not> over (cPhase c)" "over p" "cPhase c' = p" "cPassiveResponder c' = cPassiveResponder c"
  shows "gateOK b c' (h @ endMarks p c)"
proof -
  have "inOrder b (h @ endMarks p c) = inOrder b h"
    using endMarks_set(1) by (intro inOrder_append) blast
  moreover have "CloseConnection \<notin> set h"
    using assms(1,2) by (auto simp: gateOK_def)
  ultimately show ?thesis
    using assms by (auto simp: gateOK_def endMarks_set over_def)
qed

lemma gateOK_emit:
  "gateOK b c h \<Longrightarrow> \<forall>m ow. e \<noteq> Admit m ow \<Longrightarrow> \<forall>t. e \<noteq> FreezeAdmission t \<Longrightarrow> e \<noteq> CloseConnection \<or> cPhase c = Closed \<Longrightarrow> gateOK b c (h @ [e])"
  by (auto simp: gateOK_def inOrder_snoc)

lemma gateOK_refresh:
  assumes "gateOK b c h" "phaseOK c"
  shows "gateOK b (RefreshAdmission p c) h"
proof (cases "cPassiveResponder c \<and> \<not> over (cPhase c)")
  case True
  then show ?thesis
    using assms
    by (cases "cPhase c")
      (auto simp: RefreshAdmission_def revokeAdmission_def grantAdmission_def negotiate_def setAdmission_def Let_def
         gateOK_def phaseOK_def split: option.split)
next
  case False
  then show ?thesis
    using assms by (auto simp: RefreshAdmission_def)
qed

lemma external_simps [simp]: "External \<in> set (L @ [Asked]) \<longleftrightarrow> External \<in> set L" "External \<in> set (L @ [Granted x]) \<longleftrightarrow> External \<in> set L"
  "External \<in> set (L @ (if b then [Asked] else [])) \<longleftrightarrow> External \<in> set L"
  by auto

lemma reach_gate: "reach L s \<Longrightarrow> gateOK (External \<in> set L) (fst s) (marks s)"
proof (induction rule: reach.induct)
  case (new cfg c)
  then show ?case
    by (auto dest!: freshCore_fields simp: freshCore_def gateOK_def inOrder_def)
next
  case (newAdmitted cfg p c)
  then show ?case
    by (elim NewAdmitted_cases) (simp add: gateOK_def inOrder_def grantAdmission_def negotiate_def setAdmission_def freshCore_def Let_def)
next
  case (frame L s f)
  have "gateOK (External \<in> set L) (f (fst s)) (marks s)"
    by (rule gateOK_frame [OF frame.IH]) (simp_all add: view_fields [OF frame.hyps(2)])
  then show ?case
    by simp
next
  case (quiet L s k)
  then show ?case
    by (simp add: quiet_marked)
next
  case (refused L s n t)
  then show ?case
    by (simp add: gateOK_emit)
next
  case (closeAgain L s)
  then show ?case
    by (simp add: gateOK_emit)
next
  case (admit L s m ow)
  then show ?case
    by (auto simp: gateOK_def inOrder_snoc deliverable_def)
next
  case (terminate L s p)
  then show ?case
    unfolding marks_terminate by (intro gateOK_terminate) simp_all
next
  case (completed L s n t)
  let ?s = "upd (\<lambda>c. c\<lparr>cEarlyDPA := None, cDisconnectWaiting := False\<rparr>) s"
  have "\<not> over (cPhase (fst s))"
    using reach_phase [OF completed.hyps(1)] completed.hyps(2) by (auto simp: phaseOK_def over_def)
  moreover have "gateOK (External \<in> set L) (fst ?s) (marks ?s)"
    using completed.IH by (auto intro: gateOK_frame)
  ultimately have "gateOK (External \<in> set L) (fst (terminate Closed ?s)) (marks ?s @ endMarks Closed (fst ?s))"
    by (intro gateOK_terminate) simp_all
  from this gateOK_emit [OF this, of "Notify n t"] show ?case
    by simp
next
  case (grantFailed L s t cmd r x g)
  let ?s = "upd g (upd (addControl cmd r) (upd (unreserve t) s))"
  have "gateOK (External \<in> set L) (fst ?s) (marks s)"
    by (rule gateOK_frame [OF grantFailed.IH]) (simp_all add: view_fields [OF grantFailed.hyps(5)])
  then have "gateOK (External \<in> set L) (fst (terminate Closed ?s)) (marks s @ endMarks Closed (fst ?s))"
    using grantFailed.hyps(3) by (intro gateOK_terminate) (simp_all add: view_fields [OF grantFailed.hyps(5)])
  then show ?case
    by simp
next
  case (candidate L s m g t sn)
  from candidate.hyps(6) show ?case
    by (elim disjE) (simp; rule gateOK_frame [OF candidate.IH]; simp)+
next
  case (publish L s g t sn)
  from publish.hyps show ?case
    using publish.IH reach_phase [OF publish.hyps(1)] by (elim disjE) (auto simp: gateOK_def inOrder_snoc phaseOK_def)
next
  case (admitPeer L s n t)
  then show ?case
    by (auto simp: gateOK_def inOrder_snoc plainNotice_def)
next
  case (closing L s local i)
  then show ?case
    by (auto simp: gateOK_def inOrder_snoc)
next
  case (refresh L s p)
  then show ?case
    by (simp add: gateOK_refresh reach_phase)
next
  case (pause L s i m)
  then show ?case
    by (simp add: gateOK_def pauseHook_sets)
next
  case (probe L s e "next")
  have "gateOK (External \<in> set L) (fst (reserve DeviceWatchdog (upd (\<lambda>c. setWdNext (Some next) (setWd (next\<lparr>Pending := False\<rparr>) c)) s))) (marks s)"
    by (rule gateOK_frame [OF probe.IH]) simp_all
  then show ?case
    by simp
qed (simp; erule gateOK_frame; simp; fail | auto simp: gateOK_def; fail)+

section \<open>Tokens\<close>

text \<open>The tokens an effect introduces.\<close>

fun issued :: "effect \<Rightarrow> nat list" where
  "issued (ReserveIDs t cmd) = [t]"
| "issued (Send t m q ca st hk n) = [t]"
| "issued (ValidatedCER t sn) = [t]"
| "issued (RunHook t m) = [t]"
| "issued (ArmTimer k t d) = [t]"
| "issued (FreezeAdmission t) = [t]"
| "issued (Publish t sn) = [t]"
| "issued k = []"

definition tokens :: "effect list \<Rightarrow> nat list" where
  "tokens es = concat (map issued es)"

lemma tokens_simps [simp]: "tokens [] = []" "tokens (es @ fs) = tokens es @ tokens fs" "tokens (e # es) = issued e @ tokens es"
  by (simp_all add: tokens_def)

definition issuedOK :: "batch \<Rightarrow> bool" where
  "issuedOK s \<longleftrightarrow> distinct (tokens (hist s)) \<and> (\<forall>t \<in> set (tokens (hist s)). 0 < t \<and> t \<le> cSerial (fst s))"

lemma issuedOK_extend:
  assumes "issuedOK s" "tokens (hist s') = tokens (hist s) @ ts" "distinct ts"
    "\<And>t. t \<in> set ts \<Longrightarrow> cSerial (fst s) < t \<and> t \<le> cSerial (fst s')" "cSerial (fst s) \<le> cSerial (fst s')"
  shows "issuedOK s'"
  using assms unfolding issuedOK_def by (fastforce dest: order_trans)

lemma issuedOK_same: "issuedOK s \<Longrightarrow> tokens (hist s') = tokens (hist s) \<Longrightarrow> cSerial (fst s) \<le> cSerial (fst s') \<Longrightarrow> issuedOK s'"
  by (rule issuedOK_extend [where ts = "[]"]) simp_all

lemma issuedOK_one:
  "issuedOK s \<Longrightarrow> tokens (hist s') = tokens (hist s) @ [Suc (cSerial (fst s))] \<Longrightarrow> Suc (cSerial (fst s)) \<le> cSerial (fst s') \<Longrightarrow> issuedOK s'"
  by (rule issuedOK_extend [where ts = "[Suc (cSerial (fst s))]"]) auto

lemma quiet_issued: "quiet k \<Longrightarrow> issued k = []"
  by (cases k) simp_all

lemma tokens_stop [simp]: "tokens (hist (stop k s)) = tokens (hist s)"
  by (simp add: hist_stop)

lemma issuedOK_arm: "issuedOK s \<Longrightarrow> issuedOK (arm k at d s)" "issuedOK s \<Longrightarrow> issuedOK (watchdogArm at iv s)"
proof -
  assume s: "issuedOK s"
  show "issuedOK (arm k at d s)"
    by (cases "d \<le> 0") (use s in \<open>auto simp: hist_arm fst_arm intro: issuedOK_same issuedOK_one\<close>)
  show "issuedOK (watchdogArm at iv s)"
    using s by (auto simp: watchdogArm_def Let_def hist_stop fst_stop intro: issuedOK_same issuedOK_one)
qed

lemma tokens_writes [simp]:
  "tokens (hist (send m w q ca h n src hk s)) = tokens (hist s) @ [Suc (cSerial (fst s))]"
  "tokens (hist (release i s)) = tokens (hist s)" "tokens (hist (settle i s)) = tokens (hist s)"
  "tokens (hist (consumeControl r m s)) = tokens (hist s)" "tokens (hist (endWriter t op s)) = tokens (hist s)"
  "tokens (hist (skipWriter t r s)) = tokens (hist s)" "tokens (hist (pauseHook m j s)) = tokens (hist s) @ [Suc (cSerial (fst s))]"
  using hist_send [of m w q ca h n src hk s]
  by (auto simp: hist_release settle_def consumeControl_def endWriter_def skipWriter_def pauseHook_def Let_def split: option.split)

lemma tokens_terminate [simp]: "tokens (hist (terminate p s)) = tokens (hist s)"
proof -
  obtain es where es: "hist (endControls p s) = hist s @ es" "\<forall>e \<in> set es. (\<exists>k t. e = StopTimer k t) \<or> (\<exists>x. e = ReleaseIDs x)"
    using hist_endControls by blast
  then have "tokens es = []"
    by (auto simp: tokens_def)
  moreover have "tokens (map CancelSend ts) = []" for ts
    by (induction ts) simp_all
  ultimately show ?thesis
    using es(1) by (simp add: hist_terminate endEffects_def)
qed

lemma issuedOK_closing:
  assumes "issuedOK s"
  shows "issuedOK (beginClosing i b s)"
proof (rule issuedOK_extend [OF assms])
  let ?d = "if inTimeout i \<le> 0 then kClosingTimeout (cCfg (fst s)) else inTimeout i"
  let ?ts = "(if ?d \<le> 0 then [] else [Suc (Suc (cSerial (fst s)))]) @ [Suc (cSerial (fst s))]"
  show "tokens (hist (beginClosing i b s)) = tokens (hist s) @ ?ts"
    by (simp add: beginClosing_def Let_def hist_arm)
  show "distinct ?ts"
    by simp
  have "cSerial (fst (beginClosing i b s)) = (if ?d \<le> 0 then Suc (cSerial (fst s)) else Suc (Suc (cSerial (fst s))))"
    by (simp add: beginClosing_def Let_def fst_arm)
  then show "cSerial (fst s) < t \<and> t \<le> cSerial (fst (beginClosing i b s))" if "t \<in> set ?ts" for t
    using that by (auto split: if_splits)
qed simp

lemma reach_issued: "reach L s \<Longrightarrow> issuedOK s"
proof (induction rule: reach.induct)
  case (new cfg c)
  then show ?case
    by (simp add: issuedOK_def)
next
  case (newAdmitted cfg p c)
  then show ?case
    by (simp add: issuedOK_def)
next
  case (frame L s f)
  show ?case
    by (rule issuedOK_same [OF frame.IH]) (simp_all add: view_fields [OF frame.hyps(2)])
next
  case (quiet L s k)
  show ?case
    by (rule issuedOK_same [OF quiet.IH]) (simp_all add: quiet_issued [OF quiet.hyps(2)])
next
  case (candidate L s m g t sn)
  from candidate.hyps(6) show ?case
    by (elim disjE) (rule issuedOK_one [OF candidate.IH]; simp add: candidate.hyps(7))+
next
  case (publish L s g t sn)
  from publish.hyps(6) show ?case
    by (elim disjE) (rule issuedOK_one [OF publish.IH]; simp add: publish.hyps(7))+
next
  case (grantFailed L s t cmd r x g)
  show ?case
    by (rule issuedOK_same [OF grantFailed.IH]) (simp_all add: view_fields [OF grantFailed.hyps(5)])
next
  case (reserve L s cmd)
  show ?case
    by (rule issuedOK_one [OF reserve.IH]) (simp_all add: fst_reserve Let_def)
next
  case (probe L s e "next")
  show ?case
    by (rule issuedOK_one [OF probe.IH]) (simp_all add: fst_reserve Let_def)
qed (erule issuedOK_arm issuedOK_closing; fail | erule issuedOK_same; simp; fail | erule issuedOK_one; simp; fail)+

section \<open>The watchdog\<close>

text \<open>What may happen to the watchdog machine of a connection: an event of the machine, a probe that is taken
  back (its write was skipped, or supervision ended), and the mark of a peer that is known to be recovering.\<close>

datatype wdMove = Moved WdEvent | Withdrawn | Recovering

definition moved :: "Machine \<Rightarrow> wdMove \<Rightarrow> Machine" where
  "moved m mv = (case mv of Moved e \<Rightarrow> fst (Step m e) | Withdrawn \<Rightarrow> m\<lparr>Pending := False\<rparr> | Recovering \<Rightarrow> m\<lparr>wdState := WdDown\<rparr>)"

definition sendsProbe :: "Machine \<Rightarrow> wdMove \<Rightarrow> bool" where
  "sendsProbe m mv \<longleftrightarrow> (case mv of Moved e \<Rightarrow> aSend (snd (Step m e)) | _ \<Rightarrow> False)"

definition mayMove :: "Machine \<Rightarrow> wdMove \<Rightarrow> bool" where
  "mayMove m mv \<longleftrightarrow> (mv = Recovering \<longrightarrow> wdState m = WdInitial \<or> wdState m = WdDown)"

text \<open>\<open>supervised m n\<close>: the machine \<open>m\<close> after \<open>n\<close> probes.\<close>

inductive supervised :: "Machine \<Rightarrow> nat \<Rightarrow> bool" where
  start: "supervised \<lparr>wdState = (if b then WdDown else WdInitial), Pending = False, NumDWA = 0\<rparr> 0"
| move: "supervised m n \<Longrightarrow> mayMove m mv \<Longrightarrow> supervised (moved m mv) (n + of_bool (sendsProbe m mv))"

definition isProbe :: "effect \<Rightarrow> bool" where
  "isProbe e \<longleftrightarrow> (case e of ReserveIDs t cmd \<Rightarrow> cmd = DeviceWatchdog | _ \<Rightarrow> False)"

definition probes :: "effect list \<Rightarrow> nat" where
  "probes es = length (filter isProbe es)"

lemma probes_simps [simp]: "probes [] = 0" "probes (es @ fs) = probes es + probes fs" "probes (e # es) = of_bool (isProbe e) + probes es"
  by (simp_all add: probes_def)

lemma isProbe_simps [simp]: "isProbe (ReserveIDs t cmd) \<longleftrightarrow> cmd = DeviceWatchdog" "\<not> isProbe (Notify n t)" "\<not> isProbe (Publish t sn)"
  "\<not> isProbe (Admit m ow)" "\<not> isProbe (FreezeAdmission t)" "\<not> isProbe CloseConnection" "\<not> isProbe (StopTimer k t)"
  "\<not> isProbe (ArmTimer k t d)" "\<not> isProbe (ReleaseIDs x)" "\<not> isProbe (Send t m q ca st hk no)" "\<not> isProbe (RunHook t m)"
  "\<not> isProbe (CompleteRequest u)" "\<not> isProbe (ValidatedCER t sn)" "\<not> isProbe (HandshakeReady t sn)" "\<not> isProbe (CancelSend t)"
  by (simp_all add: isProbe_def)

lemma quiet_probe: "quiet k \<Longrightarrow> \<not> isProbe k"
  by (cases k) (simp_all add: isProbe_def)

lemma probes_timers [simp]:
  "probes (hist (arm k at d s)) = probes (hist s)" "probes (hist (stop k s)) = probes (hist s)"
  "probes (hist (watchdogArm at iv s)) = probes (hist s)" "probes (hist (beginClosing i b s)) = probes (hist s)"
  by (simp_all add: hist_arm hist_stop watchdogArm_def beginClosing_def Let_def)

lemma probes_writes [simp]:
  "probes (hist (send m w q ca h n src hk s)) = probes (hist s)"
  "probes (hist (release i s)) = probes (hist s)" "probes (hist (settle i s)) = probes (hist s)"
  "probes (hist (consumeControl r m s)) = probes (hist s)" "probes (hist (endWriter t op s)) = probes (hist s)"
  "probes (hist (skipWriter t r s)) = probes (hist s)" "probes (hist (pauseHook m j s)) = probes (hist s)"
  using hist_send [of m w q ca h n src hk s]
  by (auto simp: hist_release settle_def consumeControl_def endWriter_def skipWriter_def pauseHook_def Let_def split: option.split)

lemma probes_terminate [simp]: "probes (hist (terminate p s)) = probes (hist s)"
proof -
  obtain es where es: "hist (endControls p s) = hist s @ es" "\<forall>e \<in> set es. (\<exists>k t. e = StopTimer k t) \<or> (\<exists>x. e = ReleaseIDs x)"
    using hist_endControls by blast
  then have "probes es = 0"
    by (auto simp: probes_def filter_empty_conv)
  moreover have "probes (map CancelSend ts) = 0" for ts
    by (induction ts) simp_all
  ultimately show ?thesis
    using es(1) by (simp add: hist_terminate endEffects_def)
qed

definition superOK :: "batch \<Rightarrow> bool" where
  "superOK s \<longleftrightarrow> supervised (effective (fst s)) (probes (hist s))"

lemma superOK_same: "superOK s \<Longrightarrow> effective (fst s') = effective (fst s) \<Longrightarrow> probes (hist s') = probes (hist s) \<Longrightarrow> superOK s'"
  by (simp add: superOK_def)

lemma superOK_move:
  assumes "superOK s" "mayMove (effective (fst s)) mv" "effective (fst s') = moved (effective (fst s)) mv"
    "probes (hist s') = probes (hist s) + of_bool (sendsProbe (effective (fst s)) mv)"
  shows "superOK s'"
  using supervised.move [OF assms(1) [unfolded superOK_def] assms(2)] assms(3,4) by (simp add: superOK_def)

lemma superOK_keeps:
  "superOK s \<Longrightarrow> cWdNext (fst s') = cWdNext (fst s) \<Longrightarrow> cWd (fst s') = cWd (fst s) \<Longrightarrow> probes (hist s') = probes (hist s) \<Longrightarrow> superOK s'"
  by (simp add: superOK_def effective_def cong: option.case_cong)

lemma effective_next [simp]: "effective (setWdNext None c) = cWd c" "effective (setWdNext (Some m) c) = m"
  by (simp_all add: effective_def)

lemma superOK_withdrawn:
  "superOK s \<Longrightarrow> effective (fst s') = (effective (fst s))\<lparr>Pending := False\<rparr> \<Longrightarrow> probes (hist s') = probes (hist s) \<Longrightarrow> superOK s'"
  by (erule superOK_move [where mv = Withdrawn]) (simp_all add: mayMove_def moved_def sendsProbe_def)

lemma superOK_terminate:
  assumes "superOK s" "wdNextOK (fst s)"
  shows "superOK (terminate p s)"
proof -
  let ?m = "effective (fst s)"
  have m: "cWdNext (fst s) \<noteq> None \<Longrightarrow> cWd (fst s) = ?m\<lparr>Pending := False\<rparr>" "cWdNext (fst s) = None \<Longrightarrow> cWd (fst s) = ?m"
    using assms(2) by (auto simp: wdNextOK_def effective_def split: option.splits)
  have e: "effective (fst (terminate p s)) =
      (if kWatchdog (cCfg (fst s)) \<and> wdState (cWd (fst s)) \<noteq> WdInitial then (fst (Step (cWd (fst s)) ConnectionDown))\<lparr>Pending := False\<rparr>
       else cWd (fst s))"
    by (simp add: effective_def terminate_wd Let_def)
  have down: "(fst (Step (x\<lparr>Pending := False\<rparr>) ConnectionDown))\<lparr>Pending := False\<rparr> = (fst (Step x ConnectionDown))\<lparr>Pending := False\<rparr>" for x
    by (simp add: Step.simps Let_def)
  let ?d = "upd (\<lambda>c. setWdNext None (setWd (fst (Step ?m ConnectionDown)) c)) s"
  have "superOK ?d"
    by (rule superOK_move [OF assms(1), where mv = "Moved ConnectionDown"])
      (simp_all add: mayMove_def moved_def sendsProbe_def effective_def Step.simps noActions_def Let_def)
  then show ?thesis
  proof (cases "kWatchdog (cCfg (fst s)) \<and> wdState (cWd (fst s)) \<noteq> WdInitial")
    case True
    have "effective (fst (terminate p s)) = (effective (fst ?d))\<lparr>Pending := False\<rparr>"
    proof (cases "cWdNext (fst s) = None")
      case True
      then show ?thesis
        using m(2) \<open>kWatchdog (cCfg (fst s)) \<and> wdState (cWd (fst s)) \<noteq> WdInitial\<close> unfolding e
        by simp
    next
      case False
      then have "fst (Step (cWd (fst s)) ConnectionDown)\<lparr>Pending := False\<rparr> = fst (Step ?m ConnectionDown)\<lparr>Pending := False\<rparr>"
        using down [of ?m] m(1) by simp
      then show ?thesis
        using \<open>kWatchdog (cCfg (fst s)) \<and> wdState (cWd (fst s)) \<noteq> WdInitial\<close> unfolding e
        by simp
    qed
    then show ?thesis
      by (rule superOK_withdrawn [OF \<open>superOK ?d\<close>]) simp
  next
    case False
    then have "effective (fst (terminate p s)) = cWd (fst s)"
      unfolding e by auto
    then show ?thesis
      using m superOK_same [OF assms(1), of "terminate p s"] superOK_withdrawn [OF assms(1), of "terminate p s"]
      by (cases "cWdNext (fst s) = None") simp_all
  qed
qed

lemma Step_answer_no_send: "\<not> aSend (snd (Step m ReceiveDWA))"
  by (cases "wdState m") (simp_all add: Step.simps Step_defs)

lemma reach_super: "reach L s \<Longrightarrow> superOK s"
proof (induction rule: reach.induct)
  case (new cfg c)
  then show ?case
    using supervised.start [of "kRecovery cfg"] by (auto dest!: freshCore_fields simp: superOK_def freshCore_def effective_def)
next
  case (newAdmitted cfg p c)
  then show ?case
    by (elim NewAdmitted_cases)
      (simp add: supervised.start superOK_def effective_def grantAdmission_def negotiate_def setAdmission_def freshCore_def Let_def)
next
  case (frame L s f)
  show ?case
    by (rule superOK_keeps [OF frame.IH]) (simp_all add: view_fields [OF frame.hyps(2)])
next
  case (quiet L s k)
  show ?case
    by (rule superOK_same [OF quiet.IH]) (simp_all add: quiet_probe [OF quiet.hyps(2)])
next
  case (terminate L s p)
  then show ?case
    by (simp add: superOK_terminate reach_wdNext)
next
  case (completed L s n t)
  let ?s = "upd (\<lambda>c. c\<lparr>cEarlyDPA := None, cDisconnectWaiting := False\<rparr>) s"
  have "superOK ?s"
    by (rule superOK_keeps [OF completed.IH]) simp_all
  moreover have "wdNextOK (fst ?s)"
    using reach_wdNext [OF completed.hyps(1)] by (simp add: wdNextOK_def split: option.splits)
  ultimately have "superOK (terminate Closed ?s)"
    by (rule superOK_terminate)
  then show ?case
    by (rule superOK_same) simp_all
next
  case (grantFailed L s t cmd r x g)
  let ?s = "upd g (upd (addControl cmd r) (upd (unreserve t) s))"
  have "superOK ?s"
    by (rule superOK_keeps [OF grantFailed.IH]) (simp_all add: view_fields [OF grantFailed.hyps(5)])
  moreover have "wdNextOK (fst ?s)"
    using reach_wdNext [OF grantFailed.hyps(1)] by (simp add: wdNextOK_def view_fields [OF grantFailed.hyps(5)] split: option.splits)
  ultimately show ?case
    by (rule superOK_terminate)
next
  case (answerDWA L s r m)
  show ?case
    by (rule superOK_move [OF answerDWA.IH, where mv = "Moved ReceiveDWA"])
      (simp_all add: mayMove_def moved_def sendsProbe_def effective_def [of "fst (settle _ _)"] Step_answer_no_send)
next
  case (probe L s e "next")
  show ?case
    by (rule superOK_move [OF probe.IH, where mv = "Moved e"])
      (simp_all add: mayMove_def moved_def sendsProbe_def effective_def probe.hyps(7,9,10))
next
  case (wdStep L s e)
  show ?case
  proof (cases "cWdNext (fst s)")
    case None
    then show ?thesis
      by (intro superOK_move [OF wdStep.IH, where mv = "Moved e"])
        (simp_all add: mayMove_def moved_def sendsProbe_def effective_def wdStep.hyps(4))
  next
    case (Some nx)
    then show ?thesis
      by (intro superOK_same [OF wdStep.IH]) (simp_all add: effective_def)
  qed
next
  case (published L s "next")
  show ?case
    by (rule superOK_same [OF published.IH]) (simp_all add: effective_def published.hyps)
next
  case (unsupervised L s)
  show ?case
    using reach_wdNext [OF unsupervised.hyps]
    by (intro superOK_withdrawn [OF unsupervised.IH]) (simp_all add: effective_def wdNextOK_def split: option.splits)
next
  case (withdrawn L s)
  show ?case
    using reach_wdNext [OF withdrawn.hyps(1)]
    by (intro superOK_withdrawn [OF withdrawn.IH]) (simp_all add: effective_def wdNextOK_def split: option.splits)
next
  case (recover L s)
  have "cWdNext (fst s) = None"
    using reach_wdNext [OF recover.hyps(1)] recover.hyps(2) by (simp add: wdNextOK_def split: option.splits)
  then show ?case
    using reach_idle [OF recover.hyps(1)] recover.hyps(2)
    by (intro superOK_move [OF recover.IH, where mv = Recovering])
      (simp_all add: mayMove_def moved_def sendsProbe_def effective_def idleOK_def)
next
  case (reserve L s cmd)
  show ?case
    by (rule superOK_keeps [OF reserve.IH])
      (use reserve.hyps(4) in \<open>auto simp: DeviceWatchdog_def CapabilitiesExchange_def DisconnectPeer_def\<close>)
next
  case (candidate L s m g t sn)
  from candidate.hyps(6) show ?case
    by (elim disjE) (rule superOK_keeps [OF candidate.IH]; simp)+
next
  case (publish L s g t sn)
  from publish.hyps(6) show ?case
    by (elim disjE) (rule superOK_keeps [OF publish.IH]; simp)+
qed (erule superOK_keeps; simp; fail)+

end
