(* ===== verification/CoreAppend.thy ===== *)
theory CoreAppend
  imports CoreFrames
begin

text \<open>
  \<open>HandleInto\<close> appends to the slice its caller supplies: what it appends, and the core it leaves, do not
  depend on what the slice already holds. Every operation of the core commutes with prefixing the effects.
\<close>

definition pre :: "Effect list \<Rightarrow> batch \<Rightarrow> batch" where
  "pre x s = (fst s, x @ snd s)"

lemma pre_core [simp]: "fst (pre x s) = fst s" "snd (pre x s) = x @ snd s"
  by (simp_all add: pre_def)

lemma pre_upd [simp]: "upd f (pre x s) = pre x (upd f s)"
  by (simp add: pre_def upd_def)

lemma pre_emit [simp]: "emit k (pre x s) = pre x (emit k s)"
  by (simp add: pre_def emit_def)

lemma pre_if [simp]: "(if b then pre x s else pre x t) = pre x (if b then s else t)"
  by simp

lemma pre_option [simp]: "(case w of None \<Rightarrow> pre x s | Some y \<Rightarrow> pre x (f y)) = pre x (case w of None \<Rightarrow> s | Some y \<Rightarrow> f y)"
  by (simp split: option.split)

lemma pre_sum [simp]: "(case w of Inl a \<Rightarrow> pre x (g a) | Inr y \<Rightarrow> pre x (f y)) = pre x (case w of Inl a \<Rightarrow> g a | Inr y \<Rightarrow> f y)"
  by (simp split: sum.split)

lemma pre_mark [simp]: "markDispatch (length x + n) (pre x s) = pre x (markDispatch n s)"
  by (simp add: markDispatch_def pre_def nth_append list_update_append)

lemma pre_cancel [simp]: "fold (\<lambda>t. emit (CancelSend t)) ts (pre x s) = pre x (fold (\<lambda>t. emit (CancelSend t)) ts s)"
  by (induction ts arbitrary: s) simp_all

lemma pre_hold [simp]: "isHold (length x + n) (x @ es) = isHold n es"
  by (simp add: isHold_def nth_append)

lemma pre_arm [simp]: "arm a1 a2 a3 (pre x s) = pre x (arm a1 a2 a3 s)"
  by (simp add: arm_def Let_def cong: if_cong option.case_cong sum.case_cong)

lemma pre_stop [simp]: "stop a1 (pre x s) = pre x (stop a1 s)"
  by (simp add: stop_def Let_def cong: if_cong option.case_cong sum.case_cong)

lemma pre_notifyToken [simp]: "notifyToken a1 a2 (pre x s) = pre x (notifyToken a1 a2 s)"
  by (simp add: notifyToken_def Let_def cong: if_cong option.case_cong sum.case_cong)

lemma pre_notify [simp]: "notify a1 (pre x s) = pre x (notify a1 s)"
  by (simp add: notify_def Let_def cong: if_cong option.case_cong sum.case_cong)

lemma pre_reserve [simp]: "reserve a1 (pre x s) = pre x (reserve a1 s)"
  by (simp add: reserve_def Let_def cong: if_cong option.case_cong sum.case_cong)

lemma pre_release [simp]: "release a1 (pre x s) = pre x (release a1 s)"
  by (simp add: release_def Let_def emit_def pre_def)

lemma pre_settle [simp]: "settle a1 (pre x s) = pre x (settle a1 s)"
  by (simp add: settle_def Let_def cong: if_cong option.case_cong sum.case_cong)

lemma pre_send [simp]: "send a1 a2 a3 a4 a5 a6 a7 a8 (pre x s) = pre x (send a1 a2 a3 a4 a5 a6 a7 a8 s)"
  by (simp add: send_def Let_def cong: if_cong option.case_cong sum.case_cong)

lemma pre_dropControl [simp]: "dropControl a1 (pre x s) = pre x (dropControl a1 s)"
  by (simp add: dropControl_def Let_def cong: if_cong option.case_cong sum.case_cong)

lemma pre_noticesAtEnd [simp]: "noticesAtEnd (pre x s) = pre x (noticesAtEnd s)"
  by (simp add: noticesAtEnd_def Let_def cong: if_cong option.case_cong sum.case_cong)

lemma pre_terminate [simp]: "terminate a1 (pre x s) = pre x (terminate a1 s)"
  by (simp add: terminate_def Let_def allTimers_def controlCommands_def cong: if_cong option.case_cong sum.case_cong)

lemma pre_discard [simp]: "discard a1 a2 a3 a4 (pre x s) = pre x (discard a1 a2 a3 a4 s)"
  by (simp add: discard_def Let_def cong: if_cong option.case_cong sum.case_cong)

lemma pre_fail [simp]: "fail a1 a2 a3 (pre x s) = pre x (fail a1 a2 a3 s)"
  by (simp add: fail_def Let_def cong: if_cong option.case_cong sum.case_cong)

lemma pre_failedRejection [simp]: "failedRejection a1 a2 a3 (pre x s) = pre x (failedRejection a1 a2 a3 s)"
  by (simp add: failedRejection_def Let_def cong: if_cong option.case_cong sum.case_cong)

lemma pre_reject [simp]: "reject a1 a2 a3 (pre x s) = pre x (reject a1 a2 a3 s)"
  by (simp add: reject_def Let_def cong: if_cong option.case_cong sum.case_cong)

lemma pre_requestError [simp]: "requestError a1 a2 (pre x s) = pre x (requestError a1 a2 s)"
  by (simp add: requestError_def Let_def cong: if_cong option.case_cong sum.case_cong)

lemma pre_watchdogArm [simp]: "watchdogArm a1 a2 (pre x s) = pre x (watchdogArm a1 a2 s)"
  by (simp add: watchdogArm_def Let_def cong: if_cong option.case_cong sum.case_cong)

lemma pre_watchdogNotice [simp]: "watchdogNotice a1 (pre x s) = pre x (watchdogNotice a1 s)"
  by (simp add: watchdogNotice_def Let_def cong: if_cong option.case_cong sum.case_cong)

lemma pre_watchdogUp [simp]: "watchdogUp a1 a2 (pre x s) = pre x (watchdogUp a1 a2 s)"
  by (simp add: watchdogUp_def Let_def case_prod_beta cong: if_cong option.case_cong sum.case_cong)

lemma pre_watchdogPublished [simp]: "watchdogPublished a1 a2 (pre x s) = pre x (watchdogPublished a1 a2 s)"
  by (simp add: watchdogPublished_def Let_def cong: if_cong option.case_cong sum.case_cong)

lemma pre_activity [simp]: "activity a1 (pre x s) = pre x (activity a1 s)"
  by (simp add: activity_def Let_def cong: if_cong option.case_cong sum.case_cong)

lemma pre_validActivity [simp]: "validActivity (pre x s) = pre x (validActivity s)"
  by (simp add: validActivity_def Let_def case_prod_beta cong: if_cong option.case_cong sum.case_cong)

lemma pre_watchdogExpired [simp]: "watchdogExpired a1 (pre x s) = pre x (watchdogExpired a1 s)"
  by (simp add: watchdogExpired_def Let_def case_prod_beta cong: if_cong option.case_cong sum.case_cong)

lemma pre_consumeControl [simp]: "consumeControl a1 a2 (pre x s) = pre x (consumeControl a1 a2 s)"
  by (simp add: consumeControl_def cong: if_cong)

lemma pre_acceptDWA [simp]: "acceptDWA a1 a2 (pre x s) = pre x (acceptDWA a1 a2 s)"
  by (simp add: acceptDWA_def Let_def case_prod_beta cong: if_cong option.case_cong sum.case_cong)

lemma pre_dwa [simp]: "dwa a1 (pre x s) = pre x (dwa a1 s)"
  by (simp add: dwa_def Let_def cong: if_cong option.case_cong sum.case_cong)

lemma pre_dwr [simp]: "dwr a1 (pre x s) = pre x (dwr a1 s)"
  by (simp add: dwr_def Let_def cong: if_cong option.case_cong sum.case_cong)

lemma pre_beginClosing [simp]: "beginClosing a1 a2 (pre x s) = pre x (beginClosing a1 a2 s)"
  by (simp add: beginClosing_def Let_def cong: if_cong option.case_cong sum.case_cong)

lemma pre_answerDPR [simp]: "answerDPR a1 a2 a3 (pre x s) = pre x (answerDPR a1 a2 a3 s)"
  by (simp add: answerDPR_def Let_def cong: if_cong option.case_cong sum.case_cong)

lemma pre_freeze [simp]: "freeze a1 (pre x s) = pre x (freeze a1 s)"
  by (simp add: freeze_def Let_def cong: if_cong option.case_cong sum.case_cong)

lemma pre_disconnect [simp]: "disconnect a1 (pre x s) = pre x (disconnect a1 s)"
  by (simp add: disconnect_def Let_def cong: if_cong option.case_cong sum.case_cong)

lemma pre_dpr [simp]: "dpr a1 a2 (pre x s) = pre x (dpr a1 a2 s)"
  by (simp add: dpr_def Let_def cong: if_cong option.case_cong sum.case_cong)

lemma pre_completeDPA [simp]: "completeDPA a1 a2 (pre x s) = pre x (completeDPA a1 a2 s)"
  by (simp add: completeDPA_def Let_def cong: if_cong option.case_cong sum.case_cong)

lemma pre_dpa [simp]: "dpa a1 a2 (pre x s) = pre x (dpa a1 a2 s)"
  by (simp add: dpa_def Let_def cong: if_cong option.case_cong sum.case_cong)

lemma pre_handshakeReady [simp]: "handshakeReady (pre x s) = pre x (handshakeReady s)"
  by (simp add: handshakeReady_def Let_def cong: if_cong option.case_cong sum.case_cong)

lemma pre_rejectCER [simp]: "rejectCER a1 a2 (pre x s) = pre x (rejectCER a1 a2 s)"
  by (simp add: rejectCER_def Let_def cong: sum.case_cong split: option.split base_error.split)

lemma pre_candidate [simp]: "candidate a1 (pre x s) = pre x (candidate a1 s)"
  by (simp add: candidate_def Let_def cong: if_cong split: sum.split)

lemma pre_activate [simp]: "activate a1 (pre x s) = pre x (activate a1 s)"
  by (simp add: activate_def Let_def cong: if_cong option.case_cong sum.case_cong)

lemma pre_acceptCEA [simp]: "acceptCEA a1 a2 a3 (pre x s) = pre x (acceptCEA a1 a2 a3 s)"
  by (simp add: acceptCEA_def Let_def cong: if_cong option.case_cong sum.case_cong)

lemma pre_cea [simp]: "cea a1 a2 (pre x s) = pre x (cea a1 a2 s)"
  by (simp add: cea_def Let_def cong: if_cong option.case_cong sum.case_cong)

lemma pre_reserved [simp]: "reserved a1 (pre x s) = pre x (reserved a1 s)"
  by (simp add: reserved_def Let_def cong: if_cong option.case_cong sum.case_cong)

lemma pre_endWriter [simp]: "endWriter a1 a2 (pre x s) = pre x (endWriter a1 a2 s)"
  by (simp add: endWriter_def Let_def cong: if_cong option.case_cong sum.case_cong)

lemma pre_skippedControl [simp]: "skippedControl a1 a2 (pre x s) = pre x (skippedControl a1 a2 s)"
  by (simp add: skippedControl_def Let_def cong: if_cong option.case_cong sum.case_cong)

lemma pre_failedWrite [simp]: "failedWrite a1 a2 (pre x s) = pre x (failedWrite a1 a2 s)"
  by (simp add: failedWrite_def Let_def cong: if_cong option.case_cong sum.case_cong)

lemma pre_reportWrite [simp]: "reportWrite a1 a2 (pre x s) = pre x (reportWrite a1 a2 s)"
  by (simp add: reportWrite_def Let_def cong: if_cong option.case_cong sum.case_cong)

lemma pre_writtenWrite [simp]: "writtenWrite a1 a2 (pre x s) = pre x (writtenWrite a1 a2 s)"
  by (simp add: writtenWrite_def Let_def cong: if_cong option.case_cong sum.case_cong)

lemma pre_writeResult [simp]: "writeResult a1 (pre x s) = pre x (writeResult a1 s)"
  by (simp add: writeResult_def Let_def cong: if_cong option.case_cong sum.case_cong)

lemma pre_pauseHook [simp]: "pauseHook a1 a2 (pre x s) = pre x (pauseHook a1 a2 s)"
  by (simp add: pauseHook_def Let_def cong: if_cong option.case_cong sum.case_cong)

lemma pre_externalMessageError [simp]: "externalMessageError a1 a2 a3 a4 (pre x s) = pre x (externalMessageError a1 a2 a3 a4 s)"
  by (simp add: externalMessageError_def Let_def case_prod_beta cong: if_cong option.case_cong sum.case_cong)

lemma pre_messageError [simp]: "messageError a1 a2 a3 a4 (pre x s) = pre x (messageError a1 a2 a3 a4 s)"
  by (simp add: messageError_def Let_def cong: if_cong option.case_cong sum.case_cong)

lemma pre_unhandled [simp]: "unhandled a1 (pre x s) = pre x (unhandled a1 s)"
  by (simp add: unhandled_def Let_def cong: if_cong option.case_cong sum.case_cong)

lemma pre_applicationMessage [simp]: "applicationMessage a1 a2 (pre x s) = pre x (applicationMessage a1 a2 s)"
  by (simp add: applicationMessage_def Let_def cong: if_cong option.case_cong sum.case_cong)

lemma pre_handledAnswer [simp]: "handledAnswer a1 a2 (pre x s) = pre x (handledAnswer a1 a2 s)"
  by (simp add: handledAnswer_def Let_def cong: if_cong option.case_cong sum.case_cong)

lemma pre_dispatch [simp]: "dispatch a1 a2 (pre x s) = pre x (dispatch a1 a2 s)"
  by (simp add: dispatch_def Let_def cong: if_cong option.case_cong sum.case_cong)

lemma pre_repeatedCER [simp]: "repeatedCER a1 a2 (pre x s) = pre x (repeatedCER a1 a2 s)"
  by (simp add: repeatedCER_def Let_def cong: if_cong option.case_cong sum.case_cong)

lemma pre_receiveBody [simp]: "receiveBody a1 a2 (length x + n) (pre x s) = pre x (receiveBody a1 a2 n s)"
  by (simp add: receiveBody_def Let_def cong: if_cong option.case_cong sum.case_cong)

lemma pre_receiveAdmitted [simp]: "receiveAdmitted a1 a2 (pre x s) = pre x (receiveAdmitted a1 a2 s)"
  by (simp add: receiveAdmitted_def Let_def cong: if_cong option.case_cong sum.case_cong)

lemma pre_receiveMessage [simp]: "receiveMessage a1 a2 (pre x s) = pre x (receiveMessage a1 a2 s)"
  by (simp add: receiveMessage_def Let_def cong: if_cong option.case_cong sum.case_cong)

lemma pre_receiveNil [simp]: "receiveNil a1 (pre x s) = pre x (receiveNil a1 s)"
  by (simp add: receiveNil_def Let_def cong: if_cong option.case_cong sum.case_cong)

lemma pre_receive [simp]: "receive a1 (pre x s) = pre x (receive a1 s)"
  by (simp add: receive_def Let_def cong: if_cong option.case_cong sum.case_cong)

lemma pre_expire [simp]: "expire a1 (pre x s) = pre x (expire a1 s)"
  by (simp add: expire_def Let_def case_prod_beta cong: if_cong option.case_cong sum.case_cong)

lemma pre_continue [simp]: "continue a1 (pre x s) = pre x (continue a1 s)"
  by (simp add: continue_def Let_def cong: if_cong option.case_cong sum.case_cong)

lemma pre_start [simp]: "start a1 (pre x s) = pre x (start a1 s)"
  by (simp add: start_def Let_def cong: if_cong option.case_cong sum.case_cong)

lemma pre_beginCER [simp]: "beginCER a1 (pre x s) = pre x (beginCER a1 s)"
  by (simp add: beginCER_def Let_def cong: if_cong option.case_cong sum.case_cong)

lemma pre_rejectCandidate [simp]: "rejectCandidate a1 (pre x s) = pre x (rejectCandidate a1 s)"
  by (simp add: rejectCandidate_def Let_def cong: if_cong option.case_cong sum.case_cong)

lemma pre_releaseAdmission [simp]: "releaseAdmission a1 (pre x s) = pre x (releaseAdmission a1 s)"
  by (simp add: releaseAdmission_def Let_def cong: if_cong option.case_cong sum.case_cong)

lemma pre_receiveInput [simp]: "receiveInput a1 (pre x s) = pre x (receiveInput a1 s)"
  by (simp add: receiveInput_def Let_def cong: if_cong option.case_cong sum.case_cong)

lemma pre_lateCER [simp]: "lateCER a1 (pre x s) = pre x (lateCER a1 s)"
  by (simp add: lateCER_def Let_def cong: if_cong option.case_cong sum.case_cong)

lemma pre_handleLive [simp]: "handleLive a1 (pre x s) = pre x (handleLive a1 s)"
  by (cases "inKind a1") (simp_all add: handleLive_def cong: if_cong)

lemma pre_HandleInto [simp]: "HandleInto a1 (pre x s) = pre x (HandleInto a1 s)"
  by (simp add: HandleInto_def Let_def cong: if_cong option.case_cong sum.case_cong)

end
