(* ===== verification/CoreProperties.thy ===== *)
theory CoreProperties
  imports CoreHistory CoreAppend
begin

text \<open>
  The protocol core of a connection under any sequence of calls. A run starts with a core that \<open>New\<close> or
  \<open>NewAdmitted\<close> returned and takes inputs (\<open>Handle\<close>), completed queued replies and refreshed admissions in any
  order; nothing is assumed of the caller. The effects of a run are the batches of its calls one after the
  other.
\<close>

section \<open>Runs\<close>

datatype coreEvent = Handled Input | QueuedReply Input | Refreshed "PeerClaims option"

text \<open>One call. \<open>Handle\<close> is \<open>HandleInto\<close> with an empty slice.\<close>

definition Handle :: "Input \<Rightarrow> Core \<Rightarrow> Core \<times> Effect list" where
  "Handle i c = HandleInto i (c, [])"

fun coreStep :: "Core \<Rightarrow> coreEvent \<Rightarrow> Core \<times> Effect list" where
  "coreStep c (Handled i) = Handle i c"
| "coreStep c (QueuedReply i) = (snd (CompleteQueuedReply i c), [])"
| "coreStep c (Refreshed p) = (RefreshAdmission p c, [])"

definition kinds :: "Effect list \<Rightarrow> effect list" where
  "kinds es = map eKind es"

text \<open>What the environment gave: an external admission, reservations, local disconnects.\<close>

fun eventLabels :: "coreEvent \<Rightarrow> Core \<Rightarrow> label list" where
  "eventLabels (Handled i) c = inputLabels i c"
| "eventLabels _ c = []"

fun runLabels :: "Core \<Rightarrow> coreEvent list \<Rightarrow> label list" where
  "runLabels c [] = []"
| "runLabels c (e # es) = eventLabels e c @ runLabels (fst (coreStep c e)) es"

lemma Handle_appends: "HandleInto i (c, es) = (fst (Handle i c), es @ snd (Handle i c))"
  using pre_HandleInto [of i es "(c, [])"] by (simp add: Handle_def pre_def)

lemma reach_coreStep:
  assumes "reach L (c, es)"
  shows "reach (L @ eventLabels e c) (fst (coreStep c e), es @ snd (coreStep c e))"
proof (cases e)
  case (Handled i)
  then show ?thesis
    using reach_HandleInto [OF assms, of i] by (simp add: Handle_appends)
next
  case (QueuedReply i)
  then show ?thesis
    using reach_CompleteQueuedReply [OF assms, of i] by (simp add: upd_def)
next
  case (Refreshed p)
  then show ?thesis
    using reach.refresh [OF assms, of p] by (simp add: upd_def)
qed

text \<open>A core some run leads to.\<close>

definition reachable :: "Core \<Rightarrow> bool" where
  "reachable c \<longleftrightarrow> (\<exists>L es. reach L (c, es))"

interpretation core: step_machine coreStep reachable
proof
  fix c e
  assume "reachable c"
  then show "reachable (fst (coreStep c e))"
    unfolding reachable_def using reach_coreStep by blast
qed

lemma reach_run:
  "reach L (c, es) \<Longrightarrow> reach (L @ runLabels c evs) (fst (run coreStep c evs), es @ snd (run coreStep c evs))"
proof (induction evs arbitrary: L c es)
  case (Cons e evs)
  from Cons.IH [OF reach_coreStep [OF Cons.prems, of e]] show ?case
    by (simp add: Let_def)
qed simp

text \<open>The two ways a core comes into being.\<close>

definition opened :: "CoreConfig \<Rightarrow> PeerClaims option \<Rightarrow> Core option" where
  "opened cfg peer = (case peer of None \<Rightarrow> New cfg | Some p \<Rightarrow> NewAdmitted cfg p)"

definition admissionLabels :: "PeerClaims option \<Rightarrow> label list" where
  "admissionLabels peer = (if peer = None then [] else [External])"

lemma reach_opened: "opened cfg peer = Some c \<Longrightarrow> reach (admissionLabels peer) (c, [])"
  by (cases peer) (simp_all add: opened_def admissionLabels_def reach.new reach.newAdmitted)

lemma reachable_opened: "opened cfg peer = Some c \<Longrightarrow> reachable c"
  using reach_opened unfolding reachable_def by blast

lemma reach_history:
  assumes "opened cfg peer = Some c"
  shows "reach (admissionLabels peer @ runLabels c evs) (run coreStep c evs)"
  using reach_run [OF reach_opened [OF assms], of evs] by simp

lemma hist_kinds: "hist s = kinds (snd s)"
  by (simp add: hist_def kinds_def)

section \<open>Facts of a run\<close>

lemma eventLabels_external: "External \<notin> set (eventLabels e c)"
  by (cases e) (simp_all add: inputLabels_def reservedLabels_def)

lemma notice_marked: "isNotice HandshakeNotice e \<Longrightarrow> marked e"
  by (cases e) (simp_all add: isNotice_def plainNotice_def)

lemma run_facts:
  assumes "opened cfg peer = Some c"
  shows "wfCore (fst (run coreStep c evs))"
    and "heldCount (fst (run coreStep c evs)) x + releasedCount (kinds (snd (run coreStep c evs))) x = granted (runLabels c evs) x"
    and "handOK (fst (run coreStep c evs)) (kinds (snd (run coreStep c evs)))"
    and "askOK (runLabels c evs) (fst (run coreStep c evs)) (kinds (snd (run coreStep c evs)))"
    and "inOrder (peer \<noteq> None) (filter marked (kinds (snd (run coreStep c evs))))"
    and "issuedOK (run coreStep c evs)" and "superOK (run coreStep c evs)"
proof -
  note r = reach_history [OF assms, of evs]
  show "wfCore (fst (run coreStep c evs))"
    using r by (rule reach_wf)
  have "granted (admissionLabels peer @ runLabels c evs) x = granted (runLabels c evs) x"
    "asked (admissionLabels peer @ runLabels c evs) = asked (runLabels c evs)"
    by (simp_all add: granted_def asked_def admissionLabels_def)
  then show "heldCount (fst (run coreStep c evs)) x + releasedCount (kinds (snd (run coreStep c evs))) x = granted (runLabels c evs) x"
    and "askOK (runLabels c evs) (fst (run coreStep c evs)) (kinds (snd (run coreStep c evs)))"
    using reach_balance [OF r, of x] reach_ask [OF r] by (simp_all add: balance_def hist_kinds askOK_def notices_marks)
  show "handOK (fst (run coreStep c evs)) (kinds (snd (run coreStep c evs)))"
    using reach_hand [OF r] by (simp add: handOK_def notices_marks hist_kinds)
  have "External \<notin> set (runLabels d es)" for d es
    by (induction es arbitrary: d) (simp_all add: eventLabels_external)
  then have "External \<in> set (admissionLabels peer @ runLabels c evs) \<longleftrightarrow> peer \<noteq> None"
    by (auto simp: admissionLabels_def)
  then show "inOrder (peer \<noteq> None) (filter marked (kinds (snd (run coreStep c evs))))"
    using reach_gate [OF r] by (simp add: gateOK_def marks_def hist_kinds)
  show "issuedOK (run coreStep c evs)" "superOK (run coreStep c evs)"
    using r by (rule reach_issued, rule reach_super)
qed

section \<open>A connection to run\<close>

definition sampleLocal :: Settings where
  "sampleLocal = \<lparr>cfgOriginHost = [97], cfgOriginRealm = [98], cfgVendorID = 10415, cfgProductName = [112],
     cfgOriginStateID = 7, cfgFirmwareRevision = 0, cfgHostIPAddresses = [], cfgResolveHostIPAddresses = None,
     cfgSupportedVendorID = None, cfgAcctApplicationID = None, cfgAuthApplicationID = None,
     cfgVendorSpecificApplicationID = None, cfgInbandSecurityID = 0, cfgApplications = []\<rparr>"

definition sampleConfig :: "CoreRole \<Rightarrow> CoreConfig" where
  "sampleConfig role = \<lparr>kValidateRequests = False, kRejectUnknownMandatoryAVPs = False,
     kConnection = \<lparr>connInstance = 1, connGeneration = 0\<rparr>, kRole = role, kDictionary = emptySnapshot, kCanonical = emptySnapshot,
     kLocal = sampleLocal, kExpectedHost = [], kTLS = False, kQueueWrites = False, kHooks = False, kHandshakeTimeout = 10,
     kCERInterval = 0, kClosingTimeout = 10, kMaxRetransmits = 0, kWatchdog = False, kWatchdogInterval = 0, kRecovery = False,
     kCandidateDeadlineOwnedByPeer = False, kIgnoreBoundHeaderlessInput = False, kReaderOwnsMessageErrorClosure = False,
     kCloseCEROnInvalidHeaderBitsOnly = False, kLocalDisconnectInClosing = False, kSkipDWRGrammarAfterHook = False,
     kKeepCERDeadlineAfterTransportLoss = False\<rparr>"

definition sampleClaims :: PeerClaims where
  "sampleClaims = \<lparr>pcHost = [99], pcRealm = [98], pcLocalApplications = Some [4], pcRemoteApplications = [4], pcCER = False\<rparr>"

definition sampleIds :: Reservation where
  "sampleIds = \<lparr>resToken = 1, resHop = 11, resEnd = 12\<rparr>"

definition sampleInput :: "InputKind \<Rightarrow> nat \<Rightarrow> Input" where
  "sampleInput kind t = \<lparr>inDeferCER = False, inRecovery = False, inRefreshLocalAddresses = False, inLocalAddresses = [],
     inKind = kind, inConnection = \<lparr>connInstance = 1, connGeneration = 0\<rparr>, inAt = 0, inSequence = 1, inAfterReceive = 0, inToken = t,
     inMessage = None, inError = None, inErrorInput = False, inErr = False, inReservation = sampleIds, inStage = WrittenStage,
     inBytes = 0, inExpectedBytes = 0, inReplyCode = 0, inResultCode = 0, inCause = 0, inTimer = HandshakeTimer, inInterval = 0,
     inTimeout = 0, inInFlight = False, inTransportClosed = False, inHasHandler = False, inUnhandled = False, inOwnership = 0\<rparr>"

definition sampleMessage :: Message where
  "sampleMessage = (NewMessage 272 RequestFlag 4 5 6 emptySnapshot 0 0)"

definition sampleAnswer :: Message where
  "sampleAnswer = NewMessage 272 0 4 5 6 emptySnapshot 0 0"

text \<open>An initiator that is started and given its identifiers; an admitted peer whose request is delivered, then a local
  disconnect, an answer that has an owner, and an abort.\<close>

definition sampleStart :: "coreEvent list" where
  "sampleStart = [Handled (sampleInput IStart 0), Handled (sampleInput IReserveResult 2)]"

definition sampleClose :: "coreEvent list" where
  "sampleClose = [Handled ((sampleInput IReceive 0)\<lparr>inMessage := Some sampleMessage\<rparr>), Handled (sampleInput IDisconnect 0),
     Handled ((sampleInput IReceive 0)\<lparr>inMessage := Some sampleAnswer, inOwnership := 1\<rparr>), Handled (sampleInput IAbort 0)]"

lemma sampleLocal_ok: "ValidateCapabilities sampleLocal"
  by (simp add: ValidateCapabilities_def sampleLocal_def advertisedApplications_def explicitApplications_def mergeApplications_def)

lemma freshCore_sel [simp]:
  "cPhase (freshCore cfg) = PreCER" "cStarted (freshCore cfg) = False" "cCfg (freshCore cfg) = cfg" "cSerial (freshCore cfg) = 0"
  "cReservations (freshCore cfg) = Map.empty" "cStore (freshCore cfg) = []" "cOperations (freshCore cfg) = []"
  "cTerminal (freshCore cfg) = False" "cHookToken (freshCore cfg) = 0" "cDeferredExpiry (freshCore cfg) = None"
  "cDisconnectWaiting (freshCore cfg) = False"
  "cControls (freshCore cfg) = Map.empty" "cPassiveResponder (freshCore cfg) = False" "cHandshakePending (freshCore cfg) = (kRole cfg = Initiator)"
  by (simp_all add: freshCore_def)

lemma opened_sample: "opened (sampleConfig role) None = Some (freshCore (sampleConfig role))"
proof -
  have "kConnection (sampleConfig role) = \<lparr>connInstance = 1, connGeneration = 0\<rparr>" "kLocal (sampleConfig role) = sampleLocal"
    "kHandshakeTimeout (sampleConfig role) = 10" "kCERInterval (sampleConfig role) = 0" "kClosingTimeout (sampleConfig role) = 10"
    "\<not> kWatchdog (sampleConfig role)" "cfgResolveHostIPAddresses sampleLocal = None"
    by (simp_all add: sampleConfig_def sampleLocal_def)
  then show ?thesis
    using sampleLocal_ok by (simp add: opened_def New_def)
qed

lemma sampleConfig_sel [simp]:
  "kConnection (sampleConfig role) = \<lparr>connInstance = 1, connGeneration = 0\<rparr>" "kLocal (sampleConfig role) = sampleLocal"
  "kRole (sampleConfig role) = role" "kHandshakeTimeout (sampleConfig role) = 10" "kDictionary (sampleConfig role) = emptySnapshot"
  by (simp_all add: sampleConfig_def)

lemma sampleInput_sel [simp]:
  "inKind (sampleInput k t) = k" "inConnection (sampleInput k t) = \<lparr>connInstance = 1, connGeneration = 0\<rparr>" "inToken (sampleInput k t) = t"
  "inAt (sampleInput k t) = 0" "\<not> inRefreshLocalAddresses (sampleInput k t)" "\<not> inDeferCER (sampleInput k t)" "\<not> inErr (sampleInput k t)"
  "inReservation (sampleInput k t) = sampleIds"
  by (simp_all add: sampleInput_def)

lemma sample_started:
  "Handle (sampleInput IStart 0) (freshCore (sampleConfig Initiator)) =
     reserve CapabilitiesExchange (upd (\<lambda>c. c\<lparr>cPhase := WaitCEA, cHandshakePending := True\<rparr>) (arm HandshakeTimer 0 10
       (upd (\<lambda>c. c\<lparr>cStarted := True\<rparr>) (freshCore (sampleConfig Initiator), []))))"
  by (simp add: Handle_def HandleInto_def handleLive_def start_def Let_def)

lemma sample_build: "\<exists>e. buildControl c CapabilitiesExchange r = Inl e" if "kLocal (cCfg c) = sampleLocal"
  using that by (simp add: buildControl_def BuildCER_def capabilityAddresses_def sampleLocal_def sbind_def Let_def)

lemma reserved_failed:
  assumes "cReservations (fst s) (inToken i) = Some CapabilitiesExchange" "\<not> inErr i" "\<not> over (cPhase (fst s))" "kLocal (cCfg (fst s)) = sampleLocal"
  shows "cPhase (fst (reserved i s)) = Closed" "cOperations (fst (reserved i s)) = cOperations (fst s)" "cCfg (fst (reserved i s)) = cCfg (fst s)"
proof -
  obtain e where "buildControl ((fst s)\<lparr>cReservations := (cReservations (fst s))(inToken i := None)\<rparr>) CapabilitiesExchange (inReservation i) = Inl e"
    using sample_build [of "(fst s)\<lparr>cReservations := (cReservations (fst s))(inToken i := None)\<rparr>"] assms(4) by auto
  then show "cPhase (fst (reserved i s)) = Closed" "cOperations (fst (reserved i s)) = cOperations (fst s)" "cCfg (fst (reserved i s)) = cCfg (fst s)"
    using assms by (simp_all add: reserved_def Let_def CapabilitiesExchange_def DeviceWatchdog_def setHandshake_def)
qed

lemma sample_run:
  "\<exists>c. opened (sampleConfig Initiator) None = Some c \<and> runLabels c sampleStart = [Granted sampleIds] \<and>
     cPhase (fst (run coreStep c sampleStart)) = Closed \<and> cOperations (fst (run coreStep c sampleStart)) = [] \<and>
     kRole (cCfg (fst (run coreStep c sampleStart))) = Initiator"
  by (simp add: opened_sample sampleStart_def sample_started Let_def)
    (simp add: Handle_def HandleInto_def inputLabels_def reservedLabels_def fst_arm fst_reserve reserved_failed Let_def)

lemma sampleConfig_flags [simp]: "\<not> kWatchdog (sampleConfig role)" "\<not> kHooks (sampleConfig role)" "\<not> kValidateRequests (sampleConfig role)"
  "\<not> kRejectUnknownMandatoryAVPs (sampleConfig role)" "\<not> kReaderOwnsMessageErrorClosure (sampleConfig role)"
  "\<not> kLocalDisconnectInClosing (sampleConfig role)"
  by (simp_all add: sampleConfig_def)

lemma sampleInput_flags [simp]: "\<not> inErrorInput (sampleInput k t)" "inError (sampleInput k t) = None" "\<not> inUnhandled (sampleInput k t)"
  "inOwnership (sampleInput k t) = 0" "inCause (sampleInput k t) = 0"
  by (simp_all add: sampleInput_def)

text \<open>An admitted connection on which nothing has happened yet.\<close>

definition calm :: "Core \<Rightarrow> bool" where
  "calm c \<longleftrightarrow> cCfg c = sampleConfig Responder \<and> \<not> cTerminal c \<and> cHookToken c = 0 \<and> cPassivePresent c \<and> cDeferredExpiry c = None"

lemma opened_admitted:
  "\<exists>c. opened (sampleConfig Responder) (Some sampleClaims) = Some c \<and> calm c \<and> cPhase c = Open \<and> cReady c \<and> \<not> cDisconnectWaiting c"
proof -
  let ?c = "RefreshAdmission (Some sampleClaims)
     ((freshCore (sampleConfig Responder))\<lparr>cPassiveResponder := True, cPassiveWatchdog := False, cStarted := True\<rparr>)"
  have cfg: "(sampleConfig Responder)\<lparr>kRole := Responder\<rparr> = sampleConfig Responder"
    "(sampleConfig Responder)\<lparr>kWatchdog := False\<rparr> = sampleConfig Responder"
    by (simp_all add: sampleConfig_def)
  have "opened (sampleConfig Responder) (Some sampleClaims) = Some ?c"
    using opened_sample [of Responder] by (simp add: opened_def NewAdmitted_def cfg)
  moreover have "calm ?c \<and> cPhase ?c = Open \<and> cReady ?c \<and> \<not> cDisconnectWaiting ?c"
    by (simp add: RefreshAdmission_def grantAdmission_def setAdmission_def negotiate_def calm_def cfg Let_def)
  ultimately show ?thesis
    by blast
qed

lemma sampleMessage_sel:
  "m = sampleMessage \<or> m = sampleAnswer \<Longrightarrow> CommandCode (msgHeader m) = 272 \<and> ApplicationID (msgHeader m) = 4"
  "isRequest sampleMessage" "\<not> isRequest sampleAnswer"
  by (auto simp: sampleMessage_def sampleAnswer_def NewMessage_def isRequest_def RequestFlag_def)

lemma sample_receive:
  assumes "calm c" "m = sampleMessage \<and> cPhase c = Open \<and> cReady c \<or> m = sampleAnswer \<and> ow \<noteq> 0 \<and> cPhase c = Closing"
  shows "receive ((sampleInput IReceive 0)\<lparr>inMessage := Some m, inOwnership := ow\<rparr>) (c, []) = markDispatch 0 (emit (Admit m ow) (c, []))"
proof -
  have m: "CommandCode (msgHeader m) = 272" "ApplicationID (msgHeader m) = 4"
    using assms(2) sampleMessage_sel(1) by blast+
  then have v: "ValidateHeader m = None" "ValidateMessage d m = None" for d
    by (simp_all add: ValidateMessage_def ValidateHeader_def IsCommand_def CapabilitiesExchange_def DeviceWatchdog_def DisconnectPeer_def)
  have "closingAllowed ((sampleInput IReceive 0)\<lparr>inMessage := Some m, inOwnership := ow\<rparr>)" if "m = sampleAnswer" "ow \<noteq> 0"
    using m that sampleMessage_sel(3) by (simp add: closingAllowed_def isRequest_def)
  then show ?thesis
    using assms m v sampleMessage_sel(2,3)
    by (auto simp: calm_def receive_def receiveMessage_def receiveAdmitted_def activity_def receiveBody_def checkRequest_def ValidateRequest_def
        dispatch_def applicationMessage_def validActivity_def Let_def CapabilitiesExchange_def DeviceWatchdog_def DisconnectPeer_def isRequest_def)
qed

lemma sample_deliver:
  assumes "calm c" "m = sampleMessage \<and> cPhase c = Open \<and> cReady c \<or> m = sampleAnswer \<and> ow \<noteq> 0 \<and> cPhase c = Closing"
  shows "Handle ((sampleInput IReceive 0)\<lparr>inMessage := Some m, inOwnership := ow\<rparr>) c =
    (c\<lparr>cReceivedSequence := max (cReceivedSequence c) 1\<rparr>, [\<lparr>eKind = Admit m ow, eReleaseDispatch = True\<rparr>])"
proof -
  have "inSequence (sampleInput IReceive 0) = 1"
    by (simp add: sampleInput_def)
  then show ?thesis
    using assms(1,2)
    by (auto simp: Handle_def HandleInto_def handleLive_def receiveInput_def sample_receive [OF assms] calm_def Let_def
        markDispatch_def emit_def isHold_def upd_def)
qed

lemma sample_disconnect:
  assumes "calm c" "cPhase c = Open" "\<not> cDisconnectWaiting c"
  shows "Handle (sampleInput IDisconnect 0) c = beginClosing (sampleInput IDisconnect 0) True (c, [])"
  using assms by (simp add: calm_def Handle_def HandleInto_def handleLive_def disconnect_def Let_def)

lemma sample_closing:
  assumes "calm c" "cPhase c = Open" "cReady c" "\<not> cDisconnectWaiting c"
  shows "\<exists>before rest. kinds (snd (run coreStep c sampleClose)) = before @ Admit sampleAnswer 1 # rest \<and> frozenBy before"
    and "runLabels c sampleClose = [Asked]" and "cPhase (fst (run coreStep c sampleClose)) = Closed"
proof -
  let ?d = "c\<lparr>cReceivedSequence := max (cReceivedSequence c) 1\<rparr>"
  let ?b = "beginClosing (sampleInput IDisconnect 0) True (?d, [])"
  let ?e = "(fst ?b)\<lparr>cReceivedSequence := max (cReceivedSequence (fst ?b)) 1\<rparr>"
  have one: "coreStep c (Handled ((sampleInput IReceive 0)\<lparr>inMessage := Some sampleMessage\<rparr>)) =
      (?d, [\<lparr>eKind = Admit sampleMessage 0, eReleaseDispatch = True\<rparr>])"
    using sample_deliver [of c sampleMessage 0] assms by (simp add: sampleInput_def)
  have calm: "calm ?d" "calm (fst ?b)"
    using assms(1) by (simp_all add: calm_def)
  have two: "coreStep ?d (Handled (sampleInput IDisconnect 0)) = ?b"
    using sample_disconnect [OF calm(1)] assms by simp
  have three: "coreStep (fst ?b) (Handled ((sampleInput IReceive 0)\<lparr>inMessage := Some sampleAnswer, inOwnership := 1\<rparr>)) =
      (?e, [\<lparr>eKind = Admit sampleAnswer 1, eReleaseDispatch = True\<rparr>])"
    using sample_deliver [OF calm(2), of sampleAnswer 1] by simp
  have frozen: "frozenBy (hist ?b)"
    by (simp add: beginClosing_def Let_def)
  have run: "run coreStep c sampleClose = (let u = coreStep ?e (Handled (sampleInput IAbort 0)) in (fst u,
      [\<lparr>eKind = Admit sampleMessage 0, eReleaseDispatch = True\<rparr>] @ snd ?b @ [\<lparr>eKind = Admit sampleAnswer 1, eReleaseDispatch = True\<rparr>] @ snd u))"
    using one two three by (simp add: sampleClose_def Let_def)
  then show "\<exists>before rest. kinds (snd (run coreStep c sampleClose)) = before @ Admit sampleAnswer 1 # rest \<and> frozenBy before"
    using frozen
    by (intro exI [of _ "Admit sampleMessage 0 # hist ?b"] exI [of _ "kinds (snd (coreStep ?e (Handled (sampleInput IAbort 0))))"])
      (simp add: kinds_def hist_def Let_def)
  show "cPhase (fst (run coreStep c sampleClose)) = Closed"
    using calm(2) unfolding run by (simp add: calm_def Handle_def HandleInto_def handleLive_def Let_def)
  show "runLabels c sampleClose = [Asked]"
    using one two three calm assms by (simp add: sampleClose_def inputLabels_def calm_def)
qed

section \<open>Properties\<close>

text \<open>C5. Whatever is called on a core, and in whatever order, it stays well-formed: operations, controls and
  reservations agree with each other and with the number of writers; at most one exchange per command is in
  progress and only in phases that allow it; the flags and tokens of a phase are the ones it may have; a closed
  core has no timer, candidate, hook or admission left; a probe waiting for its write is the machine's next
  state; a paused message is one a hook may resume; no token is ahead of the counter.\<close>

theorem core_wellformed:
  assumes "opened cfg peer = Some c"
  shows "wfCore (fst (run coreStep c evs))"
proof -
  have "reachable (fst (run coreStep c evs))"
    using core.run_inv [OF reachable_opened [OF assms]] .
  then show ?thesis
    unfolding reachable_def using reach_wf by force
qed

theorem core_wellformed_witness:
  "\<exists>c. opened (sampleConfig Initiator) None = Some c \<and> wfCore (fst (run coreStep c sampleStart))"
  using sample_run core_wellformed by blast

text \<open>C2. Identifiers are neither lost nor returned twice: at every moment the reservations granted to the core are
  those its exchanges still hold together with those it has released, each as often as it was granted.\<close>

theorem identifiers_conserved:
  assumes "opened cfg peer = Some c"
  shows "let r = run coreStep c evs
    in heldCount (fst r) x + releasedCount (kinds (snd r)) x = granted (runLabels c evs) x"
  using run_facts(2) [OF assms] by (simp add: Let_def)

theorem identifiers_conserved_witness:
  "\<exists>c. opened (sampleConfig Initiator) None = Some c \<and>
     (let r = run coreStep c sampleStart in heldCount (fst r) sampleIds + releasedCount (kinds (snd r)) sampleIds = 1)"
proof -
  obtain c where c: "opened (sampleConfig Initiator) None = Some c" "runLabels c sampleStart = [Granted sampleIds]"
    using sample_run by blast
  then show ?thesis
    using identifiers_conserved [OF c(1), of sampleStart sampleIds] by (simp add: granted_def)
qed

text \<open>C10. Once the connection is over and every write has been reported, every reservation has been released
  exactly as often as it was granted.\<close>

theorem identifiers_returned:
  assumes "opened cfg peer = Some c" "over (cPhase (fst (run coreStep c evs)))" "cOperations (fst (run coreStep c evs)) = []"
  shows "releasedCount (kinds (snd (run coreStep c evs))) x = granted (runLabels c evs) x"
proof -
  let ?c = "fst (run coreStep c evs)"
  have wf: "wfCore ?c"
    using assms(1) by (rule run_facts)
  have "ctlReleased (cStore ?c ! i)" if "i < length (cStore ?c)" for i
  proof -
    have "\<not> ctlLogical (cStore ?c ! i)" "writersOf ?c i = 0" "ctlWriters (cStore ?c ! i) = int (writersOf ?c i)"
      using wf assms(2,3) that by (auto simp: wfCore_def storeOK_def idsOK_def ctlOK_def Let_def writersOf_def)
    then show ?thesis
      using wf that by (simp add: wfCore_def idsOK_def settledOK_def Let_def)
  qed
  then have "heldCount ?c x = 0"
    by (auto simp: heldCount_def holds_def filter_empty_conv in_set_conv_nth)
  then show ?thesis
    using run_facts(2) [OF assms(1), of evs x] by simp
qed

theorem identifiers_returned_witness:
  "\<exists>c. opened (sampleConfig Initiator) None = Some c \<and> releasedCount (kinds (snd (run coreStep c sampleStart))) sampleIds = 1"
proof -
  obtain c where c: "opened (sampleConfig Initiator) None = Some c" "runLabels c sampleStart = [Granted sampleIds]"
    "cPhase (fst (run coreStep c sampleStart)) = Closed" "cOperations (fst (run coreStep c sampleStart)) = []"
    using sample_run by blast
  then show ?thesis
    using identifiers_returned [OF c(1), of sampleStart sampleIds] by (simp add: granted_def)
qed

text \<open>C9. The handshake is reported at most once. An initiator whose connection is over has reported it exactly
  once, completed or failed; a responder has reported it exactly when it had admitted its peer.\<close>

theorem handshake_reported_once:
  assumes "opened cfg peer = Some c"
  shows "let r = run coreStep c evs; n = notices HandshakeNotice (kinds (snd r)); d = fst r
    in n \<le> 1 \<and> (over (cPhase d) \<longrightarrow> n = (if kRole (cCfg d) = Initiator then 1 else publications (kinds (snd r))))"
proof -
  let ?r = "run coreStep c evs"
  have "handOK (fst ?r) (kinds (snd ?r))"
    using assms by (rule run_facts)
  then show ?thesis
    by (cases "kRole (cCfg (fst ?r))") (auto simp: handOK_def Let_def)
qed

theorem handshake_reported_once_witness:
  "\<exists>c. opened (sampleConfig Initiator) None = Some c \<and> notices HandshakeNotice (kinds (snd (run coreStep c sampleStart))) = 1"
proof -
  obtain c where c: "opened (sampleConfig Initiator) None = Some c" "cPhase (fst (run coreStep c sampleStart)) = Closed"
    "kRole (cCfg (fst (run coreStep c sampleStart))) = Initiator"
    using sample_run by blast
  then show ?thesis
    using handshake_reported_once [OF c(1), of sampleStart] by (simp add: Let_def)
qed



text \<open>The effects a connection may still have after its end.\<close>

fun afterEnd :: "effect \<Rightarrow> bool" where
  "afterEnd (ReleaseIDs x) \<longleftrightarrow> True"
| "afterEnd CloseConnection \<longleftrightarrow> True"
| "afterEnd (Notify n t) \<longleftrightarrow> plainNotice n \<and> t = 0"
| "afterEnd k \<longleftrightarrow> False"

lemma over_write:
  assumes "over (cPhase (fst s))"
  shows "cPhase (fst (writeResult i s)) = cPhase (fst s) \<and> (\<exists>es. hist (writeResult i s) = hist s @ es \<and> list_all afterEnd es)"
proof -
  have "cPhase (fst s) \<noteq> WaitCEA" "cPhase (fst s) \<noteq> Open"
    using assms by (auto simp: over_def)
  then show ?thesis
    using assms
    by (auto simp: writeResult_def skippedControl_def endWriter_def hist_release Let_def split: option.split)
qed

lemma over_step:
  assumes "over (cPhase c)"
  shows "cPhase (fst (coreStep c e)) = cPhase c \<and> list_all afterEnd (kinds (snd (coreStep c e)))"
proof (cases e)
  case (Handled i)
  have "cPhase (fst (reserved i (c, []))) = cPhase c \<and> list_all afterEnd (hist (reserved i (c, [])))"
    using assms by (simp add: reserved_def Let_def split: option.split)
  moreover have "cPhase (fst (writeResult i (c, []))) = cPhase c \<and> list_all afterEnd (hist (writeResult i (c, [])))"
    using over_write [of "(c, [])" i] assms by auto
  moreover have "cPhase (fst (lateCER i (c, []))) = cPhase c \<and> list_all afterEnd (hist (lateCER i (c, [])))"
    by (simp add: lateCER_def Let_def notify_def notifyToken_def) (simp add: notice0_def plainNotice_def)
  ultimately show ?thesis
    using Handled assms by (auto simp: Handle_def HandleInto_def hist_kinds [symmetric] Let_def)
next
  case (QueuedReply i)
  then show ?thesis
    by (cases rule: CompleteQueuedReply_cases [of i c]) (simp_all add: kinds_def)
next
  case (Refreshed p)
  then show ?thesis
    using assms by (simp add: RefreshAdmission_def kinds_def)
qed



lemma split_marked: "filter marked (before @ Admit m ow # rest) = filter marked before @ Admit m ow # filter marked rest"
  by simp

text \<open>C3. Messages are delivered in order: none after the connection was closed; after admission was frozen only
  answers that have an owner; before that, on a connection the core admitted itself, none before the handshake was
  reported.\<close>

theorem deliveries_in_order:
  assumes "opened cfg peer = Some c" "kinds (snd (run coreStep c evs)) = before @ Admit m ow # rest"
  shows "CloseConnection \<notin> set before \<and>
    (if frozenBy before then \<not> isRequest m \<and> ow \<noteq> 0 else peer \<noteq> None \<or> shaken before)"
proof -
  have "deliverable (peer \<noteq> None) (filter marked before) m ow"
    using run_facts(5) [OF assms(1), of evs] unfolding assms(2) split_marked inOrder_def by blast
  moreover have "CloseConnection \<in> set (filter marked before) \<longleftrightarrow> CloseConnection \<in> set before"
    "frozenBy (filter marked before) = frozenBy before"
    by (auto simp: frozenBy_def)
  moreover have "shaken (filter marked before) = shaken before"
    by (auto simp: shaken_def dest: notice_marked)
  ultimately show ?thesis
    by (auto simp: deliverable_def split: if_splits)
qed

theorem deliveries_in_order_witness:
  "\<exists>c before rest. opened (sampleConfig Responder) (Some sampleClaims) = Some c \<and>
     kinds (snd (run coreStep c sampleClose)) = before @ Admit sampleAnswer 1 # rest \<and> frozenBy before \<and> CloseConnection \<notin> set before \<and>
     \<not> isRequest sampleAnswer"
proof -
  obtain c where c: "opened (sampleConfig Responder) (Some sampleClaims) = Some c" "calm c" "cPhase c = Open" "cReady c" "\<not> cDisconnectWaiting c"
    using opened_admitted by blast
  obtain before rest where b: "kinds (snd (run coreStep c sampleClose)) = before @ Admit sampleAnswer 1 # rest" "frozenBy before"
    using sample_closing(1) [OF c(2-5)] by blast
  show ?thesis
    using c(1) b deliveries_in_order [OF c(1) b(1)] by auto
qed

text \<open>C16. The tokens of a connection - of reservations, writes, candidates, hooks, timers, the freeze and the
  admission - are all different and lie between 1 and the core's counter.\<close>

theorem tokens_bounded:
  assumes "opened cfg peer = Some c"
  shows "let r = run coreStep c evs
    in distinct (tokens (kinds (snd r))) \<and> set (tokens (kinds (snd r))) \<subseteq> {1..cSerial (fst r)}"
  using run_facts(6) [OF assms, of evs] by (auto simp: issuedOK_def Let_def hist_kinds Suc_le_eq)

theorem tokens_bounded_witness:
  "\<exists>c. opened (sampleConfig Initiator) None = Some c \<and> distinct (tokens (kinds (snd (run coreStep c sampleStart))))"
proof -
  obtain c where c: "opened (sampleConfig Initiator) None = Some c"
    using sample_run by blast
  then show ?thesis
    using tokens_bounded [OF c, of sampleStart] by (simp add: Let_def)
qed



text \<open>C21. \<open>HandleInto\<close> only appends: the core it leaves and the effects it adds do not depend on the slice it is given,
  and what the slice held stays in front of them.\<close>

theorem HandleInto_appends: "HandleInto i (c, es) = (fst (Handle i c), es @ snd (Handle i c))"
  by (rule Handle_appends)

end
