(* ===== verification/Spec2Isabelle.thy ===== *)
theory Spec2Isabelle
  imports ErrorAnswers CoreProperties
begin

text \<open>
  Verification of go-diameter, a Diameter (RFC 6733) stack: the wire codec, the dictionary and its
  grammar, the base messages, and the state machines of a connection. Paths are below \<open>src/diam\<close>.

  \<^bold>\<open>Parts and theories.\<close>
  \<^item> \<open>Prelude\<close>: bytes, big-endian numbers, padding, and the list and option lemmas shared by all.
  \<^item> \<open>Datatypes\<close> (\<open>datatype/*.go\<close>): the AVP data types with \<open>Decode\<close>, \<open>dt_Serialize\<close>, \<open>dt_Len\<close>.
  \<^item> \<open>Identity\<close> (\<open>datatype/diamident.go\<close>, \<open>datatype/diamuri.go\<close>): identities and URIs.
  \<^item> \<open>Header\<close> (\<open>header.go\<close>): the 20-byte message header.
  \<^item> \<open>Dictionary\<close> (\<open>dict/*.go\<close>): definitions, snapshots, indexes, lookups, flag rules.
  \<^item> \<open>Avp\<close> (\<open>avp.go\<close>, \<open>group.go\<close>): AVPs and groups, serialised into a buffer and decoded with the
    nesting limit and the three classes of decoding errors.
  \<^item> \<open>Message\<close> (\<open>message.go\<close>): editing, reading from a stream, writing with retries, search, answers.
  \<^item> \<open>Validation\<close>, \<open>Grammar\<close> (\<open>validation.go\<close>): the grammar validator and the outgoing check, and
    what they accept.
  \<^item> \<open>Watchdog\<close> (\<open>internal/watchdog\<close>): the RFC 3539 machine.
  \<^item> \<open>Pending\<close> (\<open>pending_requests.go\<close>, \<open>write_gate.go\<close>): ownership of request identifiers.
  \<^item> \<open>Base\<close>, \<open>Capabilities\<close>, \<open>Builders\<close> (\<open>internal/base\<close>): validation and parsing of the base
    messages, application negotiation, the local offer, builders and error answers.
  \<^item> \<open>Negotiation\<close>, \<open>ErrorAnswers\<close>: what two nodes achieve with them.
  \<^item> \<open>CoreState\<close>, \<open>CoreHandlers\<close> (\<open>internal/protocol/*.go\<close>): the protocol core of one connection, from
    its data and small operations up to \<open>HandleInto\<close>, the reaction to one input. It calls the parser,
    the negotiation, the builders and the watchdog of the theories above. A core and the effects it
    appends to the caller's slice form a \<open>batch\<close>.
  \<^item> \<open>CoreFrames\<close>, \<open>CoreIds\<close>, \<open>CoreEnd\<close>, \<open>CoreWrites\<close>: what single operations leave alone, what they do
    to identifiers, what is left at the end, which writes may be in flight.
  \<^item> \<open>CoreMachine\<close>: the same core as a step relation of small guarded actions, \<open>reach\<close>.
    \<open>CoreInvariant\<close>: the invariants of that relation. \<open>CoreRefinement\<close>: every handler is a sequence
    of its actions, so the invariants are those of the code. \<open>CoreHistory\<close>: what holds of the
    effects of a whole connection. \<open>CoreAppend\<close>: handlers only append effects.
  \<^item> \<open>CoreProperties\<close>: the claims about a connection, over any sequence of calls.

  \<^bold>\<open>Conventions.\<close> A struct is a \<open>record\<close>, an interface with finitely many implementations a
  \<open>datatype\<close>, a machine integer a word of its width. Slices are lists; where the code tells a nil
  slice from an empty one they are \<open>list option\<close>. A nil AVP or group inside a message is not
  represented. Errors are datatypes without their texts; a slice bound violated at run time is an
  error value of its own (\<open>SerializePanic\<close>). A copy is the identity on values. Mutation under a lock
  is state passing, one step per locked section. Random identifiers, the embedded base dictionary and
  resolved local addresses are arguments of the definitions that use them. In the core, a pointer to
  a \<open>control\<close> is an index into the store of controls, since operations and the table of commands
  share it; tokens and sequence numbers are natural numbers, the 64-bit counter being far from its
  limit in any run; times and durations are integers. The claims about the core are stated over \<open>run\<close>, the locale \<open>step_machine\<close> of
  \<open>Prelude\<close> interpreted on \<open>coreStep\<close>.

  \<^bold>\<open>What is shown.\<close> Codec: encoding and decoding are inverse for data, AVPs, headers and messages, in
  both directions, into any buffer, across partial writes, and for streams of messages. Validation:
  the validator's loop is equivalent to a declarative grammar, and what passes the outgoing check has
  clean flags at every depth. Negotiation: a CER built by one node is understood by the other and
  yields exactly the common applications. Error answers: identifiers, flags, evidence and length.
  Watchdog: failover and failback alternate, no retransmission, three answers to reopen, silent peers
  are closed. Requests: owners are live, closing freezes them, answers are consumed once.
  Connection core, for every sequence of inputs: it stays well-formed; identifiers are conserved and
  all returned; the handshake is reported once and every disconnect answered once; deliveries respect
  handshake, closing and end; the end is final; tokens never repeat; its watchdog is the RFC 3539 machine.

  \<^bold>\<open>Bounds and fuel.\<close> The walk over overlapped tickets in \<open>rollback\<close> has the number of tickets plus
  one as fuel, and it is shown to be enough. The loop that fills missing AVPs of an error answer has
  the source's own bound of 32 rounds. Group decoding is limited by the source's nesting depth.

  \<^bold>\<open>Not modelled.\<close> Sockets, TLS, SCTP, goroutines and callbacks (input and output), XML dictionary
  files, the reflection-based \<open>Marshal\<close>, text formatting, DNS discovery and the peer manager. Of the
  core: the accessors that copy its fields for callers and the defensive copies of reported errors.
\<close>

end
